theory Spec2Isabelle
  imports Complex_Main "HOL-Library.Word"
begin

unbundle bit_operations_syntax

section \<open>Value types of the digitizer block\<close>

text \<open>
  The embedding follows \<^verbatim>\<open>digitizer_block_impl.cc\<close>. A C++ \<^verbatim>\<open>int\<close> and a
  \<^verbatim>\<open>uint32_t\<close> are both 32-bit words: \<open>sint\<close> reads the former, \<open>uint\<close> the latter,
  and \<^verbatim>\<open>static_cast\<close> between them keeps the bits. Stream offsets are 64-bit words.
  A \<^verbatim>\<open>double\<close> is rendered as a \<open>real\<close>; where the source narrows a value to
  \<^verbatim>\<open>float\<close> the rounding is an explicit function argument: the general theorems hold
  for every rounding, and \<open>static_cast_float\<close> below is the one of IEEE 754 binary32.
\<close>

type_synonym int32_t = "32 word"
type_synonym uint32_t = "32 word"
type_synonym uint64_t = "64 word"
type_synonym uint8_t = "8 word"

datatype acquisition_mode_t = STREAMING | RAPID_BLOCK

datatype downsampling_mode_t =
  DOWNSAMPLING_MODE_NONE | DOWNSAMPLING_MODE_MIN_MAX
| DOWNSAMPLING_MODE_DECIMATE | DOWNSAMPLING_MODE_AVERAGE

datatype trigger_direction_t =
  TRIGGER_DIRECTION_RISING | TRIGGER_DIRECTION_FALLING
| TRIGGER_DIRECTION_LOW | TRIGGER_DIRECTION_HIGH

datatype poller_state_t = IDLE | RUNNING | PEND_IDLE | PEND_EXIT | EXIT

datatype digitizer_block_errc = Interrupted | Stopped | Watchdog

text \<open>
  A \<^verbatim>\<open>std::error_code\<close>: empty, one of the block's own codes, or a code of the
  driver's category. \<^verbatim>\<open>if (ec)\<close> holds of every value but the empty one.
\<close>

datatype error_code = No_error | Block_errc digitizer_block_errc | Driver_errc int

definition ec_set :: "error_code \<Rightarrow> bool" where
  "ec_set ec = (ec \<noteq> No_error)"

text \<open>
  The exceptions that leave a member function, and the two ways a call can go wrong
  without one: a failed \<^verbatim>\<open>assert\<close>, and a read or write past the end of an array
  or through a pointer of the wrong element type (undefined behaviour in C++).
\<close>

datatype exn =
  Invalid_argument | Runtime_error | Bad_lexical_cast | Out_of_range
| Assertion_failed | Undefined_behaviour

record channel_setting_t =
  ch_range :: real
  ch_actual_range :: real
  ch_offset :: real
  ch_enabled :: bool
  ch_dc_coupled :: bool

record port_setting_t =
  port_logic_level :: real
  port_enabled :: bool

text \<open>
  Modelled from the spec: \<^verbatim>\<open>trigger_setting_t\<close> and its sentinels
  \<^verbatim>\<open>TRIGGER_NONE_SOURCE\<close> and \<^verbatim>\<open>TRIGGER_DIGITAL_SOURCE\<close> are declared in a header that is
  not part of the sources at hand. TriggerConfig has a source that is "None", the
  digital-source sentinel or the id of an analog channel; the trigger is enabled unless
  the source is "None", digital when the source is the digital sentinel, analog otherwise.
\<close>

datatype trigger_source =
  TRIGGER_NONE_SOURCE | TRIGGER_DIGITAL_SOURCE | Channel_source string

record trigger_setting_t =
  trg_source :: trigger_source
  trg_threshold :: real
  trg_direction :: trigger_direction_t
  trg_pin_number :: uint32_t

definition is_enabled :: "trigger_setting_t \<Rightarrow> bool" where
  "is_enabled t = (trg_source t \<noteq> TRIGGER_NONE_SOURCE)"

definition is_digital :: "trigger_setting_t \<Rightarrow> bool" where
  "is_digital t = (is_enabled t \<and> trg_source t = TRIGGER_DIGITAL_SOURCE)"

definition is_analog :: "trigger_setting_t \<Rightarrow> bool" where
  "is_analog t = (is_enabled t \<and> trg_source t \<noteq> TRIGGER_DIGITAL_SOURCE)"

text \<open>
  Modelled from the spec: \<^verbatim>\<open>rapid_block_state_t\<close> is declared in the same missing
  header. Section 4.4: a fresh capture sequence is initialised for \<open>nr_captures\<close>
  waveforms and starts reading the first one; after a batch, (offset, samples_left) are
  updated and, if samples are left, the state is READING_THE_REST, else the machine
  advances to the next waveform or, after the last one, back to WAITING.
\<close>

datatype rapid_block_states = WAITING | READING_PART1 | READING_THE_REST

record rapid_block_state_t =
  state :: rapid_block_states
  waveform_count :: int32_t
  waveform_idx :: int32_t
  offset :: int32_t
  samples_left :: int32_t

definition initialize_bstate :: "uint32_t \<Rightarrow> rapid_block_state_t \<Rightarrow> rapid_block_state_t" where
  "initialize_bstate nr_waveforms b =
     b\<lparr>state := READING_PART1, waveform_idx := 0, waveform_count := nr_waveforms\<rparr>"

definition set_waveform_params ::
  "uint32_t \<Rightarrow> uint32_t \<Rightarrow> rapid_block_state_t \<Rightarrow> rapid_block_state_t" where
  "set_waveform_params offset_samps samples_left_samps b =
     b\<lparr>offset := offset_samps, samples_left := samples_left_samps\<rparr>"

definition update_state :: "int32_t \<Rightarrow> rapid_block_state_t \<Rightarrow> rapid_block_state_t" where
  "update_state nsamples b =
     (let b1 = b\<lparr>offset := offset b + nsamples, samples_left := samples_left b - nsamples\<rparr>
      in if 0 < sint (samples_left b1) then b1\<lparr>state := READING_THE_REST\<rparr>
         else let b2 = b1\<lparr>waveform_idx := waveform_idx b1 + 1\<rparr>
              in if sint (waveform_count b2) \<le> sint (waveform_idx b2)
                 then b2\<lparr>state := WAITING\<rparr>
                 else b2\<lparr>state := READING_PART1\<rparr>)"

text \<open>
  Modelled from the spec: the error history \<^verbatim>\<open>d_errors\<close> is a class of the repository
  that is not part of the sources at hand. ErrorRing is a bounded FIFO of capacity 128
  that overwrites the oldest entry on overflow; the block constructs it with 128.
\<close>

definition push_error :: "error_code \<Rightarrow> error_code list \<Rightarrow> error_code list" where
  "push_error ec es = (if 128 \<le> length es then tl es else es) @ [ec]"

subsection \<open>Sample tags and the calls made on the driver\<close>

text \<open>
  Modelled from the spec: the tag constructors of \<^verbatim>\<open>tags.h\<close> are not part of the
  sources at hand. A trigger tag marks an offset and may carry the pre- and post-trigger
  sample counts, a status word, the timebase and a timestamp; an acq-info tag carries the
  per-chunk record and sits at the offset that record names; a timebase tag carries the
  timebase. Each constructor keeps the arguments the block passes; \<open>tag_offset\<close> is the
  field the block assigns afterwards.
\<close>

record acq_info_t =
  acq_timestamp :: int
  acq_timebase :: real
  acq_user_delay :: real
  acq_actual_delay :: real
  acq_samples :: uint32_t
  acq_offset :: uint64_t
  acq_triggered_data :: bool
  acq_trigger_timestamp :: int
  acq_status :: uint32_t

datatype tag_value =
  Trigger_tag
| Trigger_tag_info uint32_t uint32_t uint32_t real int
| Acq_info_tag acq_info_t
| Timebase_info_tag real

record tag_t =
  tag_offset :: uint64_t
  tag_value :: tag_value

definition make_trigger_tag :: tag_t where
  "make_trigger_tag = \<lparr>tag_offset = 0, tag_value = Trigger_tag\<rparr>"

definition make_trigger_tag_info ::
  "uint32_t \<Rightarrow> uint32_t \<Rightarrow> uint32_t \<Rightarrow> real \<Rightarrow> int \<Rightarrow> tag_t" where
  "make_trigger_tag_info pre post status timebase timestamp =
     \<lparr>tag_offset = 0, tag_value = Trigger_tag_info pre post status timebase timestamp\<rparr>"

definition make_acq_info_tag :: "acq_info_t \<Rightarrow> tag_t" where
  "make_acq_info_tag info = \<lparr>tag_offset = acq_offset info, tag_value = Acq_info_tag info\<rparr>"

definition make_timebase_info_tag :: "real \<Rightarrow> tag_t" where
  "make_timebase_info_tag timebase = \<lparr>tag_offset = 0, tag_value = Timebase_info_tag timebase\<rparr>"

datatype driver_call =
  Driver_arm | Driver_disarm
| Driver_prefetch_block uint32_t int32_t
| Driver_get_rapid_block_data int32_t int32_t int32_t

section \<open>The block\<close>

text \<open>
  The members of \<^verbatim>\<open>digitizer_block_impl\<close> that the modelled functions read or write.
  \<open>d_channel_settings\<close> and \<open>d_port_settings\<close> are the fixed-size arrays of
  \<^verbatim>\<open>MAX_SUPPORTED_AI_CHANNELS\<close> and \<^verbatim>\<open>MAX_SUPPORTED_PORTS\<close> entries, so the two
  constants are the lengths of the lists. Three members belong to collaborators and
  record what the block did to them: \<open>gr_output_multiple\<close> (the scheduler attribute
  set through \<^verbatim>\<open>set_output_multiple\<close>), \<open>gr_item_tags\<close> (every
  \<^verbatim>\<open>add_item_tag(slot, tag)\<close>, in order) and
  \<open>driver_trace\<close> (every call on the driver interface, in order). The moving average
  \<open>d_estimated_sample_rate\<close> is kept as its mean, and the vectors of raw output
  pointers \<^verbatim>\<open>ai_buffers\<close>, \<^verbatim>\<open>ai_error_buffers\<close> and \<^verbatim>\<open>port_buffers\<close> as their sizes.
\<close>

record digitizer_block =
  d_samp_rate :: real
  d_actual_samp_rate :: real
  d_samples :: uint32_t
  d_pre_samples :: uint32_t
  d_nr_captures :: uint32_t
  d_buffer_size :: uint32_t
  d_nr_buffers :: uint32_t
  d_driver_buffer_size :: uint32_t
  d_acquisition_mode :: acquisition_mode_t
  d_poll_rate :: real
  d_downsampling_mode :: downsampling_mode_t
  d_downsampling_factor :: uint32_t
  d_ai_channels :: int
  d_ports :: int
  d_channel_settings :: "channel_setting_t list"
  d_port_settings :: "port_setting_t list"
  d_trigger_settings :: trigger_setting_t
  d_status :: "uint32_t list"
  d_app_buffer_errc :: error_code
  d_was_last_callback_timestamp_taken :: bool
  d_estimated_sample_rate :: real
  d_initialized :: bool
  d_armed :: bool
  d_auto_arm :: bool
  d_trigger_once :: bool
  d_was_triggered_once :: bool
  d_timebase_published :: bool
  d_data_rdy :: bool
  d_data_rdy_errc :: error_code
  d_trigger_state :: int
  d_errors :: "error_code list"
  d_poller_state :: poller_state_t
  d_bstate :: rapid_block_state_t
  ai_buffers_size :: nat
  ai_error_buffers_size :: nat
  port_buffers_size :: nat
  gr_output_multiple :: int32_t
  gr_item_tags :: "(nat \<times> tag_t) list"
  driver_trace :: "driver_call list"

text \<open>
  A call either returns a value or throws; in both cases the object is left in some
  state, which the outcome carries.
\<close>

datatype 'a outcome = Return 'a digitizer_block | Throw exn digitizer_block

fun bind_outcome :: "'a outcome \<Rightarrow> ('a \<Rightarrow> digitizer_block \<Rightarrow> 'b outcome) \<Rightarrow> 'b outcome" where
  "bind_outcome (Return v s) f = f v s"
| "bind_outcome (Throw e s) f = Throw e s"

text \<open>
  The constructor. What the missing header fixes (the value-initialised settings
  arrays, trigger settings and rapid-block state) is passed in.
\<close>

definition digitizer_block_impl ::
  "int \<Rightarrow> int \<Rightarrow> bool \<Rightarrow> channel_setting_t list \<Rightarrow> port_setting_t list \<Rightarrow> trigger_setting_t
     \<Rightarrow> rapid_block_state_t \<Rightarrow> digitizer_block" where
  "digitizer_block_impl ai_channels di_ports auto_arm channels ports trigger bstate =
     \<lparr>d_samp_rate = 10000,
      d_actual_samp_rate = 10000,
      d_samples = 10000,
      d_pre_samples = 1000,
      d_nr_captures = 1,
      d_buffer_size = 8192,
      d_nr_buffers = 100,
      d_driver_buffer_size = 100000,
      d_acquisition_mode = STREAMING,
      d_poll_rate = 0.001,
      d_downsampling_mode = DOWNSAMPLING_MODE_NONE,
      d_downsampling_factor = 1,
      d_ai_channels = ai_channels,
      d_ports = di_ports,
      d_channel_settings = channels,
      d_port_settings = ports,
      d_trigger_settings = trigger,
      d_status = replicate (nat ai_channels) 0,
      d_app_buffer_errc = No_error,
      d_was_last_callback_timestamp_taken = False,
      d_estimated_sample_rate = 0,
      d_initialized = False,
      d_armed = False,
      d_auto_arm = auto_arm,
      d_trigger_once = False,
      d_was_triggered_once = False,
      d_timebase_published = False,
      d_data_rdy = False,
      d_data_rdy_errc = No_error,
      d_trigger_state = 0,
      d_errors = [],
      d_poller_state = IDLE,
      d_bstate = bstate,
      ai_buffers_size = nat ai_channels,
      ai_error_buffers_size = nat ai_channels,
      port_buffers_size = nat di_ports,
      gr_output_multiple = 1,
      gr_item_tags = [],
      driver_trace = []\<rparr>"

section \<open>Helpers\<close>

definition get_pre_trigger_samples_with_downsampling :: "digitizer_block \<Rightarrow> uint32_t" where
  "get_pre_trigger_samples_with_downsampling s =
     (if d_downsampling_mode s \<noteq> DOWNSAMPLING_MODE_NONE
      then d_pre_samples s div d_downsampling_factor s else d_pre_samples s)"

definition get_post_trigger_samples_with_downsampling :: "digitizer_block \<Rightarrow> uint32_t" where
  "get_post_trigger_samples_with_downsampling s =
     (if d_downsampling_mode s \<noteq> DOWNSAMPLING_MODE_NONE
      then d_samples s div d_downsampling_factor s else d_samples s)"

definition get_block_size :: "digitizer_block \<Rightarrow> uint32_t" where
  "get_block_size s = d_samples s + d_pre_samples s"

definition get_block_size_with_downsampling :: "digitizer_block \<Rightarrow> uint32_t" where
  "get_block_size_with_downsampling s =
     get_pre_trigger_samples_with_downsampling s + get_post_trigger_samples_with_downsampling s"

definition get_timebase_with_downsampling :: "digitizer_block \<Rightarrow> real" where
  "get_timebase_with_downsampling s =
     (if d_downsampling_mode s = DOWNSAMPLING_MODE_NONE then 1 / d_actual_samp_rate s
      else real_of_int (uint (d_downsampling_factor s)) / d_actual_samp_rate s)"

definition add_error_code :: "error_code \<Rightarrow> digitizer_block \<Rightarrow> digitizer_block" where
  "add_error_code ec s = s\<lparr>d_errors := push_error ec (d_errors s)\<rparr>"

definition get_samp_rate :: "digitizer_block \<Rightarrow> real" where
  "get_samp_rate s = d_actual_samp_rate s"


definition add_item_tag :: "nat \<Rightarrow> tag_t \<Rightarrow> digitizer_block \<Rightarrow> digitizer_block" where
  "add_item_tag which_output tag s = s\<lparr>gr_item_tags := gr_item_tags s @ [(which_output, tag)]\<rparr>"

section \<open>Configuration setters\<close>

definition set_samples :: "int32_t \<Rightarrow> int32_t \<Rightarrow> digitizer_block \<Rightarrow> unit outcome" where
  "set_samples samples pre_samples s =
     (if sint samples < 1 then Throw Invalid_argument s
      else if sint pre_samples < 0 then Throw Invalid_argument s
      else Return () (s\<lparr>d_samples := samples,
                         d_pre_samples := pre_samples,
                         d_buffer_size := samples + pre_samples\<rparr>))"


text \<open>
  \<^verbatim>\<open>gr::block::set_output_multiple\<close> is inherited from GNU Radio and is not part of
  the repository. GNU Radio's \<^verbatim>\<open>block.cc\<close> rejects a multiple below one with
  \<^verbatim>\<open>std::invalid_argument\<close> and stores any other. \<^verbatim>\<open>set_buffer_size\<close> calls it after it
  has written \<open>d_buffer_size\<close>, so a buffer size of zero is stored and then thrown on.
\<close>

definition set_output_multiple :: "int32_t \<Rightarrow> digitizer_block \<Rightarrow> unit outcome" where
  "set_output_multiple multiple s =
     (if sint multiple < 1 then Throw Invalid_argument s
      else Return () (s\<lparr>gr_output_multiple := multiple\<rparr>))"

definition set_buffer_size :: "int32_t \<Rightarrow> digitizer_block \<Rightarrow> unit outcome" where
  "set_buffer_size buffer_size s =
     (if sint buffer_size < 0 then Throw Invalid_argument s
      else set_output_multiple buffer_size (s\<lparr>d_buffer_size := buffer_size\<rparr>))"



definition set_auto_arm :: "bool \<Rightarrow> digitizer_block \<Rightarrow> unit outcome" where
  "set_auto_arm auto_arm s = Return () (s\<lparr>d_auto_arm := auto_arm\<rparr>)"

definition set_trigger_once :: "bool \<Rightarrow> digitizer_block \<Rightarrow> unit outcome" where
  "set_trigger_once once s = Return () (s\<lparr>d_trigger_once := once\<rparr>)"

definition set_streaming :: "real \<Rightarrow> digitizer_block \<Rightarrow> unit outcome" where
  "set_streaming poll_rate s =
     (if poll_rate < 0 then Throw Invalid_argument s
      else Return () (s\<lparr>d_acquisition_mode := STREAMING,
                         d_poll_rate := poll_rate,
                         d_nr_captures := 1\<rparr>))"

definition set_rapid_block :: "int32_t \<Rightarrow> digitizer_block \<Rightarrow> unit outcome" where
  "set_rapid_block nr_captures s =
     (if sint nr_captures < 1 then Throw Invalid_argument s
      else Return () (s\<lparr>d_acquisition_mode := RAPID_BLOCK, d_nr_captures := nr_captures\<rparr>))"

definition set_downsampling ::
  "downsampling_mode_t \<Rightarrow> int32_t \<Rightarrow> digitizer_block \<Rightarrow> unit outcome" where
  "set_downsampling mode downsample_factor s =
     (if mode = DOWNSAMPLING_MODE_NONE
      then Return () (s\<lparr>d_downsampling_mode := mode, d_downsampling_factor := 1\<rparr>)
      else if sint downsample_factor < 2 then Throw Invalid_argument s
      else Return () (s\<lparr>d_downsampling_mode := mode,
                         d_downsampling_factor := downsample_factor\<rparr>))"

text \<open>
  \<^verbatim>\<open>std::toupper(id[0]) - 'A'\<close> on a (signed) \<^verbatim>\<open>char\<close>. The test against
  \<^verbatim>\<open>MAX_SUPPORTED_AI_CHANNELS\<close> is \<^verbatim>\<open>idx > MAX\<close>, so \<open>idx = MAX\<close> passes it.
\<close>

definition char_value :: "char \<Rightarrow> int" where
  "char_value c = (let n = int (of_char c) in if 128 \<le> n then n - 256 else n)"

definition toupper :: "int \<Rightarrow> int" where
  "toupper c = (if 97 \<le> c \<and> c \<le> 122 then c - 32 else c)"

definition MAX_SUPPORTED_AI_CHANNELS :: "digitizer_block \<Rightarrow> int" where
  "MAX_SUPPORTED_AI_CHANNELS s = int (length (d_channel_settings s))"


definition convert_to_aichan_idx :: "string \<Rightarrow> digitizer_block \<Rightarrow> int outcome" where
  "convert_to_aichan_idx idstr s =
     (if length idstr \<noteq> 1 then Throw Invalid_argument s
      else let idx = toupper (char_value (idstr ! 0)) - 65
           in if idx < 0 \<or> MAX_SUPPORTED_AI_CHANNELS s < idx then Throw Invalid_argument s
              else Return idx s)"


definition set_aichan_trigger ::
  "string \<Rightarrow> trigger_direction_t \<Rightarrow> real \<Rightarrow> digitizer_block \<Rightarrow> unit outcome" where
  "set_aichan_trigger idstr direction threshold s =
     bind_outcome (convert_to_aichan_idx idstr s) (\<lambda>_ s.
       Return () (s\<lparr>d_trigger_settings := (d_trigger_settings s)
                       \<lparr>trg_source := Channel_source idstr,
                        trg_threshold := threshold,
                        trg_direction := direction,
                        trg_pin_number := 0\<rparr>\<rparr>))"




definition set_di_trigger :: "uint32_t \<Rightarrow> trigger_direction_t \<Rightarrow> digitizer_block \<Rightarrow> unit outcome" where
  "set_di_trigger pin direction s =
     Return () (s\<lparr>d_trigger_settings := (d_trigger_settings s)
                     \<lparr>trg_source := TRIGGER_DIGITAL_SOURCE,
                      trg_threshold := 0,
                      trg_direction := direction,
                      trg_pin_number := pin\<rparr>\<rparr>)"

definition disable_triggers :: "digitizer_block \<Rightarrow> unit outcome" where
  "disable_triggers s =
     Return () (s\<lparr>d_trigger_settings := (d_trigger_settings s)\<lparr>trg_source := TRIGGER_NONE_SOURCE\<rparr>\<rparr>)"


section \<open>Software trigger detection\<close>

text \<open>
  The four scanning loops of \<^verbatim>\<open>find_analog_triggers\<close> and \<^verbatim>\<open>find_digital_triggers\<close>.
  \<open>i\<close> is the loop index, the list holds \<^verbatim>\<open>samples[i..nsamples-1]\<close>, \<open>st\<close> is
  \<^verbatim>\<open>d_trigger_state\<close>; the result is the offsets pushed, in order, and the final state.
\<close>

fun analog_rising_loop :: "real \<Rightarrow> real \<Rightarrow> nat \<Rightarrow> real list \<Rightarrow> int \<Rightarrow> nat list \<times> int" where
  "analog_rising_loop threshold lo i [] st = ([], st)"
| "analog_rising_loop threshold lo i (x # xs) st =
     (if st = 0 \<and> threshold \<le> x
      then (case analog_rising_loop threshold lo (Suc i) xs 1 of (offs, st') \<Rightarrow> (i # offs, st'))
      else if st \<noteq> 0 \<and> x \<le> lo then analog_rising_loop threshold lo (Suc i) xs 0
      else analog_rising_loop threshold lo (Suc i) xs st)"

fun analog_falling_loop :: "real \<Rightarrow> real \<Rightarrow> nat \<Rightarrow> real list \<Rightarrow> int \<Rightarrow> nat list \<times> int" where
  "analog_falling_loop threshold hi i [] st = ([], st)"
| "analog_falling_loop threshold hi i (x # xs) st =
     (if st \<noteq> 0 \<and> x \<le> threshold
      then (case analog_falling_loop threshold hi (Suc i) xs 0 of (offs, st') \<Rightarrow> (i # offs, st'))
      else if st = 0 \<and> hi \<le> x then analog_falling_loop threshold hi (Suc i) xs 1
      else analog_falling_loop threshold hi (Suc i) xs st)"

fun digital_rising_loop :: "uint8_t \<Rightarrow> nat \<Rightarrow> uint8_t list \<Rightarrow> int \<Rightarrow> nat list \<times> int" where
  "digital_rising_loop msk i [] st = ([], st)"
| "digital_rising_loop msk i (x # xs) st =
     (if st = 0 \<and> x AND msk \<noteq> 0
      then (case digital_rising_loop msk (Suc i) xs 1 of (offs, st') \<Rightarrow> (i # offs, st'))
      else if st \<noteq> 0 \<and> x AND msk = 0 then digital_rising_loop msk (Suc i) xs 0
      else digital_rising_loop msk (Suc i) xs st)"

fun digital_falling_loop :: "uint8_t \<Rightarrow> nat \<Rightarrow> uint8_t list \<Rightarrow> int \<Rightarrow> nat list \<times> int" where
  "digital_falling_loop msk i [] st = ([], st)"
| "digital_falling_loop msk i (x # xs) st =
     (if st \<noteq> 0 \<and> x AND msk = 0
      then (case digital_falling_loop msk (Suc i) xs 0 of (offs, st') \<Rightarrow> (i # offs, st'))
      else if st = 0 \<and> x AND msk \<noteq> 0 then digital_falling_loop msk (Suc i) xs 1
      else digital_falling_loop msk (Suc i) xs st)"

text \<open>
  The narrowing of a \<^verbatim>\<open>double\<close> to \<^verbatim>\<open>float\<close>, on the values. IEEE 754 binary32 has 24
  significant bits and least exponent -126: its numbers are the multiples of
  \<^verbatim>\<open>2^(e-23)\<close> in each binade from \<^verbatim>\<open>2^e\<close> to \<^verbatim>\<open>2^(e+1)\<close>, and the multiples of
  \<^verbatim>\<open>2^-149\<close> below \<^verbatim>\<open>2^-126\<close>. The conversion rounds to the nearest of them, a tie to
  the one with even significand. \<open>bit_length k\<close> is the number of binary digits of \<open>k\<close>.
  (A double beyond the largest float becomes an infinity, which the reals do not have;
  the function is meant for arguments of magnitude below \<^verbatim>\<open>2^128\<close>.)
\<close>

function bit_length :: "int \<Rightarrow> nat" where
  "bit_length k = (if k \<le> 0 then 0 else Suc (bit_length (k div 2)))"
  by auto
termination
  by (relation "measure nat") auto

declare bit_length.simps [simp del]

definition round_half_even :: "real \<Rightarrow> int" where
  "round_half_even x =
     (let f = \<lfloor>x\<rfloor>; d = x - of_int f
      in if d < 1 / 2 then f else if 1 / 2 < d then f + 1 else if even f then f else f + 1)"

definition static_cast_float :: "real \<Rightarrow> real" where
  "static_cast_float x =
     (let y = \<bar>x\<bar> * 2 ^ 149;
          u = 2 ^ (bit_length \<lfloor>y\<rfloor> - 24)
      in sgn x * of_int (round_half_even (y / u)) * u / 2 ^ 149)"

text \<open>
  The hysteresis levels of the analog detector. \<open>to_float\<close> is the narrowing of the
  (double precision) result to \<^verbatim>\<open>float\<close>, which is \<open>static_cast_float\<close>; the scanning
  code is kept independent of it:
  \<^verbatim>\<open>float band = actual_range / 100.0; float lo = static_cast<float>(threshold - band);\<close>
\<close>

definition analog_band :: "(real \<Rightarrow> real) \<Rightarrow> digitizer_block \<Rightarrow> nat \<Rightarrow> real" where
  "analog_band to_float s aichan = to_float (ch_actual_range (d_channel_settings s ! aichan) / 100)"

definition analog_lo :: "(real \<Rightarrow> real) \<Rightarrow> digitizer_block \<Rightarrow> nat \<Rightarrow> real" where
  "analog_lo to_float s aichan =
     to_float (trg_threshold (d_trigger_settings s) - analog_band to_float s aichan)"

definition analog_hi :: "(real \<Rightarrow> real) \<Rightarrow> digitizer_block \<Rightarrow> nat \<Rightarrow> real" where
  "analog_hi to_float s aichan =
     to_float (trg_threshold (d_trigger_settings s) + analog_band to_float s aichan)"

definition rising_or_high :: "trigger_direction_t \<Rightarrow> bool" where
  "rising_or_high d = (d = TRIGGER_DIRECTION_RISING \<or> d = TRIGGER_DIRECTION_HIGH)"

definition falling_or_low :: "trigger_direction_t \<Rightarrow> bool" where
  "falling_or_low d = (d = TRIGGER_DIRECTION_FALLING \<or> d = TRIGGER_DIRECTION_LOW)"

text \<open>
  \<open>samples\<close> is the memory behind the pointer; reading \<open>nsamples\<close> elements from a
  shorter buffer is undefined behaviour. The two \<^verbatim>\<open>assert\<close>s fail as such.
\<close>

definition find_analog_triggers ::
  "(real \<Rightarrow> real) \<Rightarrow> real list \<Rightarrow> int \<Rightarrow> digitizer_block \<Rightarrow> nat list outcome" where
  "find_analog_triggers to_float samples nsamples s =
     (if nsamples < 0 then Throw Assertion_failed s
      else if \<not> is_enabled (d_trigger_settings s) \<or> nsamples = 0 then Return [] s
      else if \<not> is_analog (d_trigger_settings s) then Throw Assertion_failed s
      else case trg_source (d_trigger_settings s) of
             Channel_source idstr \<Rightarrow>
               bind_outcome (convert_to_aichan_idx idstr s) (\<lambda>aichan s.
                 if \<not> nat aichan < length (d_channel_settings s) then Throw Undefined_behaviour s
                 else if length samples < nat nsamples then Throw Undefined_behaviour s
                 else if rising_or_high (trg_direction (d_trigger_settings s))
                 then (case analog_rising_loop (trg_threshold (d_trigger_settings s))
                              (analog_lo to_float s (nat aichan)) 0
                              (take (nat nsamples) samples) (d_trigger_state s) of
                         (trigger_offsets, st) \<Rightarrow> Return trigger_offsets (s\<lparr>d_trigger_state := st\<rparr>))
                 else if falling_or_low (trg_direction (d_trigger_settings s))
                 then (case analog_falling_loop (trg_threshold (d_trigger_settings s))
                              (analog_hi to_float s (nat aichan)) 0
                              (take (nat nsamples) samples) (d_trigger_state s) of
                         (trigger_offsets, st) \<Rightarrow> Return trigger_offsets (s\<lparr>d_trigger_state := st\<rparr>))
                 else Return [] s)
           | _ \<Rightarrow> Throw Assertion_failed s)"

definition find_digital_triggers ::
  "uint8_t list \<Rightarrow> int \<Rightarrow> uint8_t \<Rightarrow> digitizer_block \<Rightarrow> nat list outcome" where
  "find_digital_triggers samples nsamples msk s =
     (if length samples < nat nsamples then Throw Undefined_behaviour s
      else if rising_or_high (trg_direction (d_trigger_settings s))
      then (case digital_rising_loop msk 0 (take (nat nsamples) samples) (d_trigger_state s) of
              (trigger_offsets, st) \<Rightarrow> Return trigger_offsets (s\<lparr>d_trigger_state := st\<rparr>))
      else if falling_or_low (trg_direction (d_trigger_settings s))
      then (case digital_falling_loop msk 0 (take (nat nsamples) samples) (d_trigger_state s) of
              (trigger_offsets, st) \<Rightarrow> Return trigger_offsets (s\<lparr>d_trigger_state := st\<rparr>))
      else Return [] s)"


section \<open>Arming and the worker\<close>

text \<open>
  What one call of \<^verbatim>\<open>work\<close> obtains from its collaborators: the code returned by the
  wait for data, the codes returned by the driver, the status words written by the
  driver and by the application buffer, the scheduler's \<^verbatim>\<open>nitems_written(0)\<close>, the
  clock (indexed by the loop position of the call) and the output buffers as they are
  once the samples have been copied into them.
\<close>

datatype out_buffer = Float_buffer "real list" | Byte_buffer "uint8_t list"

record work_env =
  env_to_float :: "real \<Rightarrow> real"
  wait_data_ready_ec :: error_code
  driver_arm_ec :: error_code
  driver_disarm_ec :: error_code
  driver_prefetch_block_ec :: error_code
  driver_get_rapid_block_data_ec :: error_code
  driver_status :: "uint32_t list"
  chunk_channel_status :: "uint32_t list"
  nitems_written_0 :: uint64_t
  timestamp_utc_ns :: "nat \<Rightarrow> int"
  output_items :: "out_buffer list"

text \<open>
  \<^verbatim>\<open>transit_poll_thread_to_idle\<close> requests PEND_IDLE and waits until the poller thread
  has acknowledged with IDLE; the state after the wait is what the model keeps.
\<close>

definition transit_poll_thread_to_idle :: "digitizer_block \<Rightarrow> digitizer_block" where
  "transit_poll_thread_to_idle s =
     (if d_poller_state s = EXIT then s else s\<lparr>d_poller_state := IDLE\<rparr>)"

definition transit_poll_thread_to_running :: "digitizer_block \<Rightarrow> digitizer_block" where
  "transit_poll_thread_to_running s = s\<lparr>d_poller_state := RUNNING\<rparr>"

definition count_enabled_channels :: "digitizer_block \<Rightarrow> nat" where
  "count_enabled_channels s =
     length (filter ch_enabled (take (nat (d_ai_channels s)) (d_channel_settings s)))"

definition count_enabled_ports :: "digitizer_block \<Rightarrow> nat" where
  "count_enabled_ports s =
     length (filter port_enabled (take (nat (d_ports s)) (d_port_settings s)))"

definition arm :: "work_env \<Rightarrow> digitizer_block \<Rightarrow> unit outcome" where
  "arm env s =
     (if d_armed s then Return () s
      else let s1 = s\<lparr>d_estimated_sample_rate := env_to_float env (get_samp_rate s)\<rparr>;
               s2 = s1\<lparr>driver_trace := driver_trace s1 @ [Driver_arm]\<rparr>;
               ec = driver_arm_ec env
           in if ec_set ec then Throw Runtime_error (add_error_code ec s2)
              else let s3 = s2\<lparr>d_armed := True,
                               d_timebase_published := False,
                               d_was_last_callback_timestamp_taken := False,
                               d_app_buffer_errc := No_error\<rparr>;
                       s4 = (if d_acquisition_mode s3 = STREAMING
                             then transit_poll_thread_to_running s3 else s3)
                   in if length (d_channel_settings s4) < nat (d_ai_channels s4)
                         \<or> length (d_port_settings s4) < nat (d_ports s4)
                      then Throw Undefined_behaviour s4
                      else Return () (s4\<lparr>ai_buffers_size := count_enabled_channels s4,
                                          ai_error_buffers_size := count_enabled_channels s4,
                                          port_buffers_size := count_enabled_ports s4\<rparr>))"

definition disarm :: "work_env \<Rightarrow> digitizer_block \<Rightarrow> unit outcome" where
  "disarm env s =
     (if \<not> d_armed s then Return () s
      else let s1 = (if d_acquisition_mode s = STREAMING
                     then transit_poll_thread_to_idle s else s);
               s2 = s1\<lparr>driver_trace := driver_trace s1 @ [Driver_disarm]\<rparr>;
               ec = driver_disarm_ec env;
               s3 = (if ec_set ec then add_error_code ec s2 else s2)
           in Return () (s3\<lparr>d_armed := False\<rparr>))"

definition clear_data_ready :: "digitizer_block \<Rightarrow> digitizer_block" where
  "clear_data_ready s = s\<lparr>d_data_rdy := False, d_data_rdy_errc := No_error\<rparr>"

subsection \<open>Streaming\<close>

text \<open>
  The two loops that hand the output slots to the application buffer. Every channel
  owns two slots and every port one, enabled or not; the result is the running
  \<^verbatim>\<open>output_items_idx\<close>.
\<close>

fun wire_ai_buffers :: "work_env \<Rightarrow> nat list \<Rightarrow> nat \<Rightarrow> nat \<Rightarrow> digitizer_block \<Rightarrow> nat outcome" where
  "wire_ai_buffers env [] output_items_idx buff_idx s = Return output_items_idx s"
| "wire_ai_buffers env (i # is) output_items_idx buff_idx s =
     (if \<not> i < length (d_channel_settings s) then Throw Undefined_behaviour s
      else if ch_enabled (d_channel_settings s ! i)
      then (if Suc output_items_idx < length (output_items env)
               \<and> buff_idx < ai_buffers_size s \<and> buff_idx < ai_error_buffers_size s
            then wire_ai_buffers env is (output_items_idx + 2) (Suc buff_idx) s
            else Throw Undefined_behaviour s)
      else wire_ai_buffers env is (output_items_idx + 2) buff_idx s)"

fun wire_port_buffers :: "work_env \<Rightarrow> nat list \<Rightarrow> nat \<Rightarrow> nat \<Rightarrow> digitizer_block \<Rightarrow> nat outcome" where
  "wire_port_buffers env [] output_items_idx port_idx s = Return output_items_idx s"
| "wire_port_buffers env (i # is) output_items_idx port_idx s =
     (if \<not> i < length (d_port_settings s) then Throw Undefined_behaviour s
      else if port_enabled (d_port_settings s ! i)
      then (if output_items_idx < length (output_items env) \<and> port_idx < port_buffers_size s
            then wire_port_buffers env is (Suc output_items_idx) (Suc port_idx) s
            else Throw Undefined_behaviour s)
      else wire_port_buffers env is (Suc output_items_idx) port_idx s)"

text \<open>
  Tagging loops. In these the output index advances for enabled channels and ports
  only. \<^verbatim>\<open>channel_status.at(i)\<close> throws \<^verbatim>\<open>std::out_of_range\<close> past the end.
\<close>

fun attach_acq_info_tags ::
  "acq_info_t \<Rightarrow> uint32_t list \<Rightarrow> nat list \<Rightarrow> nat \<Rightarrow> digitizer_block \<Rightarrow> nat outcome" where
  "attach_acq_info_tags tag_info channel_status [] output_idx s = Return output_idx s"
| "attach_acq_info_tags tag_info channel_status (i # is) output_idx s =
     (if \<not> i < length (d_channel_settings s) then Throw Undefined_behaviour s
      else if ch_enabled (d_channel_settings s ! i)
      then (if \<not> i < length channel_status then Throw Out_of_range s
            else attach_acq_info_tags tag_info channel_status is (output_idx + 2)
                   (add_item_tag output_idx
                      (make_acq_info_tag (tag_info\<lparr>acq_status := channel_status ! i\<rparr>)) s))
      else attach_acq_info_tags tag_info channel_status is output_idx s)"

fun attach_channel_tags :: "tag_t \<Rightarrow> nat list \<Rightarrow> nat \<Rightarrow> digitizer_block \<Rightarrow> nat outcome" where
  "attach_channel_tags tag [] output_idx s = Return output_idx s"
| "attach_channel_tags tag (i # is) output_idx s =
     (if \<not> i < length (d_channel_settings s) then Throw Undefined_behaviour s
      else if ch_enabled (d_channel_settings s ! i)
      then attach_channel_tags tag is (output_idx + 2) (add_item_tag output_idx tag s)
      else attach_channel_tags tag is output_idx s)"

fun attach_port_tags :: "tag_t \<Rightarrow> nat list \<Rightarrow> nat \<Rightarrow> digitizer_block \<Rightarrow> nat outcome" where
  "attach_port_tags tag [] output_idx s = Return output_idx s"
| "attach_port_tags tag (i # is) output_idx s =
     (if \<not> i < length (d_port_settings s) then Throw Undefined_behaviour s
      else if port_enabled (d_port_settings s ! i)
      then attach_port_tags tag is (Suc output_idx) (add_item_tag output_idx tag s)
      else attach_port_tags tag is output_idx s)"

fun attach_trigger_tags :: "work_env \<Rightarrow> nat list \<Rightarrow> digitizer_block \<Rightarrow> unit outcome" where
  "attach_trigger_tags env [] s = Return () s"
| "attach_trigger_tags env (trigger_offset # rest) s =
     (let trigger_tag = make_trigger_tag\<lparr>tag_offset := nitems_written_0 env + of_nat trigger_offset\<rparr>
      in bind_outcome (attach_channel_tags trigger_tag [0..<nat (d_ai_channels s)] 0 s)
           (\<lambda>output_idx s.
              bind_outcome (attach_port_tags trigger_tag [0..<nat (d_ports s)] output_idx s)
                (\<lambda>_ s. attach_trigger_tags env rest s)))"

text \<open>
  The software trigger of the streaming path. The analog source is looked for at twice
  the number of enabled channels before it; the digital one at
  \<^verbatim>\<open>output_items.size() - d_ports + port\<close>.
\<close>

definition detect_stream_triggers :: "work_env \<Rightarrow> digitizer_block \<Rightarrow> nat list outcome" where
  "detect_stream_triggers env s =
     (if is_analog (d_trigger_settings s)
      then (case trg_source (d_trigger_settings s) of
              Channel_source idstr \<Rightarrow>
                bind_outcome (convert_to_aichan_idx idstr s) (\<lambda>aichan s.
                  let output_idx =
                        2 * length (filter ch_enabled (take (nat aichan) (d_channel_settings s)))
                  in if \<not> output_idx < length (output_items env) then Throw Undefined_behaviour s
                     else case output_items env ! output_idx of
                            Float_buffer buffer \<Rightarrow>
                              find_analog_triggers (env_to_float env) buffer
                                (sint (d_buffer_size s)) s
                          | Byte_buffer _ \<Rightarrow> Throw Undefined_behaviour s)
            | _ \<Rightarrow> Throw Assertion_failed s)
      else if is_digital (d_trigger_settings s)
      then (let port = trg_pin_number (d_trigger_settings s) div 8;
                pin = trg_pin_number (d_trigger_settings s) mod 8;
                msk = (push_bit (unat pin) 1 :: int32_t);
                idx = int (length (output_items env)) - d_ports s + uint port
            in if idx < 0 \<or> int (length (output_items env)) \<le> idx then Throw Undefined_behaviour s
               else case output_items env ! nat idx of
                      Byte_buffer buffer \<Rightarrow>
                        find_digital_triggers buffer (sint (d_buffer_size s)) (ucast msk) s
                    | Float_buffer _ \<Rightarrow> Throw Undefined_behaviour s)
      else Return [] s)"

definition stream_tag_info :: "work_env \<Rightarrow> digitizer_block \<Rightarrow> acq_info_t" where
  "stream_tag_info env s =
     \<lparr>acq_timestamp = timestamp_utc_ns env 0,
      acq_timebase = get_timebase_with_downsampling s,
      acq_user_delay = 0,
      acq_actual_delay = 0,
      acq_samples = d_buffer_size s,
      acq_offset = nitems_written_0 env,
      acq_triggered_data = False,
      acq_trigger_timestamp = - 1,
      acq_status = 0\<rparr>"

definition work_stream :: "work_env \<Rightarrow> int32_t \<Rightarrow> digitizer_block \<Rightarrow> int32_t outcome" where
  "work_stream env noutput_items s =
     (if sint noutput_items < sint (d_buffer_size s) then Throw Assertion_failed s
      else
        let ec = wait_data_ready_ec env;
            s1 = (if ec_set ec then add_error_code ec s else s)
        in if ec = Block_errc Stopped then Return (- 1) s1
           else if ec = Block_errc Watchdog
           then bind_outcome (disarm env s1) (\<lambda>_ s.
                  bind_outcome (arm env s) (\<lambda>_ s. Return 0 s))
           else if ec_set ec then Return (- 1) s1
           else
             bind_outcome (wire_ai_buffers env [0..<nat (d_ai_channels s1)] 0 0 s1)
               (\<lambda>output_items_idx s.
             bind_outcome (wire_port_buffers env [0..<nat (d_ports s)] output_items_idx 0 s)
               (\<lambda>_ s.
             bind_outcome (attach_acq_info_tags (stream_tag_info env s) (chunk_channel_status env)
                             [0..<nat (d_ai_channels s)] 0 s)
               (\<lambda>output_idx s.
             bind_outcome (attach_port_tags (make_acq_info_tag (stream_tag_info env s))
                             [0..<nat (d_ports s)] output_idx s)
               (\<lambda>_ s.
             bind_outcome (detect_stream_triggers env s)
               (\<lambda>trigger_offsets s.
             bind_outcome (attach_trigger_tags env trigger_offsets s)
               (\<lambda>_ s. Return (d_buffer_size s) s)))))))"

subsection \<open>Rapid block\<close>

text \<open>
  The tagging loops of READING_PART1 stop at the end of \<^verbatim>\<open>output_items\<close>; every
  enabled slot gets the tag with the waveform data and the bare trigger tag
  \<open>ttag\<close>.
\<close>

definition rapid_trigger_tag :: "work_env \<Rightarrow> digitizer_block \<Rightarrow> uint32_t \<Rightarrow> nat \<Rightarrow> tag_t" where
  "rapid_trigger_tag env s status k =
     (make_trigger_tag_info
        (get_pre_trigger_samples_with_downsampling s)
        (get_post_trigger_samples_with_downsampling s)
        status
        (get_timebase_with_downsampling s)
        (timestamp_utc_ns env k))\<lparr>tag_offset := nitems_written_0 env\<rparr>"

fun rapid_channel_tags ::
  "work_env \<Rightarrow> tag_t \<Rightarrow> nat list \<Rightarrow> nat \<Rightarrow> digitizer_block \<Rightarrow> nat outcome" where
  "rapid_channel_tags env ttag [] vec_idx s = Return vec_idx s"
| "rapid_channel_tags env ttag (i # is) vec_idx s =
     (if \<not> vec_idx < length (output_items env) then Return vec_idx s
      else if \<not> i < length (d_channel_settings s) then Throw Undefined_behaviour s
      else if \<not> ch_enabled (d_channel_settings s ! i)
      then rapid_channel_tags env ttag is (vec_idx + 2) s
      else if \<not> i < length (d_status s) then Throw Undefined_behaviour s
      else rapid_channel_tags env ttag is (vec_idx + 2)
             (add_item_tag vec_idx ttag
                (add_item_tag vec_idx (rapid_trigger_tag env s (d_status s ! i) i) s)))"

fun rapid_port_tags ::
  "work_env \<Rightarrow> tag_t \<Rightarrow> tag_t \<Rightarrow> nat list \<Rightarrow> nat \<Rightarrow> digitizer_block \<Rightarrow> nat outcome" where
  "rapid_port_tags env trigger_tag ttag [] vec_idx s = Return vec_idx s"
| "rapid_port_tags env trigger_tag ttag (i # is) vec_idx s =
     (if \<not> vec_idx < length (output_items env) then Return vec_idx s
      else if \<not> i < length (d_port_settings s) then Throw Undefined_behaviour s
      else if \<not> port_enabled (d_port_settings s ! i)
      then rapid_port_tags env trigger_tag ttag is (Suc vec_idx) s
      else rapid_port_tags env trigger_tag ttag is (Suc vec_idx)
             (add_item_tag vec_idx ttag (add_item_tag vec_idx trigger_tag s)))"

definition int_min :: "int32_t \<Rightarrow> int32_t \<Rightarrow> int32_t" where
  "int_min a b = (if sint b < sint a then b else a)"

definition driver_get_rapid_block_data :: "work_env \<Rightarrow> int32_t \<Rightarrow> digitizer_block \<Rightarrow> digitizer_block" where
  "driver_get_rapid_block_data env noutput_items s =
     s\<lparr>driver_trace := driver_trace s @
          [Driver_get_rapid_block_data (offset (d_bstate s)) noutput_items
             (waveform_idx (d_bstate s))],
       d_status := driver_status env\<rparr>"

text \<open>
  The WAITING branch; \<open>Some r\<close> is an early \<^verbatim>\<open>return r\<close>. \<^verbatim>\<open>catch (...)\<close> around
  \<^verbatim>\<open>arm()\<close> turns its exception into \<^verbatim>\<open>return -1\<close>.
\<close>

definition rapid_block_waiting :: "work_env \<Rightarrow> digitizer_block \<Rightarrow> int32_t option outcome" where
  "rapid_block_waiting env s =
     (if d_trigger_once s \<and> d_was_triggered_once s then Return (Some (- 1)) s
      else
        bind_outcome
          (if d_auto_arm s
           then bind_outcome (disarm env s) (\<lambda>_ s.
                  case arm env s of
                    Return _ s' \<Rightarrow> Return None s'
                  | Throw e s' \<Rightarrow>
                      if e = Assertion_failed \<or> e = Undefined_behaviour then Throw e s'
                      else Return (Some (- 1)) s')
           else Return None s)
          (\<lambda>early s.
             case early of
               Some r \<Rightarrow> Return (Some r) s
             | None \<Rightarrow>
                 let ec = wait_data_ready_ec env;
                     s1 = clear_data_ready s
                 in if ec = Block_errc Stopped then Return (Some (- 1)) s1
                    else if ec_set ec then Return (Some 0) s1
                    else Return None
                           (s1\<lparr>d_bstate := initialize_bstate (d_nr_captures s1) (d_bstate s1)\<rparr>)))"

definition rapid_block_part1 :: "work_env \<Rightarrow> int32_t \<Rightarrow> digitizer_block \<Rightarrow> int32_t outcome" where
  "rapid_block_part1 env noutput_items s =
     (let s1 = s\<lparr>d_was_triggered_once := True\<rparr>;
          samples_to_fetch = get_block_size s1;
          downsampled_samples = get_block_size_with_downsampling s1;
          s2 = s1\<lparr>driver_trace := driver_trace s1 @
                    [Driver_prefetch_block samples_to_fetch (waveform_idx (d_bstate s1))]\<rparr>
      in if ec_set (driver_prefetch_block_ec env)
         then Return (- 1) (add_error_code (driver_prefetch_block_ec env) s2)
         else
           let s3 = s2\<lparr>d_bstate := set_waveform_params 0 downsampled_samples (d_bstate s2)\<rparr>;
               noutput_items = int_min noutput_items (samples_left (d_bstate s3));
               s4 = driver_get_rapid_block_data env noutput_items s3
           in if ec_set (driver_get_rapid_block_data_ec env)
              then Return (- 1) (add_error_code (driver_get_rapid_block_data_ec env) s4)
              else
                let ttag = make_trigger_tag\<lparr>tag_offset := nitems_written_0 env
                             + ucast (get_pre_trigger_samples_with_downsampling s4)\<rparr>
                in bind_outcome
                     (rapid_channel_tags env ttag [0..<nat (d_ai_channels s4)] 0 s4)
                     (\<lambda>vec_idx s.
                        bind_outcome
                          (rapid_port_tags env
                             (rapid_trigger_tag env s 0 (nat (d_ai_channels s))) ttag
                             [0..<nat (d_ports s)] vec_idx s)
                          (\<lambda>_ s. Return noutput_items
                                    (s\<lparr>d_bstate := update_state noutput_items (d_bstate s)\<rparr>))))"

definition rapid_block_the_rest :: "work_env \<Rightarrow> int32_t \<Rightarrow> digitizer_block \<Rightarrow> int32_t outcome" where
  "rapid_block_the_rest env noutput_items s =
     (let noutput_items = int_min noutput_items (samples_left (d_bstate s));
          s1 = driver_get_rapid_block_data env noutput_items s
      in if ec_set (driver_get_rapid_block_data_ec env)
         then Return (- 1) (add_error_code (driver_get_rapid_block_data_ec env) s1)
         else Return noutput_items (s1\<lparr>d_bstate := update_state noutput_items (d_bstate s1)\<rparr>))"

definition work_rapid_block :: "work_env \<Rightarrow> int32_t \<Rightarrow> digitizer_block \<Rightarrow> int32_t outcome" where
  "work_rapid_block env noutput_items s =
     bind_outcome
       (if state (d_bstate s) = WAITING then rapid_block_waiting env s else Return None s)
       (\<lambda>early s.
          case early of
            Some r \<Rightarrow> Return r s
          | None \<Rightarrow>
              if state (d_bstate s) = READING_PART1 then rapid_block_part1 env noutput_items s
              else if state (d_bstate s) = READING_THE_REST
              then rapid_block_the_rest env noutput_items s
              else Return (- 1) s)"

subsection \<open>The scheduler's entry point\<close>

definition publish_timebase :: "work_env \<Rightarrow> digitizer_block \<Rightarrow> digitizer_block" where
  "publish_timebase env s =
     (let timebase_tag = (make_timebase_info_tag (get_timebase_with_downsampling s))
                           \<lparr>tag_offset := nitems_written_0 env\<rparr>
      in (fold (\<lambda>i. add_item_tag i timebase_tag) [0..<length (output_items env)] s)
           \<lparr>d_timebase_published := True\<rparr>)"

definition work :: "work_env \<Rightarrow> int32_t \<Rightarrow> digitizer_block \<Rightarrow> int32_t outcome" where
  "work env noutput_items s =
     bind_outcome
       (case d_acquisition_mode s of
          STREAMING \<Rightarrow> work_stream env noutput_items s
        | RAPID_BLOCK \<Rightarrow> work_rapid_block env noutput_items s)
       (\<lambda>retval s.
          if 0 < sint retval \<and> \<not> d_timebase_published s
          then Return retval (publish_timebase env s)
          else Return retval s)"


section \<open>Concrete blocks used as test inputs\<close>

definition default_channel_setting :: channel_setting_t where
  "default_channel_setting =
     \<lparr>ch_range = 5, ch_actual_range = 5, ch_offset = 0, ch_enabled = False, ch_dc_coupled = True\<rparr>"

definition default_port_setting :: port_setting_t where
  "default_port_setting = \<lparr>port_logic_level = 1.5, port_enabled = False\<rparr>"

definition default_trigger_setting :: trigger_setting_t where
  "default_trigger_setting =
     \<lparr>trg_source = TRIGGER_NONE_SOURCE, trg_threshold = 0,
      trg_direction = TRIGGER_DIRECTION_RISING, trg_pin_number = 0\<rparr>"

definition initial_bstate :: rapid_block_state_t where
  "initial_bstate =
     \<lparr>state = WAITING, waveform_count = 0, waveform_idx = 0, offset = 0, samples_left = 0\<rparr>"

text \<open>A block with four analog channels and one digital port, as constructed.\<close>

definition test_block :: digitizer_block where
  "test_block =
     digitizer_block_impl 4 1 False (replicate 16 default_channel_setting)
       (replicate 8 default_port_setting) default_trigger_setting initial_bstate"

text \<open>
  The same block after \<^verbatim>\<open>set_di_trigger(3, TRIGGER_DIRECTION_RISING)\<close>, with chunks of six
  samples.
\<close>

definition di_test_block :: digitizer_block where
  "di_test_block =
     (case set_di_trigger 3 TRIGGER_DIRECTION_RISING test_block of
        Return _ s \<Rightarrow> s\<lparr>d_buffer_size := 6\<rparr>
      | Throw _ s \<Rightarrow> s)"

text \<open>Collaborators that report no error, identity rounding, and eight empty outputs.\<close>

definition test_env :: work_env where
  "test_env =
     \<lparr>env_to_float = (\<lambda>x. x),
      wait_data_ready_ec = No_error,
      driver_arm_ec = No_error,
      driver_disarm_ec = No_error,
      driver_prefetch_block_ec = No_error,
      driver_get_rapid_block_data_ec = No_error,
      driver_status = [0, 0, 0, 0],
      chunk_channel_status = [0, 0, 0, 0],
      nitems_written_0 = 0,
      timestamp_utc_ns = (\<lambda>_. 0),
      output_items = replicate 8 (Float_buffer []) @ [Byte_buffer []]\<rparr>"

text \<open>The constructed block after a successful \<^verbatim>\<open>arm()\<close>.\<close>

definition armed_test_block :: digitizer_block where
  "armed_test_block =
     test_block\<lparr>d_estimated_sample_rate := 10000,
                d_poller_state := RUNNING,
                d_armed := True,
                ai_buffers_size := 0,
                ai_error_buffers_size := 0,
                port_buffers_size := 0,
                driver_trace := [Driver_arm]\<rparr>"

section \<open>The configuration setters as one call type\<close>




text \<open>The constructed block after \<^verbatim>\<open>set_aichan_trigger("A", TRIGGER_DIRECTION_RISING, 1.0)\<close>.\<close>

definition ai_test_block :: digitizer_block where
  "ai_test_block =
     (case set_aichan_trigger ''A'' TRIGGER_DIRECTION_RISING 1 test_block of
        Return _ s \<Rightarrow> s
      | Throw _ s \<Rightarrow> s)"

text \<open>
  The constructed block after \<^verbatim>\<open>set_aichan_trigger("A", TRIGGER_DIRECTION_FALLING, 1.0)\<close>;
  channel A has the actual range 5, and the detector is in its reset state.
\<close>

definition falling_test_block :: digitizer_block where
  "falling_test_block =
     (case set_aichan_trigger ''A'' TRIGGER_DIRECTION_FALLING 1 test_block of
        Return _ s \<Rightarrow> s
      | Throw _ s \<Rightarrow> s)"

section \<open>Observations on a run of the worker\<close>

text \<open>The block an outcome carries, and the Timebase tags among the tags attached so far.\<close>

fun outcome_state :: "'a outcome \<Rightarrow> digitizer_block" where
  "outcome_state (Return v s) = s"
| "outcome_state (Throw e s) = s"

definition is_timebase_tag :: "nat \<times> tag_t \<Rightarrow> bool" where
  "is_timebase_tag p = (case tag_value (snd p) of Timebase_info_tag _ \<Rightarrow> True | _ \<Rightarrow> False)"

definition timebase_tags :: "digitizer_block \<Rightarrow> (nat \<times> tag_t) list" where
  "timebase_tags s = filter is_timebase_tag (gr_item_tags s)"

text \<open>How often the driver has been armed.\<close>

definition arm_count :: "digitizer_block \<Rightarrow> nat" where
  "arm_count s = length (filter (\<lambda>c. c = Driver_arm) (driver_trace s))"

text \<open>
  Relations between the block before and after a step of the worker. \<open>tags_only\<close>:
  only tags were attached, none of them a Timebase tag. \<open>same_config\<close>: the
  configuration the worker reads is untouched. \<open>worker_step\<close>: in addition no Timebase
  tag was attached, the driver was not armed less often, \<open>d_timebase_published\<close> was not
  set and was cleared at most if the driver was armed in between, and
  \<open>d_was_triggered_once\<close> was not cleared.
\<close>

definition tags_only :: "digitizer_block \<Rightarrow> digitizer_block \<Rightarrow> bool" where
  "tags_only s s' \<longleftrightarrow>
     (\<exists>tags. s' = s\<lparr>gr_item_tags := gr_item_tags s @ tags\<rparr>
           \<and> (\<forall>p \<in> set tags. \<not> is_timebase_tag p))"

definition same_config :: "digitizer_block \<Rightarrow> digitizer_block \<Rightarrow> bool" where
  "same_config s s' \<longleftrightarrow>
       d_buffer_size s' = d_buffer_size s
     \<and> d_acquisition_mode s' = d_acquisition_mode s
     \<and> d_nr_captures s' = d_nr_captures s
     \<and> d_trigger_once s' = d_trigger_once s
     \<and> d_auto_arm s' = d_auto_arm s
     \<and> d_ai_channels s' = d_ai_channels s
     \<and> d_ports s' = d_ports s
     \<and> d_channel_settings s' = d_channel_settings s
     \<and> d_port_settings s' = d_port_settings s
     \<and> d_trigger_settings s' = d_trigger_settings s
     \<and> d_samples s' = d_samples s
     \<and> d_pre_samples s' = d_pre_samples s
     \<and> d_downsampling_mode s' = d_downsampling_mode s
     \<and> d_downsampling_factor s' = d_downsampling_factor s
     \<and> d_actual_samp_rate s' = d_actual_samp_rate s"

definition worker_step :: "digitizer_block \<Rightarrow> digitizer_block \<Rightarrow> bool" where
  "worker_step s s' \<longleftrightarrow>
       same_config s s'
     \<and> timebase_tags s' = timebase_tags s
     \<and> arm_count s \<le> arm_count s'
     \<and> (d_timebase_published s' \<longrightarrow> d_timebase_published s)
     \<and> (d_timebase_published s \<and> arm_count s' = arm_count s \<longrightarrow> d_timebase_published s')
     \<and> (d_was_triggered_once s \<longrightarrow> d_was_triggered_once s')"

text \<open>A sequence of calls of \<^verbatim>\<open>work\<close>, each with what its collaborators supply.\<close>

fun work_calls :: "(work_env \<times> int32_t) list \<Rightarrow> digitizer_block \<Rightarrow> int32_t list outcome" where
  "work_calls [] s = Return [] s"
| "work_calls (c # cs) s =
     bind_outcome (work (fst c) (snd c) s) (\<lambda>retval s.
       bind_outcome (work_calls cs s) (\<lambda>retvals s. Return (retval # retvals) s))"

text \<open>The wait for data reports the watchdog; in the second environment the driver then fails to arm.\<close>

definition watchdog_env :: work_env where
  "watchdog_env = test_env\<lparr>wait_data_ready_ec := Block_errc Watchdog\<rparr>"

definition rearm_fails_env :: work_env where
  "rearm_fails_env = test_env\<lparr>wait_data_ready_ec := Block_errc Watchdog, driver_arm_ec := Driver_errc 5\<rparr>"




text \<open>
  How many waveforms the block has asked the driver to prefetch. A call of \<^verbatim>\<open>work\<close>
  begins a waveform when it returns having prefetched one, the driver reporting no
  error for the prefetch and for the first batch of samples; \<open>waveforms_begun\<close> counts
  such calls in a sequence of calls.
\<close>

fun is_prefetch :: "driver_call \<Rightarrow> bool" where
  "is_prefetch (Driver_prefetch_block n i) = True"
| "is_prefetch _ = False"

definition prefetch_count :: "digitizer_block \<Rightarrow> nat" where
  "prefetch_count s = length (filter is_prefetch (driver_trace s))"

definition begins_waveform :: "work_env \<Rightarrow> int32_t \<Rightarrow> digitizer_block \<Rightarrow> bool" where
  "begins_waveform env noutput_items s =
     (case work env noutput_items s of
        Return r s' \<Rightarrow>
          prefetch_count s < prefetch_count s'
        \<and> \<not> ec_set (driver_prefetch_block_ec env)
        \<and> \<not> ec_set (driver_get_rapid_block_data_ec env)
      | Throw e s' \<Rightarrow> False)"

fun waveforms_begun :: "(work_env \<times> int32_t) list \<Rightarrow> digitizer_block \<Rightarrow> nat" where
  "waveforms_begun [] s = 0"
| "waveforms_begun (c # cs) s =
     (case work (fst c) (snd c) s of
        Return r s' \<Rightarrow>
          (if begins_waveform (fst c) (snd c) s then 1 else 0) + waveforms_begun cs s'
      | Throw e s' \<Rightarrow> 0)"

text \<open>
  For a run with \<open>trigger_once\<close> set: what holds of the block between calls of
  \<^verbatim>\<open>work\<close>, and how many waveforms of the capture sequence can still be begun.
\<close>

definition capture_invariant :: "uint32_t \<Rightarrow> digitizer_block \<Rightarrow> bool" where
  "capture_invariant N s \<longleftrightarrow>
       d_acquisition_mode s = RAPID_BLOCK
     \<and> d_trigger_once s
     \<and> d_nr_captures s = N
     \<and> 1 \<le> sint N
     \<and> (state (d_bstate s) \<noteq> WAITING \<longrightarrow>
           waveform_count (d_bstate s) = N
         \<and> 0 \<le> sint (waveform_idx (d_bstate s))
         \<and> sint (waveform_idx (d_bstate s)) < sint N
         \<and> d_was_triggered_once s)"

definition waveforms_left :: "uint32_t \<Rightarrow> digitizer_block \<Rightarrow> nat" where
  "waveforms_left N s =
     (case state (d_bstate s) of
        WAITING \<Rightarrow> (if d_was_triggered_once s then 0 else nat (sint N))
      | READING_PART1 \<Rightarrow> nat (sint N - sint (waveform_idx (d_bstate s)))
      | READING_THE_REST \<Rightarrow> nat (sint N - sint (waveform_idx (d_bstate s)) - 1))"

text \<open>
  The constructed block after \<^verbatim>\<open>set_rapid_block(2)\<close>, \<^verbatim>\<open>set_samples(1, 0)\<close> and
  \<^verbatim>\<open>set_trigger_once(true)\<close>: two captures of one sample each.
\<close>

definition rapid_test_block :: digitizer_block where
  "rapid_test_block =
     outcome_state
       (bind_outcome (set_rapid_block 2 test_block) (\<lambda>_ s.
          bind_outcome (set_samples 1 0 s) (\<lambda>_ s. set_trigger_once True s)))"

text \<open>
  For the progress of a capture sequence. A call is free of errors when the wait for
  data, the arming and the driver report none and the scheduler offers at least one
  output item. The settings arrays hold every channel and port of the block (what the
  constructor asserts). A waveform of \<open>n\<close> samples takes at most \<open>max 1 n\<close> calls, each
  reading at least one sample; \<open>calls_left\<close> bounds the calls until the sequence is
  over. While a waveform is being continued, samples of it are left.
\<close>

definition error_free_call :: "work_env \<times> int32_t \<Rightarrow> bool" where
  "error_free_call c \<longleftrightarrow>
       \<not> ec_set (wait_data_ready_ec (fst c))
     \<and> \<not> ec_set (driver_arm_ec (fst c))
     \<and> \<not> ec_set (driver_prefetch_block_ec (fst c))
     \<and> \<not> ec_set (driver_get_rapid_block_data_ec (fst c))
     \<and> 1 \<le> sint (snd c)"

definition calls_per_waveform :: "digitizer_block \<Rightarrow> nat" where
  "calls_per_waveform s = max 1 (nat (sint (get_block_size_with_downsampling s)))"

definition calls_left :: "uint32_t \<Rightarrow> digitizer_block \<Rightarrow> nat" where
  "calls_left N s =
     (case state (d_bstate s) of
        WAITING \<Rightarrow> (if d_was_triggered_once s then 0 else nat (sint N) * calls_per_waveform s)
      | READING_PART1 \<Rightarrow>
          nat (sint N - sint (waveform_idx (d_bstate s))) * calls_per_waveform s
      | READING_THE_REST \<Rightarrow>
          nat (sint N - sint (waveform_idx (d_bstate s)) - 1) * calls_per_waveform s
            + nat (sint (samples_left (d_bstate s))))"

definition samples_pending :: "digitizer_block \<Rightarrow> bool" where
  "samples_pending s \<longleftrightarrow>
     (state (d_bstate s) = READING_THE_REST \<longrightarrow> 0 < sint (samples_left (d_bstate s)))"

definition channels_fit :: "digitizer_block \<Rightarrow> bool" where
  "channels_fit s \<longleftrightarrow>
       nat (d_ai_channels s) \<le> length (d_channel_settings s)
     \<and> nat (d_ports s) \<le> length (d_port_settings s)"

text \<open>
  The constructed block after \<^verbatim>\<open>set_rapid_block(2)\<close>, \<^verbatim>\<open>set_samples(2, 1)\<close> and
  \<^verbatim>\<open>set_trigger_once(true)\<close>: two captures of three samples each.
\<close>

definition rapid_long_block :: digitizer_block where
  "rapid_long_block =
     outcome_state
       (bind_outcome (set_rapid_block 2 test_block) (\<lambda>_ s.
          bind_outcome (set_samples 2 1 s) (\<lambda>_ s. set_trigger_once True s)))"

text \<open>That block after the first and after the second call of \<^verbatim>\<open>work\<close> with one output item.\<close>

definition rapid_after_first :: digitizer_block where
  "rapid_after_first =
     rapid_test_block\<lparr>d_was_triggered_once := True,
        driver_trace := [Driver_prefetch_block 1 0, Driver_get_rapid_block_data 0 1 0],
        d_status := [0, 0, 0, 0],
        d_bstate := \<lparr>state = READING_PART1, waveform_count = 2, waveform_idx = 1,
                     offset = 1, samples_left = 0\<rparr>,
        gr_item_tags :=
          map (\<lambda>i. (i, \<lparr>tag_offset = 0, tag_value = Timebase_info_tag (1 / 10000)\<rparr>)) [0..<9],
        d_timebase_published := True\<rparr>"

definition rapid_after_second :: digitizer_block where
  "rapid_after_second =
     rapid_after_first\<lparr>
        driver_trace := [Driver_prefetch_block 1 0, Driver_get_rapid_block_data 0 1 0,
                         Driver_prefetch_block 1 1, Driver_get_rapid_block_data 0 1 1],
        d_bstate := \<lparr>state = WAITING, waveform_count = 2, waveform_idx = 2,
                     offset = 1, samples_left = 0\<rparr>\<rparr>"


section \<open>Verified properties\<close>

subsection \<open>Machine-integer facts\<close>

lemma uint_eq_sint_nonneg:
  fixes w :: "32 word"
  assumes "0 \<le> sint w"
  shows "uint w = sint w"
proof -
  have "sint w < 2 ^ 32"
    using sint_lt [of w] by simp
  with assms have "take_bit 32 (sint w) = sint w"
    by (simp add: take_bit_int_eq_self)
  then show ?thesis
    using uint_sint [of w] by simp
qed

lemma uint_add_sint_nonneg:
  fixes a b :: "32 word"
  assumes "0 \<le> sint a" and "0 \<le> sint b"
  shows "uint (a + b) = sint a + sint b"
proof -
  have eqs: "uint a = sint a" "uint b = sint b"
    using assms by (simp_all add: uint_eq_sint_nonneg)
  have "sint a < 2 ^ 31" "sint b < 2 ^ 31"
    using sint_lt [of a] sint_lt [of b] by simp_all
  with eqs have "uint a + uint b < 2 ^ LENGTH(32)"
    by simp
  then have "uint (a + b) = uint a + uint b"
    by (simp only: uint_add_lem)
  with eqs show ?thesis
    by simp
qed

subsection \<open>Setters\<close>

text \<open>
  C8. \<^verbatim>\<open>set_downsampling(mode, factor)\<close> throws exactly when the mode is not NONE and the
  factor is below 2, and then it throws \<^verbatim>\<open>std::invalid_argument\<close> and changes nothing.
  When it returns, the stored mode is the one passed, the stored factor is 1 exactly
  when the stored mode is NONE (the factor passed with NONE is ignored), and otherwise
  it is the factor passed. The constructed block satisfies the same equivalence.
\<close>

theorem set_downsampling_factor_one_iff_none:
  "((\<exists>e s'. set_downsampling mode factor s = Throw e s')
      \<longleftrightarrow> (mode \<noteq> DOWNSAMPLING_MODE_NONE \<and> sint factor < 2))
   \<and> (\<forall>e s'. set_downsampling mode factor s = Throw e s' \<longrightarrow> e = Invalid_argument \<and> s' = s)
   \<and> (\<forall>s'. set_downsampling mode factor s = Return () s' \<longrightarrow>
          d_downsampling_mode s' = mode
        \<and> (d_downsampling_factor s' = 1 \<longleftrightarrow> d_downsampling_mode s' = DOWNSAMPLING_MODE_NONE)
        \<and> (mode \<noteq> DOWNSAMPLING_MODE_NONE \<longrightarrow> d_downsampling_factor s' = factor))
   \<and> (d_downsampling_factor (digitizer_block_impl ai_channels di_ports auto_arm chs ps trg bst) = 1
        \<longleftrightarrow> d_downsampling_mode (digitizer_block_impl ai_channels di_ports auto_arm chs ps trg bst)
              = DOWNSAMPLING_MODE_NONE)"
proof -
  have ne1: "d_downsampling_factor s' \<noteq> 1"
    if "set_downsampling mode factor s = Return () s'" and "mode \<noteq> DOWNSAMPLING_MODE_NONE" for s'
  proof -
    from that have "2 \<le> sint factor" and "d_downsampling_factor s' = factor"
      by (auto simp: set_downsampling_def split: if_splits)
    then show ?thesis
      by auto
  qed
  have throws: "(\<exists>e s'. set_downsampling mode factor s = Throw e s')
      \<longleftrightarrow> (mode \<noteq> DOWNSAMPLING_MODE_NONE \<and> sint factor < 2)"
    by (auto simp: set_downsampling_def)
  have which: "\<forall>e s'. set_downsampling mode factor s = Throw e s' \<longrightarrow> e = Invalid_argument \<and> s' = s"
    by (auto simp: set_downsampling_def split: if_splits)
  have stored: "\<forall>s'. set_downsampling mode factor s = Return () s' \<longrightarrow>
          d_downsampling_mode s' = mode
        \<and> (d_downsampling_factor s' = 1 \<longleftrightarrow> d_downsampling_mode s' = DOWNSAMPLING_MODE_NONE)
        \<and> (mode \<noteq> DOWNSAMPLING_MODE_NONE \<longrightarrow> d_downsampling_factor s' = factor)"
    using ne1 by (auto simp: set_downsampling_def split: if_splits)
  have init: "d_downsampling_factor (digitizer_block_impl ai_channels di_ports auto_arm chs ps trg bst) = 1
        \<longleftrightarrow> d_downsampling_mode (digitizer_block_impl ai_channels di_ports auto_arm chs ps trg bst)
              = DOWNSAMPLING_MODE_NONE"
    by (simp add: digitizer_block_impl_def)
  from throws which stored init show ?thesis
    by blast
qed

theorem set_downsampling_factor_one_iff_none_witness:
  "set_downsampling DOWNSAMPLING_MODE_DECIMATE 16 test_block
     = Return () (test_block\<lparr>d_downsampling_mode := DOWNSAMPLING_MODE_DECIMATE,
                             d_downsampling_factor := 16\<rparr>)
   \<and> d_downsampling_factor (test_block\<lparr>d_downsampling_mode := DOWNSAMPLING_MODE_DECIMATE,
                                        d_downsampling_factor := 16\<rparr>) \<noteq> 1
   \<and> set_downsampling DOWNSAMPLING_MODE_AVERAGE 1 test_block = Throw Invalid_argument test_block"
proof -
  have r: "set_downsampling DOWNSAMPLING_MODE_DECIMATE 16 test_block
     = Return () (test_block\<lparr>d_downsampling_mode := DOWNSAMPLING_MODE_DECIMATE,
                             d_downsampling_factor := 16\<rparr>)"
    by (simp add: set_downsampling_def)
  have t: "set_downsampling DOWNSAMPLING_MODE_AVERAGE 1 test_block = Throw Invalid_argument test_block"
    by (simp add: set_downsampling_def)
  from r t
    set_downsampling_factor_one_iff_none
      [of DOWNSAMPLING_MODE_DECIMATE 16 test_block 4 1 False "[]" "[]" default_trigger_setting
          initial_bstate]
  show ?thesis
    by simp
qed

text \<open>
  C9. A call \<^verbatim>\<open>set_streaming(poll_rate)\<close> with a poll rate that is not negative returns,
  and the block it leaves differs from the one it found in three fields only: the mode
  is STREAMING, the poll rate is the one passed and \<open>d_nr_captures\<close> is 1, whatever
  \<^verbatim>\<open>set_rapid_block\<close> had stored there.
\<close>

theorem set_streaming_resets_nr_captures:
  assumes "0 \<le> poll_rate"
  shows "set_streaming poll_rate s
           = Return () (s\<lparr>d_acquisition_mode := STREAMING,
                           d_poll_rate := poll_rate,
                           d_nr_captures := 1\<rparr>)
       \<and> (\<forall>nr_captures s0. set_rapid_block nr_captures s0 = Return () s \<longrightarrow>
             d_nr_captures s = nr_captures
           \<and> d_nr_captures (s\<lparr>d_acquisition_mode := STREAMING,
                               d_poll_rate := poll_rate,
                               d_nr_captures := 1\<rparr>) = 1)"
  using assms by (auto simp: set_streaming_def set_rapid_block_def split: if_splits)

theorem set_streaming_resets_nr_captures_witness:
  "set_rapid_block 5 test_block
     = Return () (test_block\<lparr>d_acquisition_mode := RAPID_BLOCK, d_nr_captures := 5\<rparr>)
   \<and> set_streaming 0.0005 (test_block\<lparr>d_acquisition_mode := RAPID_BLOCK, d_nr_captures := 5\<rparr>)
     = Return () (test_block\<lparr>d_acquisition_mode := STREAMING, d_nr_captures := 1,
                             d_poll_rate := 0.0005\<rparr>)"
proof -
  have "(0::real) \<le> 0.0005"
    by simp
  from set_streaming_resets_nr_captures [OF this,
      of "test_block\<lparr>d_acquisition_mode := RAPID_BLOCK, d_nr_captures := 5\<rparr>"]
  show ?thesis
    by (simp add: set_rapid_block_def)
qed

text \<open>
  C10. A call \<^verbatim>\<open>set_samples(post, pre)\<close> with \<open>post \<ge> 1\<close> and \<open>pre \<ge> 0\<close> returns; it
  stores both counts and overwrites \<open>d_buffer_size\<close> with their sum (which does not wrap),
  and changes no other field. A buffer size stored before by \<^verbatim>\<open>set_buffer_size\<close> is
  thereby lost.
\<close>

theorem set_samples_overwrites_buffer_size:
  assumes "1 \<le> sint samples" and "0 \<le> sint pre_samples"
  shows "set_samples samples pre_samples s
           = Return () (s\<lparr>d_samples := samples,
                           d_pre_samples := pre_samples,
                           d_buffer_size := samples + pre_samples\<rparr>)
       \<and> uint (samples + pre_samples) = sint samples + sint pre_samples
       \<and> (\<forall>buffer_size s0. set_buffer_size buffer_size s0 = Return () s \<longrightarrow>
             d_buffer_size s = buffer_size
           \<and> d_buffer_size (s\<lparr>d_samples := samples,
                               d_pre_samples := pre_samples,
                               d_buffer_size := samples + pre_samples\<rparr>)
               = samples + pre_samples)"
proof -
  have stored: "set_samples samples pre_samples s
           = Return () (s\<lparr>d_samples := samples,
                           d_pre_samples := pre_samples,
                           d_buffer_size := samples + pre_samples\<rparr>)"
    using assms by (simp add: set_samples_def)
  have no_wrap: "uint (samples + pre_samples) = sint samples + sint pre_samples"
    using assms by (intro uint_add_sint_nonneg) simp_all
  have lost: "\<forall>buffer_size s0. set_buffer_size buffer_size s0 = Return () s \<longrightarrow>
             d_buffer_size s = buffer_size
           \<and> d_buffer_size (s\<lparr>d_samples := samples,
                               d_pre_samples := pre_samples,
                               d_buffer_size := samples + pre_samples\<rparr>)
               = samples + pre_samples"
    by (auto simp: set_buffer_size_def set_output_multiple_def split: if_splits)
  from stored no_wrap lost show ?thesis
    by blast
qed

theorem set_samples_overwrites_buffer_size_witness:
  "set_buffer_size 4096 test_block
     = Return () (test_block\<lparr>d_buffer_size := 4096, gr_output_multiple := 4096\<rparr>)
   \<and> set_samples 900 100 (test_block\<lparr>d_buffer_size := 4096, gr_output_multiple := 4096\<rparr>)
     = Return () (test_block\<lparr>gr_output_multiple := 4096, d_samples := 900,
                             d_pre_samples := 100, d_buffer_size := 1000\<rparr>)"
proof -
  have "1 \<le> sint (900 :: 32 word)" and "0 \<le> sint (100 :: 32 word)"
    by simp_all
  from set_samples_overwrites_buffer_size [OF this,
      of "test_block\<lparr>d_buffer_size := 4096, gr_output_multiple := 4096\<rparr>"]
  show ?thesis
    by (simp add: set_buffer_size_def set_output_multiple_def)
qed

subsection \<open>The digital trigger scenario\<close>

text \<open>
  C7. With direction Rising and the detector reset, the samples
  0x00, 0x00, 0x08, 0x08, 0x00, 0x08 scanned with mask 0x08 give the offsets 2 and 5,
  in that order, and leave the detector set. The same holds of the streaming path of
  a block whose trigger is pin 3 (port 0, bit 3) and whose port 0 is the last output.
\<close>

theorem digital_trigger_scenario:
  "find_digital_triggers [0x00, 0x00, 0x08, 0x08, 0x00, 0x08] 6 0x08
      (s\<lparr>d_trigger_settings :=
            (d_trigger_settings s)\<lparr>trg_direction := TRIGGER_DIRECTION_RISING\<rparr>,
         d_trigger_state := 0\<rparr>)
     = Return [2, 5]
         (s\<lparr>d_trigger_settings :=
               (d_trigger_settings s)\<lparr>trg_direction := TRIGGER_DIRECTION_RISING\<rparr>,
            d_trigger_state := 1\<rparr>)
   \<and> detect_stream_triggers
       (env\<lparr>output_items :=
              replicate 8 (Float_buffer []) @ [Byte_buffer [0x00, 0x00, 0x08, 0x08, 0x00, 0x08]]\<rparr>)
       di_test_block
     = Return [2, 5] (di_test_block\<lparr>d_trigger_state := 1\<rparr>)"
proof -
  have direct: "find_digital_triggers [0x00, 0x00, 0x08, 0x08, 0x00, 0x08] 6 0x08
      (s\<lparr>d_trigger_settings :=
            (d_trigger_settings s)\<lparr>trg_direction := TRIGGER_DIRECTION_RISING\<rparr>,
         d_trigger_state := 0\<rparr>)
     = Return [2, 5]
         (s\<lparr>d_trigger_settings :=
               (d_trigger_settings s)\<lparr>trg_direction := TRIGGER_DIRECTION_RISING\<rparr>,
            d_trigger_state := 1\<rparr>)"
    by (simp add: find_digital_triggers_def rising_or_high_def)
  have stream: "detect_stream_triggers
       (env\<lparr>output_items :=
              replicate 8 (Float_buffer []) @ [Byte_buffer [0x00, 0x00, 0x08, 0x08, 0x00, 0x08]]\<rparr>)
       di_test_block
     = Return [2, 5] (di_test_block\<lparr>d_trigger_state := 1\<rparr>)"
    by (simp add: detect_stream_triggers_def di_test_block_def test_block_def
        digitizer_block_impl_def set_di_trigger_def default_trigger_setting_def
        is_analog_def is_digital_def is_enabled_def find_digital_triggers_def
        rising_or_high_def Let_def nth_append)
  from direct stream show ?thesis
    by simp
qed

subsection \<open>The analog trigger detector\<close>

lemma nth_Cons_shift: "Suc i \<le> k \<Longrightarrow> (x # xs) ! (k - i) = xs ! (k - Suc i)"
proof -
  assume "Suc i \<le> k"
  then have "k - i = Suc (k - Suc i)" by arith
  then show ?thesis by simp
qed

lemma rising_bounds:
  "analog_rising_loop thr lo i xs st = (offs, st') \<Longrightarrow> n \<in> set offs \<Longrightarrow>
     i \<le> n \<and> n < i + length xs \<and> thr \<le> xs ! (n - i)"
proof (induction xs arbitrary: i st offs)
  case Nil
  then show ?case by simp
next
  case (Cons x xs)
  show ?case
  proof (cases "st = 0 \<and> thr \<le> x")
    case True
    obtain os where os: "analog_rising_loop thr lo (Suc i) xs 1 = (os, st')" and offs: "offs = i # os"
      using Cons.prems(1) True by (auto split: prod.splits)
    show ?thesis
    proof (cases "n = i")
      case True
      then show ?thesis using \<open>st = 0 \<and> thr \<le> x\<close> by simp
    next
      case False
      then have "n \<in> set os" using Cons.prems(2) offs by simp
      from Cons.IH [OF os this] show ?thesis
        by (simp add: nth_Cons_shift)
    qed
  next
    case False
    then obtain st1 where "analog_rising_loop thr lo (Suc i) xs st1 = (offs, st')"
      using Cons.prems(1) by (auto split: if_splits)
    from Cons.IH [OF this Cons.prems(2)] show ?thesis
      by (simp add: nth_Cons_shift)
  qed
qed

lemma rising_state_before:
  "analog_rising_loop thr lo i xs st = (offs, st') \<Longrightarrow> n \<in> set offs \<Longrightarrow>
     snd (analog_rising_loop thr lo i (take (n - i) xs) st) = 0"
proof (induction xs arbitrary: i st offs)
  case Nil
  then show ?case by simp
next
  case (Cons x xs)
  show ?case
  proof (cases "n = i")
    case True
    then have "st = 0"
      using Cons.prems rising_bounds [of thr lo "Suc i" xs _ offs st' n]
      by (auto split: if_splits prod.splits)
    with True show ?thesis by simp
  next
    case False
    have "i \<le> n" using rising_bounds [OF Cons.prems] by simp
    with False obtain d where d: "n - i = Suc d" "n - Suc i = d"
      by (cases "n - i") auto
    show ?thesis
    proof (cases "st = 0 \<and> thr \<le> x")
      case True
      obtain os where os: "analog_rising_loop thr lo (Suc i) xs 1 = (os, st')" and offs: "offs = i # os"
        using Cons.prems(1) True by (auto split: prod.splits)
      then have "n \<in> set os" using Cons.prems(2) False by simp
      from Cons.IH [OF os this] True d show ?thesis
        by (cases "analog_rising_loop thr lo (Suc i) (take d xs) 1") simp
    next
      case False
      then obtain st1 where st1: "analog_rising_loop thr lo (Suc i) xs st1 = (offs, st')"
         and step: "\<And>ys. analog_rising_loop thr lo i (x # ys) st = analog_rising_loop thr lo (Suc i) ys st1"
        using Cons.prems(1) by (auto split: if_splits)
      from Cons.IH [OF st1 Cons.prems(2)] d step show ?thesis
        by simp
    qed
  qed
qed

lemma rising_first:
  "analog_rising_loop thr lo i xs st = (offs, st') \<Longrightarrow> st \<noteq> 0 \<Longrightarrow> offs \<noteq> [] \<Longrightarrow>
     \<exists>k. i \<le> k \<and> k < hd offs \<and> xs ! (k - i) \<le> lo"
proof (induction xs arbitrary: i st offs)
  case Nil
  then show ?case by simp
next
  case (Cons x xs)
  show ?case
  proof (cases "x \<le> lo")
    case True
    then have r: "analog_rising_loop thr lo (Suc i) xs 0 = (offs, st')"
      using Cons.prems by simp
    have "hd offs \<in> set offs" using Cons.prems(3) by simp
    from rising_bounds [OF r this] True show ?thesis
      by (intro exI [of _ i]) simp
  next
    case False
    then have r: "analog_rising_loop thr lo (Suc i) xs st = (offs, st')"
      using Cons.prems by simp
    from Cons.IH [OF r Cons.prems(2,3)] obtain k where "Suc i \<le> k" "k < hd offs" "xs ! (k - Suc i) \<le> lo"
      by blast
    then show ?thesis
      by (intro exI [of _ k]) (simp add: nth_Cons_shift)
  qed
qed

lemma rising_between:
  "analog_rising_loop thr lo i xs st = (offs, st') \<Longrightarrow> Suc m < length offs \<Longrightarrow>
     offs ! m < offs ! Suc m \<and> (\<exists>k. offs ! m < k \<and> k < offs ! Suc m \<and> xs ! (k - i) \<le> lo)"
proof (induction xs arbitrary: i st offs m)
  case Nil
  then show ?case by simp
next
  case (Cons x xs)
  show ?case
  proof (cases "st = 0 \<and> thr \<le> x")
    case True
    obtain os where os: "analog_rising_loop thr lo (Suc i) xs 1 = (os, st')" and offs: "offs = i # os"
      using Cons.prems(1) True by (auto split: prod.splits)
    show ?thesis
    proof (cases m)
      case 0
      have ne: "os \<noteq> []" using Cons.prems(2) offs 0 by auto
      from rising_first [OF os _ ne] obtain k where k: "Suc i \<le> k" "k < hd os" "xs ! (k - Suc i) \<le> lo"
        by auto
      have "hd os = os ! 0" using ne by (simp add: hd_conv_nth)
      with k 0 offs show ?thesis
        by (auto simp: nth_Cons_shift intro!: exI [of _ k])
    next
      case (Suc m')
      then have "Suc m' < length os" using Cons.prems(2) offs by simp
      from Cons.IH [OF os this] obtain k where
        k: "os ! m' < os ! Suc m'" "os ! m' < k" "k < os ! Suc m'" "xs ! (k - Suc i) \<le> lo"
        by blast
      have "os ! m' \<in> set os" using \<open>Suc m' < length os\<close> by simp
      from rising_bounds [OF os this] have "Suc i \<le> os ! m'" by simp
      with k Suc offs show ?thesis
        by (auto simp: nth_Cons_shift intro!: exI [of _ k])
    qed
  next
    case False
    then obtain st1 where r: "analog_rising_loop thr lo (Suc i) xs st1 = (offs, st')"
      using Cons.prems(1) by (auto split: if_splits)
    from Cons.IH [OF r Cons.prems(2)] obtain k where
      k: "offs ! m < offs ! Suc m" "offs ! m < k" "k < offs ! Suc m" "xs ! (k - Suc i) \<le> lo"
      by blast
    have "offs ! m \<in> set offs" using Cons.prems(2) by simp
    from rising_bounds [OF r this] have "Suc i \<le> offs ! m" by simp
    with k show ?thesis
      by (auto simp: nth_Cons_shift intro!: exI [of _ k])
  qed
qed

lemma falling_bounds:
  "analog_falling_loop thr hi i xs st = (offs, st') \<Longrightarrow> n \<in> set offs \<Longrightarrow>
     i \<le> n \<and> n < i + length xs \<and> xs ! (n - i) \<le> thr"
proof (induction xs arbitrary: i st offs)
  case Nil
  then show ?case by simp
next
  case (Cons x xs)
  show ?case
  proof (cases "st \<noteq> 0 \<and> x \<le> thr")
    case True
    obtain os where os: "analog_falling_loop thr hi (Suc i) xs 0 = (os, st')" and offs: "offs = i # os"
      using Cons.prems(1) True by (auto split: prod.splits)
    show ?thesis
    proof (cases "n = i")
      case True
      then show ?thesis using \<open>st \<noteq> 0 \<and> x \<le> thr\<close> by simp
    next
      case False
      then have "n \<in> set os" using Cons.prems(2) offs by simp
      from Cons.IH [OF os this] show ?thesis
        by (simp add: nth_Cons_shift)
    qed
  next
    case False
    then obtain st1 where "analog_falling_loop thr hi (Suc i) xs st1 = (offs, st')"
      using Cons.prems(1) by (auto split: if_splits)
    from Cons.IH [OF this Cons.prems(2)] show ?thesis
      by (simp add: nth_Cons_shift)
  qed
qed

lemma falling_state_before:
  "analog_falling_loop thr hi i xs st = (offs, st') \<Longrightarrow> n \<in> set offs \<Longrightarrow>
     snd (analog_falling_loop thr hi i (take (n - i) xs) st) \<noteq> 0"
proof (induction xs arbitrary: i st offs)
  case Nil
  then show ?case by simp
next
  case (Cons x xs)
  show ?case
  proof (cases "n = i")
    case True
    then have "st \<noteq> 0"
      using Cons.prems falling_bounds [of thr hi "Suc i" xs _ offs st' n]
      by (auto split: if_splits prod.splits)
    with True show ?thesis by simp
  next
    case False
    have "i \<le> n" using falling_bounds [OF Cons.prems] by simp
    with False obtain d where d: "n - i = Suc d" "n - Suc i = d"
      by (cases "n - i") auto
    show ?thesis
    proof (cases "st \<noteq> 0 \<and> x \<le> thr")
      case True
      obtain os where os: "analog_falling_loop thr hi (Suc i) xs 0 = (os, st')" and offs: "offs = i # os"
        using Cons.prems(1) True by (auto split: prod.splits)
      then have "n \<in> set os" using Cons.prems(2) False by simp
      from Cons.IH [OF os this] True d show ?thesis
        by (cases "analog_falling_loop thr hi (Suc i) (take d xs) 0") simp
    next
      case False
      then obtain st1 where st1: "analog_falling_loop thr hi (Suc i) xs st1 = (offs, st')"
         and step: "\<And>ys. analog_falling_loop thr hi i (x # ys) st = analog_falling_loop thr hi (Suc i) ys st1"
        using Cons.prems(1) by (auto split: if_splits)
      from Cons.IH [OF st1 Cons.prems(2)] d step show ?thesis
        by simp
    qed
  qed
qed

lemma falling_first:
  "analog_falling_loop thr hi i xs st = (offs, st') \<Longrightarrow> st = 0 \<Longrightarrow> offs \<noteq> [] \<Longrightarrow>
     \<exists>k. i \<le> k \<and> k < hd offs \<and> hi \<le> xs ! (k - i)"
proof (induction xs arbitrary: i st offs)
  case Nil
  then show ?case by simp
next
  case (Cons x xs)
  show ?case
  proof (cases "hi \<le> x")
    case True
    then have r: "analog_falling_loop thr hi (Suc i) xs 1 = (offs, st')"
      using Cons.prems by simp
    have "hd offs \<in> set offs" using Cons.prems(3) by simp
    from falling_bounds [OF r this] True show ?thesis
      by (intro exI [of _ i]) simp
  next
    case False
    then have r: "analog_falling_loop thr hi (Suc i) xs st = (offs, st')"
      using Cons.prems by simp
    from Cons.IH [OF r Cons.prems(2,3)] obtain k where "Suc i \<le> k" "k < hd offs" "hi \<le> xs ! (k - Suc i)"
      by blast
    then show ?thesis
      by (intro exI [of _ k]) (simp add: nth_Cons_shift)
  qed
qed

lemma falling_between:
  "analog_falling_loop thr hi i xs st = (offs, st') \<Longrightarrow> Suc m < length offs \<Longrightarrow>
     offs ! m < offs ! Suc m \<and> (\<exists>k. offs ! m < k \<and> k < offs ! Suc m \<and> hi \<le> xs ! (k - i))"
proof (induction xs arbitrary: i st offs m)
  case Nil
  then show ?case by simp
next
  case (Cons x xs)
  show ?case
  proof (cases "st \<noteq> 0 \<and> x \<le> thr")
    case True
    obtain os where os: "analog_falling_loop thr hi (Suc i) xs 0 = (os, st')" and offs: "offs = i # os"
      using Cons.prems(1) True by (auto split: prod.splits)
    show ?thesis
    proof (cases m)
      case 0
      have ne: "os \<noteq> []" using Cons.prems(2) offs 0 by auto
      from falling_first [OF os _ ne] obtain k where k: "Suc i \<le> k" "k < hd os" "hi \<le> xs ! (k - Suc i)"
        by auto
      have "hd os = os ! 0" using ne by (simp add: hd_conv_nth)
      with k 0 offs show ?thesis
        by (auto simp: nth_Cons_shift intro!: exI [of _ k])
    next
      case (Suc m')
      then have "Suc m' < length os" using Cons.prems(2) offs by simp
      from Cons.IH [OF os this] obtain k where
        k: "os ! m' < os ! Suc m'" "os ! m' < k" "k < os ! Suc m'" "hi \<le> xs ! (k - Suc i)"
        by blast
      have "os ! m' \<in> set os" using \<open>Suc m' < length os\<close> by simp
      from falling_bounds [OF os this] have "Suc i \<le> os ! m'" by simp
      with k Suc offs show ?thesis
        by (auto simp: nth_Cons_shift intro!: exI [of _ k])
    qed
  next
    case False
    then obtain st1 where r: "analog_falling_loop thr hi (Suc i) xs st1 = (offs, st')"
      using Cons.prems(1) by (auto split: if_splits)
    from Cons.IH [OF r Cons.prems(2)] obtain k where
      k: "offs ! m < offs ! Suc m" "offs ! m < k" "k < offs ! Suc m" "hi \<le> xs ! (k - Suc i)"
      by blast
    have "offs ! m \<in> set offs" using Cons.prems(2) by simp
    from falling_bounds [OF r this] have "Suc i \<le> offs ! m" by simp
    with k show ?thesis
      by (auto simp: nth_Cons_shift intro!: exI [of _ k])
  qed
qed



lemma direction_cases: "\<not> rising_or_high d \<Longrightarrow> falling_or_low d"
  by (cases d) (simp_all add: rising_or_high_def falling_or_low_def)

lemma direction_exclusive: "rising_or_high d \<Longrightarrow> \<not> falling_or_low d"
  by (cases d) (simp_all add: rising_or_high_def falling_or_low_def)

lemma convert_to_aichan_idx_state:
  "convert_to_aichan_idx idstr s = Return aichan s' \<Longrightarrow> s' = s"
  by (auto simp: convert_to_aichan_idx_def Let_def split: if_splits)

lemma find_analog_triggers_scan:
  assumes "0 < nsamples" and "is_analog (d_trigger_settings s)"
    and "trg_source (d_trigger_settings s) = Channel_source idstr"
    and "convert_to_aichan_idx idstr s = Return aichan s"
    and "nat aichan < length (d_channel_settings s)"
    and "nat nsamples \<le> length samples"
  shows "find_analog_triggers to_float samples nsamples s =
     (if rising_or_high (trg_direction (d_trigger_settings s))
      then (case analog_rising_loop (trg_threshold (d_trigger_settings s))
                   (analog_lo to_float s (nat aichan)) 0
                   (take (nat nsamples) samples) (d_trigger_state s) of
              (trigger_offsets, st) \<Rightarrow> Return trigger_offsets (s\<lparr>d_trigger_state := st\<rparr>))
      else (case analog_falling_loop (trg_threshold (d_trigger_settings s))
                   (analog_hi to_float s (nat aichan)) 0
                   (take (nat nsamples) samples) (d_trigger_state s) of
              (trigger_offsets, st) \<Rightarrow> Return trigger_offsets (s\<lparr>d_trigger_state := st\<rparr>)))"
  using assms direction_cases [of "trg_direction (d_trigger_settings s)"]
  by (simp add: find_analog_triggers_def is_analog_def)

lemma find_analog_triggers_fired:
  assumes "find_analog_triggers to_float samples nsamples s = Return offs s'" and "offs \<noteq> []"
  shows "\<exists>idstr aichan. 0 < nsamples \<and> is_analog (d_trigger_settings s)
           \<and> trg_source (d_trigger_settings s) = Channel_source idstr
           \<and> convert_to_aichan_idx idstr s = Return aichan s
           \<and> nat aichan < length (d_channel_settings s)
           \<and> nat nsamples \<le> length samples"
proof -
  from assms have pos: "0 < nsamples" and an: "is_analog (d_trigger_settings s)"
    by (auto simp: find_analog_triggers_def split: if_splits)
  from assms pos an obtain idstr where src: "trg_source (d_trigger_settings s) = Channel_source idstr"
    by (cases "trg_source (d_trigger_settings s)") (auto simp: find_analog_triggers_def is_analog_def)
  from assms pos an src obtain aichan s1 where conv: "convert_to_aichan_idx idstr s = Return aichan s1"
    by (cases "convert_to_aichan_idx idstr s") (auto simp: find_analog_triggers_def is_analog_def)
  then have s1: "s1 = s"
    by (rule convert_to_aichan_idx_state)
  from assms pos an src conv s1 have "nat aichan < length (d_channel_settings s)"
    and "nat nsamples \<le> length samples"
    by (auto simp: find_analog_triggers_def is_analog_def split: if_splits)
  with pos an src conv s1 show ?thesis
    by blast
qed

lemma analog_rising_fires:
  assumes ret: "find_analog_triggers to_float samples nsamples s = Return offs s'"
    and dir: "rising_or_high (trg_direction (d_trigger_settings s))"
    and mem: "i \<in> set offs"
  shows "int i < nsamples \<and> i < length samples
       \<and> trg_threshold (d_trigger_settings s) \<le> samples ! i
       \<and> (\<exists>offs_i s_i. find_analog_triggers to_float samples (int i) s = Return offs_i s_i
             \<and> d_trigger_state s_i = 0)"
proof -
  from mem have ne: "offs \<noteq> []" by auto
  from find_analog_triggers_fired [OF ret ne] obtain idstr aichan where
    pos: "0 < nsamples" and an: "is_analog (d_trigger_settings s)"
    and src: "trg_source (d_trigger_settings s) = Channel_source idstr"
    and conv: "convert_to_aichan_idx idstr s = Return aichan s"
    and ch: "nat aichan < length (d_channel_settings s)"
    and len: "nat nsamples \<le> length samples"
    by blast
  let ?thr = "trg_threshold (d_trigger_settings s)"
  let ?lo = "analog_lo to_float s (nat aichan)"
  obtain st' where loop: "analog_rising_loop ?thr ?lo 0 (take (nat nsamples) samples) (d_trigger_state s)
      = (offs, st')"
    using ret dir find_analog_triggers_scan [OF pos an src conv ch len, of to_float]
    by (auto split: prod.splits)
  from rising_bounds [OF loop mem] len have b: "i < nat nsamples" "i < length samples" "?thr \<le> samples ! i"
    by auto
  from rising_state_before [OF loop mem] b(1)
  have before: "snd (analog_rising_loop ?thr ?lo 0 (take i samples) (d_trigger_state s)) = 0"
    by (simp add: min_def)
  have "\<exists>offs_i s_i. find_analog_triggers to_float samples (int i) s = Return offs_i s_i
             \<and> d_trigger_state s_i = 0"
  proof (cases "i = 0")
    case True
    with before show ?thesis
      by (simp add: find_analog_triggers_def)
  next
    case False
    then have ipos: "0 < int i" by simp
    have ilen: "nat (int i) \<le> length samples" using b(2) by simp
    from find_analog_triggers_scan [OF ipos an src conv ch ilen, of to_float] dir before
    show ?thesis
      by (cases "analog_rising_loop ?thr ?lo 0 (take i samples) (d_trigger_state s)") simp
  qed
  with b show ?thesis
    by auto
qed

lemma analog_rising_between:
  assumes ret: "find_analog_triggers to_float samples nsamples s = Return offs s'"
    and dir: "rising_or_high (trg_direction (d_trigger_settings s))"
    and m: "Suc m < length offs"
  shows "offs ! m < offs ! Suc m
       \<and> (\<exists>idstr aichan k. trg_source (d_trigger_settings s) = Channel_source idstr
             \<and> convert_to_aichan_idx idstr s = Return aichan s
             \<and> offs ! m \<le> k \<and> k < offs ! Suc m
             \<and> samples ! k \<le> to_float (trg_threshold (d_trigger_settings s)
                   - to_float (ch_actual_range (d_channel_settings s ! nat aichan) / 100)))"
proof -
  from m have ne: "offs \<noteq> []" by auto
  from find_analog_triggers_fired [OF ret ne] obtain idstr aichan where
    pos: "0 < nsamples" and an: "is_analog (d_trigger_settings s)"
    and src: "trg_source (d_trigger_settings s) = Channel_source idstr"
    and conv: "convert_to_aichan_idx idstr s = Return aichan s"
    and ch: "nat aichan < length (d_channel_settings s)"
    and len: "nat nsamples \<le> length samples"
    by blast
  let ?thr = "trg_threshold (d_trigger_settings s)"
  let ?lo = "analog_lo to_float s (nat aichan)"
  obtain st' where loop: "analog_rising_loop ?thr ?lo 0 (take (nat nsamples) samples) (d_trigger_state s)
      = (offs, st')"
    using ret dir find_analog_triggers_scan [OF pos an src conv ch len, of to_float]
    by (auto split: prod.splits)
  from rising_between [OF loop m] obtain k where
    k: "offs ! m < offs ! Suc m" "offs ! m < k" "k < offs ! Suc m"
       "take (nat nsamples) samples ! (k - 0) \<le> ?lo"
    by blast
  have "offs ! Suc m \<in> set offs" using m by simp
  from rising_bounds [OF loop this] have "offs ! Suc m < nat nsamples" by simp
  with k have "samples ! k \<le> ?lo" by simp
  with k src conv show ?thesis
    unfolding analog_lo_def analog_band_def
    by (intro conjI exI [of _ idstr] exI [of _ aichan] exI [of _ k]) simp_all
qed

lemma analog_falling_fires:
  assumes ret: "find_analog_triggers to_float samples nsamples s = Return offs s'"
    and dir: "falling_or_low (trg_direction (d_trigger_settings s))"
    and mem: "i \<in> set offs"
  shows "int i < nsamples \<and> i < length samples
       \<and> samples ! i \<le> trg_threshold (d_trigger_settings s)
       \<and> (\<exists>offs_i s_i. find_analog_triggers to_float samples (int i) s = Return offs_i s_i
             \<and> d_trigger_state s_i \<noteq> 0)"
proof -
  from mem have ne: "offs \<noteq> []" by auto
  from find_analog_triggers_fired [OF ret ne] obtain idstr aichan where
    pos: "0 < nsamples" and an: "is_analog (d_trigger_settings s)"
    and src: "trg_source (d_trigger_settings s) = Channel_source idstr"
    and conv: "convert_to_aichan_idx idstr s = Return aichan s"
    and ch: "nat aichan < length (d_channel_settings s)"
    and len: "nat nsamples \<le> length samples"
    by blast
  have ndir: "\<not> rising_or_high (trg_direction (d_trigger_settings s))"
    using dir direction_exclusive by blast
  let ?thr = "trg_threshold (d_trigger_settings s)"
  let ?hi = "analog_hi to_float s (nat aichan)"
  obtain st' where loop: "analog_falling_loop ?thr ?hi 0 (take (nat nsamples) samples) (d_trigger_state s)
      = (offs, st')"
    using ret ndir find_analog_triggers_scan [OF pos an src conv ch len, of to_float]
    by (auto split: prod.splits)
  from falling_bounds [OF loop mem] len have b: "i < nat nsamples" "i < length samples" "samples ! i \<le> ?thr"
    by auto
  from falling_state_before [OF loop mem] b(1)
  have before: "snd (analog_falling_loop ?thr ?hi 0 (take i samples) (d_trigger_state s)) \<noteq> 0"
    by (simp add: min_def)
  have "\<exists>offs_i s_i. find_analog_triggers to_float samples (int i) s = Return offs_i s_i
             \<and> d_trigger_state s_i \<noteq> 0"
  proof (cases "i = 0")
    case True
    with before show ?thesis
      by (simp add: find_analog_triggers_def)
  next
    case False
    then have ipos: "0 < int i" by simp
    have ilen: "nat (int i) \<le> length samples" using b(2) by simp
    from find_analog_triggers_scan [OF ipos an src conv ch ilen, of to_float] ndir before
    show ?thesis
      by (cases "analog_falling_loop ?thr ?hi 0 (take i samples) (d_trigger_state s)") simp
  qed
  with b show ?thesis
    by auto
qed

lemma analog_falling_between:
  assumes ret: "find_analog_triggers to_float samples nsamples s = Return offs s'"
    and dir: "falling_or_low (trg_direction (d_trigger_settings s))"
    and m: "Suc m < length offs"
  shows "offs ! m < offs ! Suc m
       \<and> (\<exists>idstr aichan k. trg_source (d_trigger_settings s) = Channel_source idstr
             \<and> convert_to_aichan_idx idstr s = Return aichan s
             \<and> offs ! m \<le> k \<and> k < offs ! Suc m
             \<and> to_float (trg_threshold (d_trigger_settings s)
                   + to_float (ch_actual_range (d_channel_settings s ! nat aichan) / 100))
                 \<le> samples ! k)"
proof -
  from m have ne: "offs \<noteq> []" by auto
  from find_analog_triggers_fired [OF ret ne] obtain idstr aichan where
    pos: "0 < nsamples" and an: "is_analog (d_trigger_settings s)"
    and src: "trg_source (d_trigger_settings s) = Channel_source idstr"
    and conv: "convert_to_aichan_idx idstr s = Return aichan s"
    and ch: "nat aichan < length (d_channel_settings s)"
    and len: "nat nsamples \<le> length samples"
    by blast
  have ndir: "\<not> rising_or_high (trg_direction (d_trigger_settings s))"
    using dir direction_exclusive by blast
  let ?thr = "trg_threshold (d_trigger_settings s)"
  let ?hi = "analog_hi to_float s (nat aichan)"
  obtain st' where loop: "analog_falling_loop ?thr ?hi 0 (take (nat nsamples) samples) (d_trigger_state s)
      = (offs, st')"
    using ret ndir find_analog_triggers_scan [OF pos an src conv ch len, of to_float]
    by (auto split: prod.splits)
  from falling_between [OF loop m] obtain k where
    k: "offs ! m < offs ! Suc m" "offs ! m < k" "k < offs ! Suc m"
       "?hi \<le> take (nat nsamples) samples ! (k - 0)"
    by blast
  have "offs ! Suc m \<in> set offs" using m by simp
  from falling_bounds [OF loop this] have "offs ! Suc m < nat nsamples" by simp
  with k have "?hi \<le> samples ! k" by simp
  with k src conv show ?thesis
    unfolding analog_hi_def analog_band_def
    by (intro conjI exI [of _ idstr] exI [of _ aichan] exI [of _ k]) simp_all
qed


lemma ai_test_block_eq:
  "ai_test_block = test_block\<lparr>d_trigger_settings :=
      \<lparr>trg_source = Channel_source ''A'', trg_threshold = 1,
       trg_direction = TRIGGER_DIRECTION_RISING, trg_pin_number = 0\<rparr>\<rparr>"
  by (simp add: ai_test_block_def set_aichan_trigger_def convert_to_aichan_idx_def
      char_value_def toupper_def MAX_SUPPORTED_AI_CHANNELS_def test_block_def
      digitizer_block_impl_def default_trigger_setting_def Let_def)

lemma float_values:
  "static_cast_float (1 / 20) = 13421773 / 268435456"
  "static_cast_float (281857229 / 268435456) = 4404019 / 4194304"
  "static_cast_float (255013683 / 268435456) = 15938355 / 16777216"
  "static_cast_float (4404019 / 4194304) = 4404019 / 4194304"
  "static_cast_float (1 / 2) = 1 / 2"
  by code_simp+

lemma falling_test_block_eq:
  "falling_test_block = test_block\<lparr>d_trigger_settings :=
      \<lparr>trg_source = Channel_source ''A'', trg_threshold = 1,
       trg_direction = TRIGGER_DIRECTION_FALLING, trg_pin_number = 0\<rparr>\<rparr>"
  by (simp add: falling_test_block_def set_aichan_trigger_def convert_to_aichan_idx_def
      char_value_def toupper_def MAX_SUPPORTED_AI_CHANNELS_def test_block_def
      digitizer_block_impl_def default_trigger_setting_def Let_def)

lemma falling_levels:
  "analog_band static_cast_float falling_test_block 0 = 13421773 / 268435456"
  "analog_hi static_cast_float falling_test_block 0 = 4404019 / 4194304"
  by (simp_all add: analog_hi_def analog_band_def falling_test_block_eq test_block_def
      digitizer_block_impl_def default_channel_setting_def float_values)

lemma rising_levels:
  "analog_band static_cast_float ai_test_block 0 = 13421773 / 268435456"
  "analog_lo static_cast_float ai_test_block 0 = 15938355 / 16777216"
  by (simp_all add: analog_lo_def analog_band_def ai_test_block_eq test_block_def
      digitizer_block_impl_def default_channel_setting_def float_values)

lemma falling_test_scan:
  "find_analog_triggers static_cast_float [4404019 / 4194304, 1 / 2, 4404019 / 4194304, 1 / 2] 4
      falling_test_block
     = Return [1, 3] (falling_test_block\<lparr>d_trigger_state := 0\<rparr>)"
  by (simp add: falling_test_block_eq find_analog_triggers_def convert_to_aichan_idx_def
      char_value_def toupper_def MAX_SUPPORTED_AI_CHANNELS_def test_block_def
      digitizer_block_impl_def is_enabled_def is_analog_def rising_or_high_def
      falling_or_low_def analog_hi_def analog_band_def default_channel_setting_def Let_def
      float_values)

lemma ai_float_scan:
  "find_analog_triggers static_cast_float [0, 2, 1 / 2, 3] 4 ai_test_block
     = Return [1, 3] (ai_test_block\<lparr>d_trigger_state := 1\<rparr>)"
  by (simp add: ai_test_block_eq find_analog_triggers_def convert_to_aichan_idx_def
      char_value_def toupper_def MAX_SUPPORTED_AI_CHANNELS_def test_block_def
      digitizer_block_impl_def is_enabled_def is_analog_def rising_or_high_def
      analog_lo_def analog_band_def default_channel_setting_def Let_def float_values)


lemma test_channel_A:
  "convert_to_aichan_idx ''A'' s = Return aichan s' \<Longrightarrow> aichan = 0"
  by (simp add: convert_to_aichan_idx_def char_value_def toupper_def Let_def split: if_splits)

text \<open>
  C4 as stated does not hold: the levels at which the detector re-arms are single
  precision numbers, \<^verbatim>\<open>band = float(actual_range / 100)\<close> and
  \<^verbatim>\<open>hi = float(threshold + band)\<close>, and \<open>hi\<close> can lie below \<open>threshold + actual_range / 100\<close>.
  With direction Falling, threshold 1 and actual range 5 the code computes
  \<open>hi = 4404019 / 4194304\<close> (1.0499999523...). Scanned from the reset state, the four
  single precision samples \<open>hi, 0.5, hi, 0.5\<close> fire at the offsets 1 and 3, and neither
  sample 1 nor sample 2 reaches \<open>threshold + band = 1.05\<close>.
\<close>

theorem analog_falling_rounding_counterexample:
  "find_analog_triggers static_cast_float [4404019 / 4194304, 1 / 2, 4404019 / 4194304, 1 / 2] 4
      falling_test_block
     = Return [1, 3] (falling_test_block\<lparr>d_trigger_state := 0\<rparr>)
   \<and> falling_or_low (trg_direction (d_trigger_settings falling_test_block))
   \<and> d_trigger_state falling_test_block = 0
   \<and> trg_source (d_trigger_settings falling_test_block) = Channel_source ''A''
   \<and> trg_threshold (d_trigger_settings falling_test_block) = 1
   \<and> ch_actual_range (d_channel_settings falling_test_block ! 0) = 5
   \<and> static_cast_float (4404019 / 4194304) = 4404019 / 4194304
   \<and> static_cast_float (1 / 2) = 1 / 2
   \<and> analog_hi static_cast_float falling_test_block 0 = 4404019 / 4194304
   \<and> [4404019 / 4194304, 1 / 2, 4404019 / 4194304, 1 / 2 :: real] ! 1 < 1 + 5 / 100
   \<and> [4404019 / 4194304, 1 / 2, 4404019 / 4194304, 1 / 2 :: real] ! 2 < 1 + 5 / 100"
proof -
  have cfg: "falling_or_low (trg_direction (d_trigger_settings falling_test_block))"
    "d_trigger_state falling_test_block = 0"
    "trg_source (d_trigger_settings falling_test_block) = Channel_source ''A''"
    "trg_threshold (d_trigger_settings falling_test_block) = 1"
    "ch_actual_range (d_channel_settings falling_test_block ! 0) = 5"
    by (simp_all add: falling_test_block_eq falling_or_low_def test_block_def
        digitizer_block_impl_def default_channel_setting_def)
  have below: "[4404019 / 4194304, 1 / 2, 4404019 / 4194304, 1 / 2 :: real] ! 1 < 1 + 5 / 100"
    "[4404019 / 4194304, 1 / 2, 4404019 / 4194304, 1 / 2 :: real] ! 2 < 1 + 5 / 100"
    by simp_all
  from falling_test_scan cfg float_values(4,5) falling_levels(2) below show ?thesis
    by blast
qed


text \<open>
  C4, amended. Let \<^verbatim>\<open>find_analog_triggers\<close> return the offsets \<open>offs\<close>. With direction
  Rising or High, every offset \<open>i\<close> it returns lies inside the chunk, has
  \<open>samples[i] \<ge> threshold\<close>, and the detector is disarmed when it reaches sample \<open>i\<close>
  (scanning only the first \<open>i\<close> samples from the same block leaves \<open>d_trigger_state\<close> at
  0); the offsets increase, and between two consecutive ones there is a \<open>k\<close> with
  \<open>samples[k] \<le> lo\<close>, where \<open>lo\<close> is the single precision level the code computes,
  \<^verbatim>\<open>float(threshold - float(actual_range / 100))\<close> for the source channel. With direction
  Falling or Low the mirror image holds: \<open>samples[i] \<le> threshold\<close>, the state is set when
  sample \<open>i\<close> is reached, and in between some \<open>samples[k] \<ge> hi\<close> with
  \<^verbatim>\<open>hi = float(threshold + float(actual_range / 100))\<close>. This holds for every sample
  sequence and every initial detector state, and for every narrowing \<open>to_float\<close>, so
  for \<open>static_cast_float\<close>.
\<close>

theorem analog_trigger_hysteresis:
  assumes "find_analog_triggers to_float samples nsamples s = Return offs s'"
  shows "(rising_or_high (trg_direction (d_trigger_settings s)) \<longrightarrow>
            (\<forall>i \<in> set offs.
                int i < nsamples \<and> i < length samples
              \<and> trg_threshold (d_trigger_settings s) \<le> samples ! i
              \<and> (\<exists>offs_i s_i. find_analog_triggers to_float samples (int i) s = Return offs_i s_i
                    \<and> d_trigger_state s_i = 0))
          \<and> (\<forall>m. Suc m < length offs \<longrightarrow>
                offs ! m < offs ! Suc m
              \<and> (\<exists>idstr aichan k. trg_source (d_trigger_settings s) = Channel_source idstr
                    \<and> convert_to_aichan_idx idstr s = Return aichan s
                    \<and> offs ! m \<le> k \<and> k < offs ! Suc m
                    \<and> samples ! k \<le> to_float (trg_threshold (d_trigger_settings s)
                          - to_float (ch_actual_range (d_channel_settings s ! nat aichan) / 100)))))
       \<and> (falling_or_low (trg_direction (d_trigger_settings s)) \<longrightarrow>
            (\<forall>i \<in> set offs.
                int i < nsamples \<and> i < length samples
              \<and> samples ! i \<le> trg_threshold (d_trigger_settings s)
              \<and> (\<exists>offs_i s_i. find_analog_triggers to_float samples (int i) s = Return offs_i s_i
                    \<and> d_trigger_state s_i \<noteq> 0))
          \<and> (\<forall>m. Suc m < length offs \<longrightarrow>
                offs ! m < offs ! Suc m
              \<and> (\<exists>idstr aichan k. trg_source (d_trigger_settings s) = Channel_source idstr
                    \<and> convert_to_aichan_idx idstr s = Return aichan s
                    \<and> offs ! m \<le> k \<and> k < offs ! Suc m
                    \<and> to_float (trg_threshold (d_trigger_settings s)
                          + to_float (ch_actual_range (d_channel_settings s ! nat aichan) / 100))
                        \<le> samples ! k)))"
proof (intro conjI impI ballI allI)
  fix i
  assume "rising_or_high (trg_direction (d_trigger_settings s))" and "i \<in> set offs"
  from analog_rising_fires [OF assms this]
  show "int i < nsamples" and "i < length samples"
    and "trg_threshold (d_trigger_settings s) \<le> samples ! i"
    and "\<exists>offs_i s_i. find_analog_triggers to_float samples (int i) s = Return offs_i s_i
           \<and> d_trigger_state s_i = 0"
    by simp_all
next
  fix m
  assume "rising_or_high (trg_direction (d_trigger_settings s))" and "Suc m < length offs"
  from analog_rising_between [OF assms this]
  show "offs ! m < offs ! Suc m"
    and "\<exists>idstr aichan k. trg_source (d_trigger_settings s) = Channel_source idstr
           \<and> convert_to_aichan_idx idstr s = Return aichan s
           \<and> offs ! m \<le> k \<and> k < offs ! Suc m
           \<and> samples ! k \<le> to_float (trg_threshold (d_trigger_settings s)
                 - to_float (ch_actual_range (d_channel_settings s ! nat aichan) / 100))"
    by simp_all
next
  fix i
  assume "falling_or_low (trg_direction (d_trigger_settings s))" and "i \<in> set offs"
  from analog_falling_fires [OF assms this]
  show "int i < nsamples" and "i < length samples"
    and "samples ! i \<le> trg_threshold (d_trigger_settings s)"
    and "\<exists>offs_i s_i. find_analog_triggers to_float samples (int i) s = Return offs_i s_i
           \<and> d_trigger_state s_i \<noteq> 0"
    by simp_all
next
  fix m
  assume "falling_or_low (trg_direction (d_trigger_settings s))" and "Suc m < length offs"
  from analog_falling_between [OF assms this]
  show "offs ! m < offs ! Suc m"
    and "\<exists>idstr aichan k. trg_source (d_trigger_settings s) = Channel_source idstr
           \<and> convert_to_aichan_idx idstr s = Return aichan s
           \<and> offs ! m \<le> k \<and> k < offs ! Suc m
           \<and> to_float (trg_threshold (d_trigger_settings s)
                 + to_float (ch_actual_range (d_channel_settings s ! nat aichan) / 100))
               \<le> samples ! k"
    by simp_all
qed

theorem analog_trigger_hysteresis_witness:
  "find_analog_triggers static_cast_float [0, 2, 1 / 2, 3] 4 ai_test_block
     = Return [1, 3] (ai_test_block\<lparr>d_trigger_state := 1\<rparr>)
   \<and> rising_or_high (trg_direction (d_trigger_settings ai_test_block))
   \<and> (\<exists>k. 1 \<le> k \<and> k < 3 \<and> [0, 2, 1 / 2, 3 :: real] ! k \<le> 15938355 / 16777216)
   \<and> find_analog_triggers static_cast_float
        [4404019 / 4194304, 1 / 2, 4404019 / 4194304, 1 / 2] 4 falling_test_block
     = Return [1, 3] (falling_test_block\<lparr>d_trigger_state := 0\<rparr>)
   \<and> falling_or_low (trg_direction (d_trigger_settings falling_test_block))
   \<and> (\<exists>k. 1 \<le> k \<and> k < 3
          \<and> 4404019 / 4194304 \<le> [4404019 / 4194304, 1 / 2, 4404019 / 4194304, 1 / 2 :: real] ! k)"
proof -
  have rdir: "rising_or_high (trg_direction (d_trigger_settings ai_test_block))"
    by (simp add: ai_test_block_eq rising_or_high_def)
  have fdir: "falling_or_low (trg_direction (d_trigger_settings falling_test_block))"
    by (simp add: falling_test_block_eq falling_or_low_def)
  from analog_trigger_hysteresis [OF ai_float_scan] rdir
  have "\<forall>m. Suc m < length [1, 3 :: nat] \<longrightarrow>
          (\<exists>idstr aichan k. trg_source (d_trigger_settings ai_test_block) = Channel_source idstr
              \<and> convert_to_aichan_idx idstr ai_test_block = Return aichan ai_test_block
              \<and> [1, 3] ! m \<le> k \<and> k < [1, 3] ! Suc m
              \<and> [0, 2, 1 / 2, 3] ! k \<le> static_cast_float (trg_threshold (d_trigger_settings ai_test_block)
                    - static_cast_float
                        (ch_actual_range (d_channel_settings ai_test_block ! nat aichan) / 100)))"
    by blast
  then obtain idstr aichan k where
    conv: "convert_to_aichan_idx idstr ai_test_block = Return aichan ai_test_block"
    and k: "1 \<le> k" "k < 3"
      "[0, 2, 1 / 2, 3] ! k \<le> static_cast_float (trg_threshold (d_trigger_settings ai_test_block)
          - static_cast_float (ch_actual_range (d_channel_settings ai_test_block ! nat aichan) / 100))"
      and src: "trg_source (d_trigger_settings ai_test_block) = Channel_source idstr"
    by fastforce
  from src have "idstr = ''A''"
    by (simp add: ai_test_block_eq)
  with conv have "aichan = 0"
    by (simp add: test_channel_A)
  with k rising_levels have rk: "[0, 2, 1 / 2, 3 :: real] ! k \<le> 15938355 / 16777216"
    by (simp add: analog_lo_def analog_band_def)
  from analog_trigger_hysteresis [OF falling_test_scan] fdir
  have "\<forall>m. Suc m < length [1, 3 :: nat] \<longrightarrow>
          (\<exists>idstr aichan k. trg_source (d_trigger_settings falling_test_block) = Channel_source idstr
              \<and> convert_to_aichan_idx idstr falling_test_block = Return aichan falling_test_block
              \<and> [1, 3] ! m \<le> k \<and> k < [1, 3] ! Suc m
              \<and> static_cast_float (trg_threshold (d_trigger_settings falling_test_block)
                    + static_cast_float
                        (ch_actual_range (d_channel_settings falling_test_block ! nat aichan) / 100))
                  \<le> [4404019 / 4194304, 1 / 2, 4404019 / 4194304, 1 / 2] ! k)"
    by blast
  then obtain idstr' aichan' k' where
    conv': "convert_to_aichan_idx idstr' falling_test_block = Return aichan' falling_test_block"
    and k': "1 \<le> k'" "k' < 3"
      "static_cast_float (trg_threshold (d_trigger_settings falling_test_block)
          + static_cast_float
              (ch_actual_range (d_channel_settings falling_test_block ! nat aichan') / 100))
        \<le> [4404019 / 4194304, 1 / 2, 4404019 / 4194304, 1 / 2] ! k'"
      and src': "trg_source (d_trigger_settings falling_test_block) = Channel_source idstr'"
    by fastforce
  from src' have "idstr' = ''A''"
    by (simp add: falling_test_block_eq)
  with conv' have "aichan' = 0"
    by (simp add: test_channel_A)
  with k' falling_levels
  have fk: "4404019 / 4194304 \<le> [4404019 / 4194304, 1 / 2, 4404019 / 4194304, 1 / 2 :: real] ! k'"
    by (simp add: analog_hi_def analog_band_def)
  from k rk k' fk ai_float_scan falling_test_scan rdir fdir show ?thesis
    by blast
qed


subsection \<open>Setters on an armed block\<close>








subsection \<open>What a step of the worker leaves untouched\<close>

lemma bind_outcome_Return:
  "bind_outcome m f = Return v s' \<Longrightarrow> \<exists>x t. m = Return x t \<and> f x t = Return v s'"
  by (cases m) simp_all

lemma tags_only_refl: "tags_only s s"
  unfolding tags_only_def by (intro exI [of _ "[]"]) simp

lemma tags_only_trans: "tags_only s t \<Longrightarrow> tags_only t u \<Longrightarrow> tags_only s u"
proof -
  assume "tags_only s t" and "tags_only t u"
  then obtain a b where a: "t = s\<lparr>gr_item_tags := gr_item_tags s @ a\<rparr>" "\<forall>p \<in> set a. \<not> is_timebase_tag p"
    and b: "u = t\<lparr>gr_item_tags := gr_item_tags t @ b\<rparr>" "\<forall>p \<in> set b. \<not> is_timebase_tag p"
    unfolding tags_only_def by blast
  from a(1) b(1) have "u = s\<lparr>gr_item_tags := gr_item_tags s @ (a @ b)\<rparr>"
    by simp
  moreover from a(2) b(2) have "\<forall>p \<in> set (a @ b). \<not> is_timebase_tag p"
    by auto
  ultimately show ?thesis
    unfolding tags_only_def by blast
qed

lemma tags_only_add_item_tag:
  "\<not> is_timebase_tag (i, tag) \<Longrightarrow> tags_only s (add_item_tag i tag s)"
  unfolding tags_only_def add_item_tag_def by (intro exI [of _ "[(i, tag)]"]) simp

lemma tags_only_fields:
  assumes "tags_only s s'"
  shows "d_channel_settings s' = d_channel_settings s" "d_port_settings s' = d_port_settings s"
    "d_ai_channels s' = d_ai_channels s" "d_ports s' = d_ports s" "d_status s' = d_status s"
    "d_bstate s' = d_bstate s" "driver_trace s' = driver_trace s"
    "d_was_triggered_once s' = d_was_triggered_once s" "d_trigger_once s' = d_trigger_once s"
    "d_nr_captures s' = d_nr_captures s" "d_acquisition_mode s' = d_acquisition_mode s"
    "d_timebase_published s' = d_timebase_published s" "d_buffer_size s' = d_buffer_size s"
proof -
  from assms obtain tags where "s' = s\<lparr>gr_item_tags := gr_item_tags s @ tags\<rparr>"
    unfolding tags_only_def by blast
  then show "d_channel_settings s' = d_channel_settings s" "d_port_settings s' = d_port_settings s"
    "d_ai_channels s' = d_ai_channels s" "d_ports s' = d_ports s" "d_status s' = d_status s"
    "d_bstate s' = d_bstate s" "driver_trace s' = driver_trace s"
    "d_was_triggered_once s' = d_was_triggered_once s" "d_trigger_once s' = d_trigger_once s"
    "d_nr_captures s' = d_nr_captures s" "d_acquisition_mode s' = d_acquisition_mode s"
    "d_timebase_published s' = d_timebase_published s" "d_buffer_size s' = d_buffer_size s"
    by simp_all
qed

lemma tags_only_worker_step:
  assumes "tags_only s s'"
  shows "worker_step s s'"
proof -
  from assms obtain tags where s': "s' = s\<lparr>gr_item_tags := gr_item_tags s @ tags\<rparr>"
    and nt: "\<forall>p \<in> set tags. \<not> is_timebase_tag p"
    unfolding tags_only_def by blast
  from nt have "filter is_timebase_tag tags = []"
    by (simp add: filter_empty_conv)
  with s' show ?thesis
    by (simp add: worker_step_def same_config_def timebase_tags_def arm_count_def)
qed

lemma same_config_refl: "same_config s s"
  by (simp add: same_config_def)

lemma same_config_trans: "same_config s t \<Longrightarrow> same_config t u \<Longrightarrow> same_config s u"
  by (simp add: same_config_def)

lemma worker_step_refl: "worker_step s s"
  by (simp add: worker_step_def same_config_refl)

lemma worker_step_trans:
  assumes "worker_step s t" and "worker_step t u"
  shows "worker_step s u"
proof -
  from assms have cfg: "same_config s u"
    unfolding worker_step_def by (blast intro: same_config_trans)
  from assms have tb: "timebase_tags u = timebase_tags s"
    unfolding worker_step_def by simp
  from assms have ac: "arm_count s \<le> arm_count t" "arm_count t \<le> arm_count u"
    unfolding worker_step_def by simp_all
  from assms have pub1: "d_timebase_published u \<longrightarrow> d_timebase_published s"
    unfolding worker_step_def by blast
  from assms have wto: "d_was_triggered_once s \<longrightarrow> d_was_triggered_once u"
    unfolding worker_step_def by blast
  have pub2: "d_timebase_published s \<and> arm_count u = arm_count s \<longrightarrow> d_timebase_published u"
  proof
    assume h: "d_timebase_published s \<and> arm_count u = arm_count s"
    with ac have e: "arm_count t = arm_count s" "arm_count u = arm_count t"
      by simp_all
    from assms(1) h e(1) have "d_timebase_published t"
      unfolding worker_step_def by blast
    with assms(2) e(2) show "d_timebase_published u"
      unfolding worker_step_def by blast
  qed
  from cfg tb ac pub1 pub2 wto show ?thesis
    unfolding worker_step_def by simp
qed

lemma tags_only_acq: "tags_only s (add_item_tag i (make_acq_info_tag info) s)"
  by (intro tags_only_add_item_tag) (simp add: is_timebase_tag_def make_acq_info_tag_def)

lemma is_timebase_tag_slot: "is_timebase_tag (i, tag) = is_timebase_tag (0, tag)"
  by (simp add: is_timebase_tag_def)

lemma attach_acq_info_tags_tags_only:
  "attach_acq_info_tags tag_info channel_status is output_idx s = Return v s' \<Longrightarrow> tags_only s s'"
proof (induction "is" arbitrary: output_idx s)
  case Nil
  then show ?case by (simp add: tags_only_refl)
next
  case (Cons i "is")
  show ?case
  proof (cases "i < length (d_channel_settings s) \<and> ch_enabled (d_channel_settings s ! i)")
    case True
    let ?t = "add_item_tag output_idx
                (make_acq_info_tag (tag_info\<lparr>acq_status := channel_status ! i\<rparr>)) s"
    have st: "d_channel_settings ?t = d_channel_settings s"
      by (simp add: add_item_tag_def)
    from Cons.prems True have "attach_acq_info_tags tag_info channel_status is (output_idx + 2) ?t = Return v s'"
      by (simp split: if_splits)
    from Cons.IH [OF this] have "tags_only ?t s'" .
    with tags_only_acq [of s output_idx] show ?thesis
      by (blast intro: tags_only_trans)
  next
    case False
    with Cons.prems have "attach_acq_info_tags tag_info channel_status is output_idx s = Return v s'"
      by (simp split: if_splits)
    from Cons.IH [OF this] show ?thesis .
  qed
qed

lemma attach_channel_tags_tags_only:
  "attach_channel_tags tag is output_idx s = Return v s' \<Longrightarrow> \<not> is_timebase_tag (0, tag) \<Longrightarrow>
     tags_only s s'"
proof (induction "is" arbitrary: output_idx s)
  case Nil
  then show ?case by (simp add: tags_only_refl)
next
  case (Cons i "is")
  show ?case
  proof (cases "i < length (d_channel_settings s) \<and> ch_enabled (d_channel_settings s ! i)")
    case True
    let ?t = "add_item_tag output_idx tag s"
    from Cons.prems True have "attach_channel_tags tag is (output_idx + 2) ?t = Return v s'"
      by (simp split: if_splits)
    from Cons.IH [OF this Cons.prems(2)] have "tags_only ?t s'" .
    moreover have "tags_only s ?t"
      using Cons.prems(2) is_timebase_tag_slot [of output_idx tag] by (intro tags_only_add_item_tag) simp
    ultimately show ?thesis
      by (blast intro: tags_only_trans)
  next
    case False
    with Cons.prems have "attach_channel_tags tag is output_idx s = Return v s'"
      by (simp split: if_splits)
    from Cons.IH [OF this Cons.prems(2)] show ?thesis .
  qed
qed

lemma attach_port_tags_tags_only:
  "attach_port_tags tag is output_idx s = Return v s' \<Longrightarrow> \<not> is_timebase_tag (0, tag) \<Longrightarrow>
     tags_only s s'"
proof (induction "is" arbitrary: output_idx s)
  case Nil
  then show ?case by (simp add: tags_only_refl)
next
  case (Cons i "is")
  show ?case
  proof (cases "i < length (d_port_settings s) \<and> port_enabled (d_port_settings s ! i)")
    case True
    let ?t = "add_item_tag output_idx tag s"
    from Cons.prems True have "attach_port_tags tag is (Suc output_idx) ?t = Return v s'"
      by (simp split: if_splits)
    from Cons.IH [OF this Cons.prems(2)] have "tags_only ?t s'" .
    moreover have "tags_only s ?t"
      using Cons.prems(2) is_timebase_tag_slot [of output_idx tag] by (intro tags_only_add_item_tag) simp
    ultimately show ?thesis
      by (blast intro: tags_only_trans)
  next
    case False
    with Cons.prems have "attach_port_tags tag is output_idx s = Return v s'"
      by (simp split: if_splits)
    from Cons.IH [OF this Cons.prems(2)] show ?thesis .
  qed
qed

lemma attach_trigger_tags_tags_only:
  "attach_trigger_tags env offs s = Return v s' \<Longrightarrow> tags_only s s'"
proof (induction offs arbitrary: s)
  case Nil
  then show ?case by (simp add: tags_only_refl)
next
  case (Cons trigger_offset rest)
  let ?tag = "make_trigger_tag\<lparr>tag_offset := nitems_written_0 env + of_nat trigger_offset\<rparr>"
  have nt: "\<not> is_timebase_tag (0, ?tag)"
    by (simp add: is_timebase_tag_def make_trigger_tag_def)
  from Cons.prems have "bind_outcome (attach_channel_tags ?tag [0..<nat (d_ai_channels s)] 0 s)
           (\<lambda>output_idx s.
              bind_outcome (attach_port_tags ?tag [0..<nat (d_ports s)] output_idx s)
                (\<lambda>_ s. attach_trigger_tags env rest s)) = Return v s'"
    by (simp add: Let_def)
  then obtain idx t where
    a: "attach_channel_tags ?tag [0..<nat (d_ai_channels s)] 0 s = Return idx t"
    and r1: "bind_outcome (attach_port_tags ?tag [0..<nat (d_ports t)] idx t)
               (\<lambda>_ s. attach_trigger_tags env rest s) = Return v s'"
    by (blast dest: bind_outcome_Return)
  from r1 obtain u t' where
    b: "attach_port_tags ?tag [0..<nat (d_ports t)] idx t = Return u t'"
    and c: "attach_trigger_tags env rest t' = Return v s'"
    by (blast dest: bind_outcome_Return)
  from attach_channel_tags_tags_only [OF a nt] attach_port_tags_tags_only [OF b nt] Cons.IH [OF c]
  show ?case
    by (blast intro: tags_only_trans)
qed

lemma wire_ai_buffers_state:
  "wire_ai_buffers env is idx b s = Return v s' \<Longrightarrow> s' = s"
  by (induction "is" arbitrary: idx b) (simp_all split: if_splits)

lemma wire_port_buffers_state:
  "wire_port_buffers env is idx b s = Return v s' \<Longrightarrow> s' = s"
  by (induction "is" arbitrary: idx b) (simp_all split: if_splits)

lemma trigger_state_worker_step: "worker_step s (s\<lparr>d_trigger_state := st\<rparr>)"
  by (simp add: worker_step_def same_config_def timebase_tags_def arm_count_def)

lemma find_analog_triggers_worker_step:
  assumes "find_analog_triggers to_float samples nsamples s = Return offs s'"
  shows "worker_step s s'"
proof (cases "trg_source (d_trigger_settings s)")
  case (Channel_source idstr)
  show ?thesis
  proof (cases "convert_to_aichan_idx idstr s")
    case (Return aichan t)
    then have "t = s"
      by (rule convert_to_aichan_idx_state)
    with assms Channel_source Return show ?thesis
      by (auto simp: find_analog_triggers_def worker_step_refl trigger_state_worker_step
          split: if_splits prod.splits)
  next
    case (Throw e t)
    with assms Channel_source show ?thesis
      by (auto simp: find_analog_triggers_def worker_step_refl split: if_splits)
  qed
qed (use assms in \<open>auto simp: find_analog_triggers_def worker_step_refl is_analog_def is_enabled_def split: if_splits\<close>)

lemma find_digital_triggers_worker_step:
  assumes "find_digital_triggers samples nsamples msk s = Return offs s'"
  shows "worker_step s s'"
  using assms
  by (auto simp: find_digital_triggers_def worker_step_refl trigger_state_worker_step
      split: if_splits prod.splits)

lemma detect_stream_triggers_worker_step:
  assumes "detect_stream_triggers env s = Return offs s'"
  shows "worker_step s s'"
proof (cases "is_analog (d_trigger_settings s)")
  case True
  then obtain idstr where src: "trg_source (d_trigger_settings s) = Channel_source idstr"
    using assms by (cases "trg_source (d_trigger_settings s)") (auto simp: detect_stream_triggers_def)
  show ?thesis
  proof (cases "convert_to_aichan_idx idstr s")
    case (Return aichan t)
    then have t: "t = s"
      by (rule convert_to_aichan_idx_state)
    from assms True src Return t obtain buffer where
      "find_analog_triggers (env_to_float env) buffer (sint (d_buffer_size s)) s = Return offs s'"
      by (auto simp: detect_stream_triggers_def Let_def split: if_splits out_buffer.splits)
    then show ?thesis
      by (rule find_analog_triggers_worker_step)
  next
    case (Throw e t)
    with assms True src show ?thesis
      by (simp add: detect_stream_triggers_def)
  qed
next
  case False
  show ?thesis
  proof (cases "is_digital (d_trigger_settings s)")
    case True
    with assms False obtain buffer msk where
      "find_digital_triggers buffer (sint (d_buffer_size s)) msk s = Return offs s'"
      by (auto simp: detect_stream_triggers_def Let_def split: if_splits out_buffer.splits)
    then show ?thesis
      by (rule find_digital_triggers_worker_step)
  next
    case nd: False
    with assms False show ?thesis
      by (simp add: detect_stream_triggers_def worker_step_refl)
  qed
qed

lemma add_error_code_worker_step: "worker_step s (add_error_code ec s)"
  by (simp add: add_error_code_def worker_step_def same_config_def timebase_tags_def arm_count_def)

lemma disarm_Return: "\<exists>s'. disarm env s = Return () s'"
  by (simp add: disarm_def Let_def)

lemma disarm_worker_step: "worker_step s (outcome_state (disarm env s))"
  by (simp add: disarm_def Let_def worker_step_def same_config_def timebase_tags_def arm_count_def
      add_error_code_def transit_poll_thread_to_idle_def)


lemma arm_worker_step: "worker_step s (outcome_state (arm env s))"
  by (simp add: arm_def Let_def worker_step_def same_config_def timebase_tags_def arm_count_def
      add_error_code_def transit_poll_thread_to_running_def)

subsection \<open>The streaming worker\<close>

lemma tags_only_arm_count: "tags_only s s' \<Longrightarrow> arm_count s' = arm_count s"
  by (simp add: arm_count_def tags_only_fields)

lemma detect_stream_triggers_arm_count:
  assumes "detect_stream_triggers env s = Return offs s'"
  shows "arm_count s' = arm_count s"
proof -
  have fa: "arm_count t' = arm_count t"
    if "find_analog_triggers tf buf n t = Return offs t'" for tf buf n t t'
  proof (cases "trg_source (d_trigger_settings t)")
    case (Channel_source idstr)
    show ?thesis
    proof (cases "convert_to_aichan_idx idstr t")
      case (Return aichan u)
      then have "u = t"
        by (rule convert_to_aichan_idx_state)
      with that Channel_source Return show ?thesis
        by (auto simp: find_analog_triggers_def arm_count_def split: if_splits prod.splits)
    next
      case (Throw e u)
      with that Channel_source show ?thesis
        by (auto simp: find_analog_triggers_def split: if_splits)
    qed
  qed (use that in \<open>auto simp: find_analog_triggers_def is_analog_def is_enabled_def
        split: if_splits\<close>)
  have fd: "arm_count t' = arm_count t"
    if "find_digital_triggers buf n m t = Return offs t'" for buf n m t t'
    using that
    by (auto simp: find_digital_triggers_def arm_count_def split: if_splits prod.splits)
  show ?thesis
  proof (cases "is_analog (d_trigger_settings s)")
    case True
    then obtain idstr where src: "trg_source (d_trigger_settings s) = Channel_source idstr"
      using assms by (cases "trg_source (d_trigger_settings s)") (auto simp: detect_stream_triggers_def)
    show ?thesis
    proof (cases "convert_to_aichan_idx idstr s")
      case (Return aichan t)
      then have t: "t = s"
        by (rule convert_to_aichan_idx_state)
      from assms True src Return t obtain buffer where
        "find_analog_triggers (env_to_float env) buffer (sint (d_buffer_size s)) s = Return offs s'"
        by (auto simp: detect_stream_triggers_def Let_def split: if_splits out_buffer.splits)
      then show ?thesis
        by (rule fa)
    next
      case (Throw e t)
      with assms True src show ?thesis
        by (simp add: detect_stream_triggers_def)
    qed
  next
    case False
    show ?thesis
    proof (cases "is_digital (d_trigger_settings s)")
      case True
      with assms False obtain buffer msk where
        "find_digital_triggers buffer (sint (d_buffer_size s)) msk s = Return offs s'"
        by (auto simp: detect_stream_triggers_def Let_def split: if_splits out_buffer.splits)
      then show ?thesis
        by (rule fd)
    next
      case nd: False
      with assms False show ?thesis
        by (simp add: detect_stream_triggers_def)
    qed
  qed
qed

lemma worker_step_buffer_size: "worker_step s s' \<Longrightarrow> d_buffer_size s' = d_buffer_size s"
  by (simp add: worker_step_def same_config_def)

lemma work_stream_data:
  assumes ret: "bind_outcome (wire_ai_buffers env [0..<nat (d_ai_channels s)] 0 0 s)
               (\<lambda>output_items_idx s.
             bind_outcome (wire_port_buffers env [0..<nat (d_ports s)] output_items_idx 0 s)
               (\<lambda>_ s.
             bind_outcome (attach_acq_info_tags (stream_tag_info env s) (chunk_channel_status env)
                             [0..<nat (d_ai_channels s)] 0 s)
               (\<lambda>output_idx s.
             bind_outcome (attach_port_tags (make_acq_info_tag (stream_tag_info env s))
                             [0..<nat (d_ports s)] output_idx s)
               (\<lambda>_ s.
             bind_outcome (detect_stream_triggers env s)
               (\<lambda>trigger_offsets s.
             bind_outcome (attach_trigger_tags env trigger_offsets s)
               (\<lambda>_ s. Return (d_buffer_size s) s)))))) = Return r s'"
  shows "worker_step s s' \<and> r = d_buffer_size s \<and> arm_count s' = arm_count s"
proof -
  from ret obtain i1 t1 where
    w1: "wire_ai_buffers env [0..<nat (d_ai_channels s)] 0 0 s = Return i1 t1"
    and r1: "bind_outcome (wire_port_buffers env [0..<nat (d_ports t1)] i1 0 t1)
               (\<lambda>_ s.
             bind_outcome (attach_acq_info_tags (stream_tag_info env s) (chunk_channel_status env)
                             [0..<nat (d_ai_channels s)] 0 s)
               (\<lambda>output_idx s.
             bind_outcome (attach_port_tags (make_acq_info_tag (stream_tag_info env s))
                             [0..<nat (d_ports s)] output_idx s)
               (\<lambda>_ s.
             bind_outcome (detect_stream_triggers env s)
               (\<lambda>trigger_offsets s.
             bind_outcome (attach_trigger_tags env trigger_offsets s)
               (\<lambda>_ s. Return (d_buffer_size s) s))))) = Return r s'"
    by (blast dest: bind_outcome_Return)
  from r1 obtain i2 t2 where
    w2: "wire_port_buffers env [0..<nat (d_ports t1)] i1 0 t1 = Return i2 t2"
    and r2: "bind_outcome (attach_acq_info_tags (stream_tag_info env t2) (chunk_channel_status env)
                             [0..<nat (d_ai_channels t2)] 0 t2)
               (\<lambda>output_idx s.
             bind_outcome (attach_port_tags (make_acq_info_tag (stream_tag_info env s))
                             [0..<nat (d_ports s)] output_idx s)
               (\<lambda>_ s.
             bind_outcome (detect_stream_triggers env s)
               (\<lambda>trigger_offsets s.
             bind_outcome (attach_trigger_tags env trigger_offsets s)
               (\<lambda>_ s. Return (d_buffer_size s) s)))) = Return r s'"
    by (blast dest: bind_outcome_Return)
  from r2 obtain i3 t3 where
    a3: "attach_acq_info_tags (stream_tag_info env t2) (chunk_channel_status env)
           [0..<nat (d_ai_channels t2)] 0 t2 = Return i3 t3"
    and r3: "bind_outcome (attach_port_tags (make_acq_info_tag (stream_tag_info env t3))
                             [0..<nat (d_ports t3)] i3 t3)
               (\<lambda>_ s.
             bind_outcome (detect_stream_triggers env s)
               (\<lambda>trigger_offsets s.
             bind_outcome (attach_trigger_tags env trigger_offsets s)
               (\<lambda>_ s. Return (d_buffer_size s) s))) = Return r s'"
    by (blast dest: bind_outcome_Return)
  from r3 obtain i4 t4 where
    a4: "attach_port_tags (make_acq_info_tag (stream_tag_info env t3))
           [0..<nat (d_ports t3)] i3 t3 = Return i4 t4"
    and r4: "bind_outcome (detect_stream_triggers env t4)
               (\<lambda>trigger_offsets s.
             bind_outcome (attach_trigger_tags env trigger_offsets s)
               (\<lambda>_ s. Return (d_buffer_size s) s)) = Return r s'"
    by (blast dest: bind_outcome_Return)
  from r4 obtain offs t5 where
    d5: "detect_stream_triggers env t4 = Return offs t5"
    and r5: "bind_outcome (attach_trigger_tags env offs t5)
               (\<lambda>_ s. Return (d_buffer_size s) s) = Return r s'"
    by (blast dest: bind_outcome_Return)
  from r5 obtain u t6 where
    a6: "attach_trigger_tags env offs t5 = Return u t6"
    and r6: "Return (d_buffer_size t6) t6 = Return r s'"
    by (blast dest: bind_outcome_Return)
  have "t1 = s" using w1 by (rule wire_ai_buffers_state)
  moreover have "t2 = t1" using w2 by (rule wire_port_buffers_state)
  moreover have "worker_step t2 t3"
    using a3 by (intro tags_only_worker_step attach_acq_info_tags_tags_only)
  moreover have "worker_step t3 t4"
    using a4 by (intro tags_only_worker_step attach_port_tags_tags_only [OF a4])
      (simp add: is_timebase_tag_def make_acq_info_tag_def)
  moreover have "worker_step t4 t5"
    using d5 by (rule detect_stream_triggers_worker_step)
  moreover have "worker_step t5 t6"
    using a6 by (intro tags_only_worker_step attach_trigger_tags_tags_only)
  ultimately have "worker_step s t6"
    by (blast intro: worker_step_trans)
  moreover have "arm_count t6 = arm_count s"
  proof -
    have "arm_count t1 = arm_count s"
      using wire_ai_buffers_state [OF w1] by simp
    moreover have "arm_count t2 = arm_count t1"
      using wire_port_buffers_state [OF w2] by simp
    moreover have "arm_count t3 = arm_count t2"
      using a3 by (intro tags_only_arm_count attach_acq_info_tags_tags_only)
    moreover have "arm_count t4 = arm_count t3"
      using a4 by (intro tags_only_arm_count attach_port_tags_tags_only [OF a4])
        (simp add: is_timebase_tag_def make_acq_info_tag_def)
    moreover have "arm_count t5 = arm_count t4"
      using d5 by (rule detect_stream_triggers_arm_count)
    moreover have "arm_count t6 = arm_count t5"
      using a6 by (intro tags_only_arm_count attach_trigger_tags_tags_only)
    ultimately show ?thesis
      by simp
  qed
  ultimately show ?thesis
    using r6 by (simp add: worker_step_buffer_size)
qed

lemma work_stream_Return:
  assumes ret: "work_stream env noutput_items s = Return r s'"
  shows "worker_step s s'
       \<and> sint (d_buffer_size s) \<le> sint noutput_items
       \<and> (r = - 1 \<or> r = 0 \<or> r = d_buffer_size s)
       \<and> (0 < sint r \<longrightarrow> arm_count s' = arm_count s)"
proof -
  let ?ec = "wait_data_ready_ec env"
  let ?s1 = "if ec_set ?ec then add_error_code ?ec s else s"
  have s1: "worker_step s ?s1"
    by (simp add: add_error_code_worker_step worker_step_refl)
  from ret have pre: "sint (d_buffer_size s) \<le> sint noutput_items"
    by (auto simp: work_stream_def split: if_splits)
  consider (stopped) "?ec = Block_errc Stopped"
    | (watchdog) "?ec = Block_errc Watchdog"
    | (other) "?ec \<noteq> Block_errc Stopped" "?ec \<noteq> Block_errc Watchdog" "ec_set ?ec"
    | (data) "?ec = No_error"
    by (auto simp: ec_set_def)
  then have "worker_step s s' \<and> (r = - 1 \<or> r = 0 \<or> r = d_buffer_size s)
      \<and> (0 < sint r \<longrightarrow> arm_count s' = arm_count s)"
  proof cases
    case stopped
    with ret pre have "s' = ?s1" "r = - 1"
      by (auto simp: work_stream_def Let_def ec_set_def)
    with s1 show ?thesis by simp
  next
    case watchdog
    with ret pre have b: "bind_outcome (disarm env ?s1) (\<lambda>_ s.
                  bind_outcome (arm env s) (\<lambda>_ s. Return 0 s)) = Return r s'"
      by (simp add: work_stream_def Let_def ec_set_def)
    then obtain u t where d: "disarm env ?s1 = Return u t"
      and b2: "bind_outcome (arm env t) (\<lambda>_ s. Return 0 s) = Return r s'"
      by (blast dest: bind_outcome_Return)
    from b2 obtain u' where a: "arm env t = Return u' s'" and r: "r = 0"
      by (auto dest!: bind_outcome_Return)
    from disarm_worker_step [of ?s1 env] d have "worker_step ?s1 t" by simp
    moreover from arm_worker_step [of t env] a have "worker_step t s'" by simp
    ultimately have "worker_step s s'"
      using s1 by (blast intro: worker_step_trans)
    with r show ?thesis by simp
  next
    case other
    with ret pre have "s' = ?s1" "r = - 1"
      by (auto simp: work_stream_def Let_def ec_set_def)
    with s1 show ?thesis by simp
  next
    case data
    with ret pre have "bind_outcome (wire_ai_buffers env [0..<nat (d_ai_channels s)] 0 0 s)
               (\<lambda>output_items_idx s.
             bind_outcome (wire_port_buffers env [0..<nat (d_ports s)] output_items_idx 0 s)
               (\<lambda>_ s.
             bind_outcome (attach_acq_info_tags (stream_tag_info env s) (chunk_channel_status env)
                             [0..<nat (d_ai_channels s)] 0 s)
               (\<lambda>output_idx s.
             bind_outcome (attach_port_tags (make_acq_info_tag (stream_tag_info env s))
                             [0..<nat (d_ports s)] output_idx s)
               (\<lambda>_ s.
             bind_outcome (detect_stream_triggers env s)
               (\<lambda>trigger_offsets s.
             bind_outcome (attach_trigger_tags env trigger_offsets s)
               (\<lambda>_ s. Return (d_buffer_size s) s)))))) = Return r s'"
      by (simp add: work_stream_def Let_def ec_set_def)
    from work_stream_data [OF this] show ?thesis by simp
  qed
  with pre show ?thesis by simp
qed

lemma fold_add_item_tag:
  "fold (\<lambda>i. add_item_tag i tag) is s = s\<lparr>gr_item_tags := gr_item_tags s @ map (\<lambda>i. (i, tag)) is\<rparr>"
  by (induction "is" arbitrary: s) (simp_all add: add_item_tag_def)

lemma publish_timebase_eq:
  "publish_timebase env s =
     s\<lparr>gr_item_tags := gr_item_tags s @
          map (\<lambda>i. (i, \<lparr>tag_offset = nitems_written_0 env,
                         tag_value = Timebase_info_tag (get_timebase_with_downsampling s)\<rparr>))
            [0..<length (output_items env)],
       d_timebase_published := True\<rparr>"
  by (simp add: publish_timebase_def fold_add_item_tag make_timebase_info_tag_def Let_def)

lemma work_Return:
  assumes "work env noutput_items s = Return r s'"
  shows "\<exists>mid. (case d_acquisition_mode s of
                  STREAMING \<Rightarrow> work_stream env noutput_items s
                | RAPID_BLOCK \<Rightarrow> work_rapid_block env noutput_items s) = Return r mid
          \<and> s' = (if 0 < sint r \<and> \<not> d_timebase_published mid then publish_timebase env mid else mid)"
  using assms unfolding work_def by (auto dest!: bind_outcome_Return split: if_splits)

text \<open>
  C1. If \<^verbatim>\<open>work\<close> is called in STREAMING mode and returns \<open>n > 0\<close>, then \<open>n\<close> is the
  configured \<open>d_buffer_size\<close> (as a word and as a number), the call has left
  \<open>d_buffer_size\<close> as it was, and the precondition \<open>noutput_items \<ge> buffer_size\<close> held.
\<close>

theorem streaming_work_returns_buffer_size:
  assumes "d_acquisition_mode s = STREAMING"
    and "work env noutput_items s = Return n s'"
    and "0 < sint n"
  shows "n = d_buffer_size s
       \<and> sint n = uint (d_buffer_size s)
       \<and> d_buffer_size s' = d_buffer_size s
       \<and> sint (d_buffer_size s) \<le> sint noutput_items"
proof -
  from work_Return [OF assms(2)] assms(1) obtain mid where
    ws: "work_stream env noutput_items s = Return n mid"
    and s': "s' = (if 0 < sint n \<and> \<not> d_timebase_published mid then publish_timebase env mid else mid)"
    by auto
  from work_stream_Return [OF ws] have step: "worker_step s mid"
    and pre: "sint (d_buffer_size s) \<le> sint noutput_items"
    and val: "n = - 1 \<or> n = 0 \<or> n = d_buffer_size s"
    by simp_all
  from val assms(3) have n: "n = d_buffer_size s"
    by auto
  from assms(3) have "uint n = sint n"
    by (intro uint_eq_sint_nonneg) simp
  with n have u: "sint n = uint (d_buffer_size s)"
    by simp
  from s' have "d_buffer_size s' = d_buffer_size mid"
    by (simp add: publish_timebase_eq)
  with step have "d_buffer_size s' = d_buffer_size s"
    by (simp add: worker_step_buffer_size)
  with n u pre show ?thesis
    by simp
qed

lemma upt_4: "[0..<4] = [0, 1, 2, Suc 2]"
  by (simp add: upt_rec)

lemma work_test_block:
  "work test_env 8192 test_block =
     Return 8192 (test_block\<lparr>gr_item_tags :=
        map (\<lambda>i. (i, \<lparr>tag_offset = 0, tag_value = Timebase_info_tag (1 / 10000)\<rparr>)) [0..<9],
        d_timebase_published := True\<rparr>)"
  by (simp add: work_def work_stream_def test_env_def test_block_def digitizer_block_impl_def
      ec_set_def Let_def upt_4 default_channel_setting_def default_port_setting_def
      default_trigger_setting_def detect_stream_triggers_def is_analog_def is_digital_def
      is_enabled_def publish_timebase_eq get_timebase_with_downsampling_def)

theorem streaming_work_returns_buffer_size_witness:
  "d_acquisition_mode test_block = STREAMING
   \<and> work test_env 8192 test_block =
       Return 8192 (test_block\<lparr>gr_item_tags :=
          map (\<lambda>i. (i, \<lparr>tag_offset = 0, tag_value = Timebase_info_tag (1 / 10000)\<rparr>)) [0..<9],
          d_timebase_published := True\<rparr>)
   \<and> (8192 :: 32 word) = d_buffer_size test_block
   \<and> sint (8192 :: 32 word) = uint (d_buffer_size test_block)"
proof -
  have m: "d_acquisition_mode test_block = STREAMING"
    by (simp add: test_block_def digitizer_block_impl_def)
  have p: "0 < sint (8192 :: 32 word)"
    by simp
  from streaming_work_returns_buffer_size [OF m work_test_block p] m work_test_block
  show ?thesis
    by simp
qed

lemma work_streaming_error:
  assumes "d_acquisition_mode s = STREAMING" and "sint (d_buffer_size s) \<le> sint noutput_items"
    and "ec_set (wait_data_ready_ec env)" and "wait_data_ready_ec env \<noteq> Block_errc Watchdog"
  shows "work env noutput_items s = Return (- 1) (add_error_code (wait_data_ready_ec env) s)"
  using assms by (simp add: work_def work_stream_def Let_def ec_set_def)

lemma work_streaming_watchdog:
  assumes "d_acquisition_mode s = STREAMING" and "sint (d_buffer_size s) \<le> sint noutput_items"
    and "wait_data_ready_ec env = Block_errc Watchdog"
  shows "work env noutput_items s =
           bind_outcome (disarm env (add_error_code (Block_errc Watchdog) s)) (\<lambda>_ s.
             bind_outcome (arm env s) (\<lambda>_ s. Return 0 s))"
proof -
  obtain t where d: "disarm env (add_error_code (Block_errc Watchdog) s) = Return () t"
    using disarm_Return by blast
  show ?thesis
    using assms d
    by (cases "arm env t") (simp_all add: work_def work_stream_def Let_def ec_set_def)
qed

lemma rearm_armed:
  assumes "d_armed s" and "driver_arm_ec env = No_error"
    and "nat (d_ai_channels s) \<le> length (d_channel_settings s)"
    and "nat (d_ports s) \<le> length (d_port_settings s)"
  shows "\<exists>s'. bind_outcome (disarm env s) (\<lambda>_ s. bind_outcome (arm env s) (\<lambda>_ s. Return 0 s))
                = Return (0 :: int32_t) s'
            \<and> d_armed s' \<and> driver_trace s' = driver_trace s @ [Driver_disarm, Driver_arm]"
  using assms
  by (simp add: disarm_def arm_def Let_def ec_set_def add_error_code_def
      transit_poll_thread_to_idle_def transit_poll_thread_to_running_def get_samp_rate_def)

text \<open>
  C5, amended. In STREAMING mode, with \<open>noutput_items \<ge> buffer_size\<close>: when the wait
  for data returns the Watchdog error, \<^verbatim>\<open>work\<close> records it and is one \<^verbatim>\<open>disarm()\<close>
  followed by one \<^verbatim>\<open>arm()\<close> followed by \<^verbatim>\<open>return 0\<close>; on an armed block whose
  driver arms again without error it returns 0 with the block armed, the driver having
  been disarmed once and then armed once. When the wait returns Stopped, \<^verbatim>\<open>work\<close>
  returns -1 and has only recorded the code: no driver call, armed flag untouched. Every
  other non-empty error makes it return -1 with the code recorded.
\<close>

theorem streaming_wait_errors:
  assumes "d_acquisition_mode s = STREAMING"
    and "sint (d_buffer_size s) \<le> sint noutput_items"
  shows "(wait_data_ready_ec env = Block_errc Watchdog \<longrightarrow>
            work env noutput_items s =
              bind_outcome (disarm env (add_error_code (Block_errc Watchdog) s)) (\<lambda>_ s.
                bind_outcome (arm env s) (\<lambda>_ s. Return 0 s))
          \<and> (d_armed s \<and> driver_arm_ec env = No_error
               \<and> nat (d_ai_channels s) \<le> length (d_channel_settings s)
               \<and> nat (d_ports s) \<le> length (d_port_settings s) \<longrightarrow>
              (\<exists>s'. work env noutput_items s = Return 0 s' \<and> d_armed s'
                  \<and> driver_trace s' = driver_trace s @ [Driver_disarm, Driver_arm])))
       \<and> (wait_data_ready_ec env = Block_errc Stopped \<longrightarrow>
            work env noutput_items s = Return (- 1) (add_error_code (Block_errc Stopped) s)
          \<and> driver_trace (add_error_code (Block_errc Stopped) s) = driver_trace s
          \<and> d_armed (add_error_code (Block_errc Stopped) s) = d_armed s)
       \<and> (ec_set (wait_data_ready_ec env) \<and> wait_data_ready_ec env \<noteq> Block_errc Stopped
             \<and> wait_data_ready_ec env \<noteq> Block_errc Watchdog \<longrightarrow>
            work env noutput_items s = Return (- 1) (add_error_code (wait_data_ready_ec env) s)
          \<and> d_errors (add_error_code (wait_data_ready_ec env) s)
               = push_error (wait_data_ready_ec env) (d_errors s))"
proof (intro conjI impI)
  assume w: "wait_data_ready_ec env = Block_errc Watchdog"
  from work_streaming_watchdog [OF assms w]
  show eq: "work env noutput_items s =
              bind_outcome (disarm env (add_error_code (Block_errc Watchdog) s)) (\<lambda>_ s.
                bind_outcome (arm env s) (\<lambda>_ s. Return 0 s))" .
  assume ok: "d_armed s \<and> driver_arm_ec env = No_error
               \<and> nat (d_ai_channels s) \<le> length (d_channel_settings s)
               \<and> nat (d_ports s) \<le> length (d_port_settings s)"
  let ?s1 = "add_error_code (Block_errc Watchdog) s"
  from ok have "d_armed ?s1" "driver_arm_ec env = No_error"
    "nat (d_ai_channels ?s1) \<le> length (d_channel_settings ?s1)"
    "nat (d_ports ?s1) \<le> length (d_port_settings ?s1)"
    by (simp_all add: add_error_code_def)
  from rearm_armed [OF this] obtain s' where
    r: "bind_outcome (disarm env ?s1) (\<lambda>_ s. bind_outcome (arm env s) (\<lambda>_ s. Return 0 s))
          = Return (0 :: int32_t) s'"
    and a: "d_armed s'" and t: "driver_trace s' = driver_trace ?s1 @ [Driver_disarm, Driver_arm]"
    by blast
  have "driver_trace ?s1 = driver_trace s"
    by (simp add: add_error_code_def)
  with t have t': "driver_trace s' = driver_trace s @ [Driver_disarm, Driver_arm]"
    by simp
  from eq r have "work env noutput_items s = Return 0 s'"
    by simp
  with a t'
  show "\<exists>s'. work env noutput_items s = Return 0 s' \<and> d_armed s'
          \<and> driver_trace s' = driver_trace s @ [Driver_disarm, Driver_arm]"
    by blast
next
  assume st: "wait_data_ready_ec env = Block_errc Stopped"
  then have "ec_set (wait_data_ready_ec env)" "wait_data_ready_ec env \<noteq> Block_errc Watchdog"
    by (simp_all add: ec_set_def)
  from work_streaming_error [OF assms this] st
  show "work env noutput_items s = Return (- 1) (add_error_code (Block_errc Stopped) s)"
    by simp
  show "driver_trace (add_error_code (Block_errc Stopped) s) = driver_trace s"
    by (simp add: add_error_code_def)
  show "d_armed (add_error_code (Block_errc Stopped) s) = d_armed s"
    by (simp add: add_error_code_def)
next
  assume o: "ec_set (wait_data_ready_ec env) \<and> wait_data_ready_ec env \<noteq> Block_errc Stopped
             \<and> wait_data_ready_ec env \<noteq> Block_errc Watchdog"
  then have "ec_set (wait_data_ready_ec env)" "wait_data_ready_ec env \<noteq> Block_errc Watchdog"
    by simp_all
  from work_streaming_error [OF assms this]
  show "work env noutput_items s = Return (- 1) (add_error_code (wait_data_ready_ec env) s)" .
  show "d_errors (add_error_code (wait_data_ready_ec env) s)
               = push_error (wait_data_ready_ec env) (d_errors s)"
    by (simp add: add_error_code_def)
qed

lemma armed_test_block_fields:
  "d_acquisition_mode armed_test_block = STREAMING"
  "sint (d_buffer_size armed_test_block) \<le> sint (8192 :: 32 word)"
  "d_armed armed_test_block"
  "nat (d_ai_channels armed_test_block) \<le> length (d_channel_settings armed_test_block)"
  "nat (d_ports armed_test_block) \<le> length (d_port_settings armed_test_block)"
  by (simp_all add: armed_test_block_def test_block_def digitizer_block_impl_def)

theorem streaming_wait_errors_witness:
  "d_acquisition_mode armed_test_block = STREAMING
   \<and> sint (d_buffer_size armed_test_block) \<le> sint (8192 :: 32 word)
   \<and> wait_data_ready_ec watchdog_env = Block_errc Watchdog
   \<and> work watchdog_env 8192 armed_test_block =
       Return 0 (armed_test_block\<lparr>d_errors := [Block_errc Watchdog],
                                   driver_trace := [Driver_arm, Driver_disarm, Driver_arm]\<rparr>)"
proof -
  have w: "wait_data_ready_ec watchdog_env = Block_errc Watchdog"
    by (simp add: watchdog_env_def)
  have "bind_outcome (disarm watchdog_env (add_error_code (Block_errc Watchdog) armed_test_block))
          (\<lambda>_ s. bind_outcome (arm watchdog_env s) (\<lambda>_ s. Return 0 s))
        = Return (0 :: int32_t) (armed_test_block\<lparr>d_errors := [Block_errc Watchdog],
                                   driver_trace := [Driver_arm, Driver_disarm, Driver_arm]\<rparr>)"
    by (simp add: disarm_def arm_def Let_def ec_set_def add_error_code_def push_error_def
        transit_poll_thread_to_idle_def transit_poll_thread_to_running_def get_samp_rate_def
        watchdog_env_def test_env_def armed_test_block_def test_block_def
        digitizer_block_impl_def count_enabled_channels_def count_enabled_ports_def
        default_channel_setting_def default_port_setting_def)
  with streaming_wait_errors [OF armed_test_block_fields(1,2), of watchdog_env] w
    armed_test_block_fields(1,2)
  show ?thesis
    by simp
qed

text \<open>
  C5 as stated does not hold: when the driver fails to arm again after the watchdog,
  \<^verbatim>\<open>arm()\<close> throws and the exception leaves \<^verbatim>\<open>work\<close>; nothing is returned, and the
  block stays disarmed.
\<close>

theorem watchdog_rearm_fails_counterexample:
  "d_acquisition_mode armed_test_block = STREAMING
   \<and> sint (d_buffer_size armed_test_block) \<le> sint (8192 :: 32 word)
   \<and> wait_data_ready_ec rearm_fails_env = Block_errc Watchdog
   \<and> work rearm_fails_env 8192 armed_test_block =
       Throw Runtime_error
         (armed_test_block\<lparr>d_errors := [Block_errc Watchdog, Driver_errc 5],
                            d_poller_state := IDLE,
                            d_armed := False,
                            driver_trace := [Driver_arm, Driver_disarm, Driver_arm]\<rparr>)"
  by (simp add: work_def work_stream_def disarm_def arm_def Let_def ec_set_def add_error_code_def
      push_error_def transit_poll_thread_to_idle_def transit_poll_thread_to_running_def
      get_samp_rate_def rearm_fails_env_def test_env_def armed_test_block_def test_block_def
      digitizer_block_impl_def)

subsection \<open>The rapid-block worker and the Timebase tag\<close>

lemma rapid_channel_tags_tags_only:
  "rapid_channel_tags env ttag is vec_idx s = Return v s' \<Longrightarrow> \<not> is_timebase_tag (0, ttag) \<Longrightarrow>
     tags_only s s'"
proof (induction "is" arbitrary: vec_idx s)
  case Nil
  then show ?case by (simp add: tags_only_refl)
next
  case (Cons i "is")
  show ?case
  proof (cases "vec_idx < length (output_items env)")
    case False
    with Cons.prems show ?thesis by (simp add: tags_only_refl)
  next
    case in_range: True
    show ?thesis
    proof (cases "i < length (d_channel_settings s) \<and> ch_enabled (d_channel_settings s ! i)")
      case True
      let ?t1 = "add_item_tag vec_idx (rapid_trigger_tag env s (d_status s ! i) i) s"
      let ?t = "add_item_tag vec_idx ttag ?t1"
      from Cons.prems True in_range have "rapid_channel_tags env ttag is (vec_idx + 2) ?t = Return v s'"
        by (simp split: if_splits)
      from Cons.IH [OF this Cons.prems(2)] have "tags_only ?t s'" .
      moreover have "tags_only s ?t1"
        by (intro tags_only_add_item_tag)
          (simp add: is_timebase_tag_def rapid_trigger_tag_def make_trigger_tag_info_def)
      moreover have "tags_only ?t1 ?t"
        using Cons.prems(2) is_timebase_tag_slot [of vec_idx ttag]
        by (intro tags_only_add_item_tag) simp
      ultimately show ?thesis
        by (blast intro: tags_only_trans)
    next
      case False
      with Cons.prems in_range have "rapid_channel_tags env ttag is (vec_idx + 2) s = Return v s'"
        by (simp split: if_splits)
      from Cons.IH [OF this Cons.prems(2)] show ?thesis .
    qed
  qed
qed

lemma rapid_port_tags_tags_only:
  "rapid_port_tags env trigger_tag ttag is vec_idx s = Return v s' \<Longrightarrow>
     \<not> is_timebase_tag (0, ttag) \<Longrightarrow> \<not> is_timebase_tag (0, trigger_tag) \<Longrightarrow> tags_only s s'"
proof (induction "is" arbitrary: vec_idx s)
  case Nil
  then show ?case by (simp add: tags_only_refl)
next
  case (Cons i "is")
  show ?case
  proof (cases "vec_idx < length (output_items env)")
    case False
    with Cons.prems show ?thesis by (simp add: tags_only_refl)
  next
    case in_range: True
    show ?thesis
    proof (cases "i < length (d_port_settings s) \<and> port_enabled (d_port_settings s ! i)")
      case True
      let ?t1 = "add_item_tag vec_idx trigger_tag s"
      let ?t = "add_item_tag vec_idx ttag ?t1"
      from Cons.prems True in_range
      have "rapid_port_tags env trigger_tag ttag is (Suc vec_idx) ?t = Return v s'"
        by (simp split: if_splits)
      from Cons.IH [OF this Cons.prems(2,3)] have "tags_only ?t s'" .
      moreover have "tags_only s ?t1"
        using Cons.prems(3) is_timebase_tag_slot [of vec_idx trigger_tag]
        by (intro tags_only_add_item_tag) simp
      moreover have "tags_only ?t1 ?t"
        using Cons.prems(2) is_timebase_tag_slot [of vec_idx ttag]
        by (intro tags_only_add_item_tag) simp
      ultimately show ?thesis
        by (blast intro: tags_only_trans)
    next
      case False
      with Cons.prems in_range
      have "rapid_port_tags env trigger_tag ttag is (Suc vec_idx) s = Return v s'"
        by (simp split: if_splits)
      from Cons.IH [OF this Cons.prems(2,3)] show ?thesis .
    qed
  qed
qed

lemma worker_step_I:
  assumes "same_config s s'" and "gr_item_tags s' = gr_item_tags s"
    and "filter (\<lambda>c. c = Driver_arm) (driver_trace s') = filter (\<lambda>c. c = Driver_arm) (driver_trace s)"
    and "d_timebase_published s' = d_timebase_published s"
    and "d_was_triggered_once s \<longrightarrow> d_was_triggered_once s'"
  shows "worker_step s s'"
  using assms by (simp add: worker_step_def timebase_tags_def arm_count_def)

lemma rapid_block_waiting_step:
  assumes "rapid_block_waiting env s = Return early s'"
  shows "worker_step s s'"
proof (cases "d_trigger_once s \<and> d_was_triggered_once s")
  case True
  with assms show ?thesis
    by (simp add: rapid_block_waiting_def worker_step_refl)
next
  case False
  let ?armed = "if d_auto_arm s
           then bind_outcome (disarm env s) (\<lambda>_ s.
                  case arm env s of
                    Return _ s' \<Rightarrow> Return None s'
                  | Throw e s' \<Rightarrow>
                      if e = Assertion_failed \<or> e = Undefined_behaviour then Throw e s'
                      else Return (Some (- 1)) s')
           else Return (None :: int32_t option) s"
  from assms False obtain e1 t where
    a: "?armed = Return e1 t"
    and rest: "(case e1 of
               Some r \<Rightarrow> Return (Some r) t
             | None \<Rightarrow>
                 let ec = wait_data_ready_ec env;
                     s1 = clear_data_ready t
                 in if ec = Block_errc Stopped then Return (Some (- 1)) s1
                    else if ec_set ec then Return (Some 0) s1
                    else Return None
                           (s1\<lparr>d_bstate := initialize_bstate (d_nr_captures s1) (d_bstate s1)\<rparr>))
            = Return early s'"
    unfolding rapid_block_waiting_def by (auto dest!: bind_outcome_Return)
  have st: "worker_step s t"
  proof (cases "d_auto_arm s")
    case True
    obtain d where d: "disarm env s = Return () d"
      using disarm_Return by blast
    from disarm_worker_step [of s env] d have sd: "worker_step s d" by simp
    from a True d have "outcome_state (arm env d) = t"
      by (cases "arm env d") (auto split: if_splits)
    with arm_worker_step [of d env] have "worker_step d t" by simp
    with sd show ?thesis by (blast intro: worker_step_trans)
  next
    case False
    with a show ?thesis by (simp add: worker_step_refl)
  qed
  have clr: "worker_step t (clear_data_ready t)"
    by (intro worker_step_I) (simp_all add: clear_data_ready_def same_config_def)
  have ini: "worker_step (clear_data_ready t)
      ((clear_data_ready t)\<lparr>d_bstate := initialize_bstate (d_nr_captures (clear_data_ready t))
          (d_bstate (clear_data_ready t))\<rparr>)"
    by (intro worker_step_I) (simp_all add: same_config_def)
  from rest have "s' = t \<or> s' = clear_data_ready t
      \<or> s' = (clear_data_ready t)\<lparr>d_bstate := initialize_bstate (d_nr_captures (clear_data_ready t))
          (d_bstate (clear_data_ready t))\<rparr>"
    by (auto simp: Let_def split: option.splits if_splits)
  with st clr ini show ?thesis
    by (blast intro: worker_step_trans worker_step_refl)
qed

lemma tags_only_prefetch_count: "tags_only s s' \<Longrightarrow> prefetch_count s' = prefetch_count s"
  by (simp add: prefetch_count_def tags_only_fields)

lemma disarm_rapid_fields:
  assumes "disarm env s = Return u s'"
  shows "prefetch_count s' = prefetch_count s" "d_was_triggered_once s' = d_was_triggered_once s"
    "d_bstate s' = d_bstate s"
  using assms
  by (auto simp: disarm_def Let_def prefetch_count_def add_error_code_def
      transit_poll_thread_to_idle_def split: if_splits)

lemma arm_rapid_fields:
  "prefetch_count (outcome_state (arm env s)) = prefetch_count s"
  "d_was_triggered_once (outcome_state (arm env s)) = d_was_triggered_once s"
  "d_bstate (outcome_state (arm env s)) = d_bstate s"
  by (simp_all add: arm_def Let_def prefetch_count_def add_error_code_def
      transit_poll_thread_to_running_def)

lemma rapid_block_part1_Return:
  assumes ret: "rapid_block_part1 env noutput_items s = Return r s'"
  shows "worker_step s s' \<and> d_was_triggered_once s'
       \<and> prefetch_count s' = Suc (prefetch_count s)
       \<and> (if ec_set (driver_prefetch_block_ec env)
           then d_bstate s' = d_bstate s \<and> r = - 1
           else if ec_set (driver_get_rapid_block_data_ec env)
           then d_bstate s' = set_waveform_params 0 (get_block_size_with_downsampling s) (d_bstate s)
              \<and> r = - 1
           else d_bstate s' =
                  update_state
                    (int_min noutput_items (get_block_size_with_downsampling s))
                    (set_waveform_params 0 (get_block_size_with_downsampling s) (d_bstate s))
              \<and> r = int_min noutput_items (get_block_size_with_downsampling s))"
proof -
  let ?s1 = "s\<lparr>d_was_triggered_once := True\<rparr>"
  let ?s2 = "?s1\<lparr>driver_trace := driver_trace ?s1 @
                    [Driver_prefetch_block (get_block_size ?s1) (waveform_idx (d_bstate ?s1))]\<rparr>"
  let ?ds = "get_block_size_with_downsampling s"
  let ?s3 = "?s2\<lparr>d_bstate := set_waveform_params 0 ?ds (d_bstate ?s2)\<rparr>"
  let ?n = "int_min noutput_items ?ds"
  let ?s4 = "driver_get_rapid_block_data env ?n ?s3"
  have ds: "get_block_size_with_downsampling ?s1 = ?ds"
    by (simp add: get_block_size_with_downsampling_def
        get_pre_trigger_samples_with_downsampling_def get_post_trigger_samples_with_downsampling_def)
  have sl: "samples_left (set_waveform_params 0 ?ds (d_bstate s)) = ?ds"
    by (simp add: set_waveform_params_def)
  have w2: "worker_step s ?s2"
    by (simp add: worker_step_def same_config_def timebase_tags_def arm_count_def)
  have w2e: "worker_step s (add_error_code ec ?s2)" for ec
    by (simp add: worker_step_def same_config_def timebase_tags_def arm_count_def add_error_code_def)
  have w4: "worker_step s ?s4"
    by (simp add: worker_step_def same_config_def timebase_tags_def arm_count_def
        driver_get_rapid_block_data_def)
  have w4e: "worker_step s (add_error_code ec ?s4)" for ec
    by (simp add: worker_step_def same_config_def timebase_tags_def arm_count_def
        driver_get_rapid_block_data_def add_error_code_def)
  have p4: "prefetch_count ?s4 = Suc (prefetch_count s)" "d_was_triggered_once ?s4"
    "d_bstate ?s4 = set_waveform_params 0 ?ds (d_bstate s)"
    by (simp_all add: prefetch_count_def driver_get_rapid_block_data_def)
  show ?thesis
  proof (cases "ec_set (driver_prefetch_block_ec env)")
    case True
    with ret have "s' = add_error_code (driver_prefetch_block_ec env) ?s2" "r = - 1"
      by (simp_all add: rapid_block_part1_def Let_def)
    with True w2e show ?thesis
      by (simp add: add_error_code_def prefetch_count_def)
  next
    case pf: False
    show ?thesis
    proof (cases "ec_set (driver_get_rapid_block_data_ec env)")
      case True
      with ret pf have "s' = add_error_code (driver_get_rapid_block_data_ec env) ?s4" "r = - 1"
        by (simp_all add: rapid_block_part1_def Let_def ds sl)
      with True pf w4e p4 show ?thesis
        by (simp add: add_error_code_def prefetch_count_def)
    next
      case False
      let ?ttag = "make_trigger_tag\<lparr>tag_offset := nitems_written_0 env
                             + ucast (get_pre_trigger_samples_with_downsampling ?s4)\<rparr>"
      from ret pf False have "bind_outcome
                     (rapid_channel_tags env ?ttag [0..<nat (d_ai_channels ?s4)] 0 ?s4)
                     (\<lambda>vec_idx s.
                        bind_outcome
                          (rapid_port_tags env
                             (rapid_trigger_tag env s 0 (nat (d_ai_channels s))) ?ttag
                             [0..<nat (d_ports s)] vec_idx s)
                          (\<lambda>_ s. Return ?n
                                    (s\<lparr>d_bstate := update_state ?n (d_bstate s)\<rparr>))) = Return r s'"
        by (simp add: rapid_block_part1_def Let_def ds sl)
      then obtain v1 t1 where
        c: "rapid_channel_tags env ?ttag [0..<nat (d_ai_channels ?s4)] 0 ?s4 = Return v1 t1"
        and r1: "bind_outcome
                   (rapid_port_tags env (rapid_trigger_tag env t1 0 (nat (d_ai_channels t1))) ?ttag
                      [0..<nat (d_ports t1)] v1 t1)
                   (\<lambda>_ s. Return ?n (s\<lparr>d_bstate := update_state ?n (d_bstate s)\<rparr>)) = Return r s'"
        by (blast dest: bind_outcome_Return)
      from r1 obtain v2 t2 where
        p: "rapid_port_tags env (rapid_trigger_tag env t1 0 (nat (d_ai_channels t1))) ?ttag
              [0..<nat (d_ports t1)] v1 t1 = Return v2 t2"
        and fin: "r = ?n" "s' = t2\<lparr>d_bstate := update_state ?n (d_bstate t2)\<rparr>"
        by (auto dest!: bind_outcome_Return)
      have nt: "\<not> is_timebase_tag (0, ?ttag)"
        by (simp add: is_timebase_tag_def make_trigger_tag_def)
      have nt2: "\<not> is_timebase_tag (0, rapid_trigger_tag env t1 0 (nat (d_ai_channels t1)))"
        by (simp add: is_timebase_tag_def rapid_trigger_tag_def make_trigger_tag_info_def)
      from rapid_channel_tags_tags_only [OF c nt] rapid_port_tags_tags_only [OF p nt nt2]
      have to: "tags_only ?s4 t2"
        by (blast intro: tags_only_trans)
      then have "worker_step ?s4 t2"
        by (rule tags_only_worker_step)
      with w4 have w: "worker_step s t2"
        by (blast intro: worker_step_trans)
      have "worker_step t2 s'"
        unfolding fin by (intro worker_step_I) (simp_all add: same_config_def)
      with w have ws: "worker_step s s'"
        by (blast intro: worker_step_trans)
      from to p4 have f: "prefetch_count t2 = Suc (prefetch_count s)" "d_was_triggered_once t2"
        "d_bstate t2 = set_waveform_params 0 ?ds (d_bstate s)"
        by (simp_all add: tags_only_prefetch_count tags_only_fields)
      from fin f have "prefetch_count s' = Suc (prefetch_count s)" "d_was_triggered_once s'"
        "d_bstate s' = update_state ?n (set_waveform_params 0 ?ds (d_bstate s))"
        by (simp_all add: prefetch_count_def)
      with ws fin pf False show ?thesis
        by simp
    qed
  qed
qed

lemma rapid_block_the_rest_Return:
  assumes ret: "rapid_block_the_rest env noutput_items s = Return r s'"
  shows "worker_step s s' \<and> d_was_triggered_once s' = d_was_triggered_once s
       \<and> prefetch_count s' = prefetch_count s
       \<and> (if ec_set (driver_get_rapid_block_data_ec env)
           then d_bstate s' = d_bstate s \<and> r = - 1
           else d_bstate s' =
                  update_state (int_min noutput_items (samples_left (d_bstate s))) (d_bstate s)
              \<and> r = int_min noutput_items (samples_left (d_bstate s)))"
  using ret
  by (auto simp: rapid_block_the_rest_def Let_def driver_get_rapid_block_data_def
      add_error_code_def prefetch_count_def worker_step_def same_config_def timebase_tags_def
      arm_count_def split: if_splits)

lemma rapid_block_waiting_fields:
  assumes "rapid_block_waiting env s = Return early s'"
  shows "prefetch_count s' = prefetch_count s
       \<and> d_was_triggered_once s' = d_was_triggered_once s
       \<and> (case early of
            Some r \<Rightarrow> d_bstate s' = d_bstate s \<and> (r = - 1 \<or> r = 0)
          | None \<Rightarrow> d_bstate s' = initialize_bstate (d_nr_captures s) (d_bstate s)
                   \<and> \<not> (d_trigger_once s \<and> d_was_triggered_once s))"
proof (cases "d_trigger_once s \<and> d_was_triggered_once s")
  case True
  with assms show ?thesis
    by (auto simp: rapid_block_waiting_def)
next
  case False
  let ?armed = "if d_auto_arm s
           then bind_outcome (disarm env s) (\<lambda>_ s.
                  case arm env s of
                    Return _ s' \<Rightarrow> Return None s'
                  | Throw e s' \<Rightarrow>
                      if e = Assertion_failed \<or> e = Undefined_behaviour then Throw e s'
                      else Return (Some (- 1)) s')
           else Return (None :: int32_t option) s"
  from assms False obtain e1 t where
    a: "?armed = Return e1 t"
    and rest: "(case e1 of
               Some r \<Rightarrow> Return (Some r) t
             | None \<Rightarrow>
                 let ec = wait_data_ready_ec env;
                     s1 = clear_data_ready t
                 in if ec = Block_errc Stopped then Return (Some (- 1)) s1
                    else if ec_set ec then Return (Some 0) s1
                    else Return None
                           (s1\<lparr>d_bstate := initialize_bstate (d_nr_captures s1) (d_bstate s1)\<rparr>))
            = Return early s'"
    unfolding rapid_block_waiting_def by (auto dest!: bind_outcome_Return)
  have t: "prefetch_count t = prefetch_count s \<and> d_was_triggered_once t = d_was_triggered_once s
      \<and> d_bstate t = d_bstate s \<and> d_nr_captures t = d_nr_captures s
      \<and> (e1 = None \<or> e1 = Some (- 1))"
  proof (cases "d_auto_arm s")
    case True
    obtain d where d: "disarm env s = Return () d"
      using disarm_Return by blast
    from disarm_worker_step [of s env] d have sd: "worker_step s d" by simp
    from a True d have os: "outcome_state (arm env d) = t" and e1: "e1 = None \<or> e1 = Some (- 1)"
      by (cases "arm env d"; auto split: if_splits)+
    from arm_worker_step [of d env] os have "worker_step d t" by simp
    with sd have "worker_step s t" by (blast intro: worker_step_trans)
    then have "d_nr_captures t = d_nr_captures s"
      by (simp add: worker_step_def same_config_def)
    with disarm_rapid_fields [OF d] arm_rapid_fields [of env d] os e1 show ?thesis
      by simp
  next
    case False
    with a show ?thesis by auto
  qed
  from rest t False show ?thesis
    by (auto simp: Let_def clear_data_ready_def prefetch_count_def
        split: option.splits if_splits)
qed

lemma work_rapid_block_Return:
  assumes ret: "work_rapid_block env noutput_items s = Return r s'"
  shows "worker_step s s'"
proof -
  let ?w = "if state (d_bstate s) = WAITING then rapid_block_waiting env s else Return None s"
  from ret obtain early t where
    w: "?w = Return early t"
    and rest: "(case early of
            Some r \<Rightarrow> Return r t
          | None \<Rightarrow>
              if state (d_bstate t) = READING_PART1 then rapid_block_part1 env noutput_items t
              else if state (d_bstate t) = READING_THE_REST
              then rapid_block_the_rest env noutput_items t
              else Return (- 1) t) = Return r s'"
    unfolding work_rapid_block_def by (blast dest: bind_outcome_Return)
  from w have st: "worker_step s t"
    by (auto simp: worker_step_refl rapid_block_waiting_step split: if_splits)
  from rest have "worker_step t s'"
    using rapid_block_part1_Return [of env noutput_items t r s']
      rapid_block_the_rest_Return [of env noutput_items t r s']
    by (auto simp: worker_step_refl split: option.splits if_splits)
  with st show ?thesis
    by (blast intro: worker_step_trans)
qed


















subsection \<open>Rapid block with trigger_once\<close>

lemma sint_succ:
  fixes x y :: "32 word"
  assumes "sint x < sint y"
  shows "sint (x + 1) = sint x + 1"
proof -
  have "sint y < 2 ^ 31" using sint_lt [of y] by simp
  with assms have up: "sint x + 1 < 2 ^ 31" by simp
  have lo: "- (2 ^ 31) \<le> sint x + 1" using sint_ge [of x] by simp
  have "sint (x + 1) = signed_take_bit 31 (sint x + sint (1 :: 32 word))"
    by (simp add: sint_word_ariths)
  also have "\<dots> = signed_take_bit 31 (sint x + 1)"
    by simp
  also have "\<dots> = sint x + 1"
    using up lo by (simp add: signed_take_bit_int_eq_self)
  finally show ?thesis .
qed

lemma update_state_cases:
  "waveform_count (update_state n b) = waveform_count b
   \<and> ((state (update_state n b) = READING_THE_REST
         \<and> waveform_idx (update_state n b) = waveform_idx b)
      \<or> (waveform_idx (update_state n b) = waveform_idx b + 1
         \<and> (if sint (waveform_count b) \<le> sint (waveform_idx b + 1)
             then state (update_state n b) = WAITING
             else state (update_state n b) = READING_PART1)))"
  by (simp add: update_state_def Let_def)

lemma same_config_block_size:
  "same_config s t \<Longrightarrow> get_block_size_with_downsampling t = get_block_size_with_downsampling s"
  by (simp add: same_config_def get_block_size_with_downsampling_def
      get_pre_trigger_samples_with_downsampling_def get_post_trigger_samples_with_downsampling_def)

lemma work_rapid_block_cases:
  assumes ret: "work_rapid_block env noutput_items s = Return r s'"
  shows "(state (d_bstate s) = WAITING \<and> d_bstate s' = d_bstate s
            \<and> prefetch_count s' = prefetch_count s
            \<and> d_was_triggered_once s' = d_was_triggered_once s \<and> (r = - 1 \<or> r = 0))
       \<or> (\<exists>b1. (b1 = d_bstate s \<and> state b1 = READING_PART1
                 \<or> state (d_bstate s) = WAITING
                   \<and> \<not> (d_trigger_once s \<and> d_was_triggered_once s)
                   \<and> b1 = initialize_bstate (d_nr_captures s) (d_bstate s))
              \<and> d_was_triggered_once s' \<and> prefetch_count s' = Suc (prefetch_count s)
              \<and> (if ec_set (driver_prefetch_block_ec env)
                  then d_bstate s' = b1 \<and> r = - 1
                  else if ec_set (driver_get_rapid_block_data_ec env)
                  then d_bstate s' = set_waveform_params 0 (get_block_size_with_downsampling s) b1
                     \<and> r = - 1
                  else d_bstate s' =
                         update_state (int_min noutput_items (get_block_size_with_downsampling s))
                           (set_waveform_params 0 (get_block_size_with_downsampling s) b1)
                     \<and> r = int_min noutput_items (get_block_size_with_downsampling s)))
       \<or> (state (d_bstate s) = READING_THE_REST
            \<and> d_was_triggered_once s' = d_was_triggered_once s
            \<and> prefetch_count s' = prefetch_count s
            \<and> (if ec_set (driver_get_rapid_block_data_ec env)
                then d_bstate s' = d_bstate s \<and> r = - 1
                else d_bstate s' =
                       update_state (int_min noutput_items (samples_left (d_bstate s))) (d_bstate s)
                   \<and> r = int_min noutput_items (samples_left (d_bstate s))))"
    (is "?early \<or> ?part1 \<or> ?rest")
proof -
  let ?w = "if state (d_bstate s) = WAITING then rapid_block_waiting env s else Return None s"
  from ret obtain early t where
    w: "?w = Return early t"
    and rest: "(case early of
            Some r \<Rightarrow> Return r t
          | None \<Rightarrow>
              if state (d_bstate t) = READING_PART1 then rapid_block_part1 env noutput_items t
              else if state (d_bstate t) = READING_THE_REST
              then rapid_block_the_rest env noutput_items t
              else Return (- 1) t) = Return r s'"
    unfolding work_rapid_block_def by (blast dest: bind_outcome_Return)
  show ?thesis
  proof (cases "state (d_bstate s) = WAITING")
    case True
    with w have wr: "rapid_block_waiting env s = Return early t"
      by simp
    note f = rapid_block_waiting_fields [OF wr]
    show ?thesis
    proof (cases early)
      case (Some r0)
      with rest f True have ?early
        by auto
      then show ?thesis by blast
    next
      case None
      with f have b: "d_bstate t = initialize_bstate (d_nr_captures s) (d_bstate s)"
        and nt: "\<not> (d_trigger_once s \<and> d_was_triggered_once s)"
        and pc: "prefetch_count t = prefetch_count s"
        by simp_all
      then have st: "state (d_bstate t) = READING_PART1"
        by (simp add: initialize_bstate_def)
      with rest None have p1: "rapid_block_part1 env noutput_items t = Return r s'"
        by simp
      from rapid_block_waiting_step [OF wr] have "same_config s t"
        by (simp add: worker_step_def)
      then have ds: "get_block_size_with_downsampling t = get_block_size_with_downsampling s"
        by (rule same_config_block_size)
      from rapid_block_part1_Return [OF p1] True nt b pc ds have ?part1
        by (intro exI [of _ "d_bstate t"]) (simp split: if_splits)
      then show ?thesis by blast
    qed
  next
    case False
    with w have t: "t = s" and e: "early = None"
      by simp_all
    show ?thesis
    proof (cases "state (d_bstate s)")
      case WAITING
      with False show ?thesis by simp
    next
      case READING_PART1
      with rest t e have p1: "rapid_block_part1 env noutput_items s = Return r s'"
        by simp
      from rapid_block_part1_Return [OF p1] READING_PART1 have ?part1
        by (intro exI [of _ "d_bstate s"]) (simp split: if_splits)
      then show ?thesis by blast
    next
      case READING_THE_REST
      with rest t e have "rapid_block_the_rest env noutput_items s = Return r s'"
        by simp
      from rapid_block_the_rest_Return [OF this] READING_THE_REST have ?rest
        by simp
      then show ?thesis by blast
    qed
  qed
qed

lemma work_rapid_mid:
  assumes "d_acquisition_mode s = RAPID_BLOCK" and "work env noutput_items s = Return r s'"
  shows "\<exists>mid. work_rapid_block env noutput_items s = Return r mid \<and> worker_step s mid
           \<and> d_bstate s' = d_bstate mid \<and> prefetch_count s' = prefetch_count mid
           \<and> d_was_triggered_once s' = d_was_triggered_once mid \<and> same_config s s'"
proof -
  from work_Return [OF assms(2)] assms(1) obtain mid where
    m: "work_rapid_block env noutput_items s = Return r mid"
    and s': "s' = (if 0 < sint r \<and> \<not> d_timebase_published mid then publish_timebase env mid else mid)"
    by auto
  from work_rapid_block_Return [OF m] have ws: "worker_step s mid" .
  then have "same_config s mid"
    by (simp add: worker_step_def)
  moreover have "same_config mid s'"
    using s' by (simp add: publish_timebase_eq same_config_def)
  ultimately have "same_config s s'"
    by (rule same_config_trans)
  with m ws s' show ?thesis
    by (intro exI [of _ mid]) (simp add: publish_timebase_eq prefetch_count_def)
qed

lemma capture_step:
  assumes inv: "capture_invariant N s" and ret: "work env noutput_items s = Return r s'"
  shows "capture_invariant N s'
       \<and> (if begins_waveform env noutput_items s then 1 else 0) + waveforms_left N s'
           = waveforms_left N s"
proof -
  from inv have mode: "d_acquisition_mode s = RAPID_BLOCK" and once: "d_trigger_once s"
    and nr: "d_nr_captures s = N" and N1: "1 \<le> sint N"
    and run: "state (d_bstate s) \<noteq> WAITING \<Longrightarrow>
           waveform_count (d_bstate s) = N \<and> 0 \<le> sint (waveform_idx (d_bstate s))
         \<and> sint (waveform_idx (d_bstate s)) < sint N \<and> d_was_triggered_once s"
    by (simp_all add: capture_invariant_def)
  from work_rapid_mid [OF mode ret] obtain mid where
    m: "work_rapid_block env noutput_items s = Return r mid"
    and b: "d_bstate s' = d_bstate mid" and pc: "prefetch_count s' = prefetch_count mid"
    and wt: "d_was_triggered_once s' = d_was_triggered_once mid" and cfg: "same_config s s'"
    by blast
  from cfg mode once nr N1 have cfg': "d_acquisition_mode s' = RAPID_BLOCK" "d_trigger_once s'"
    "d_nr_captures s' = N" "1 \<le> sint N"
    by (simp_all add: same_config_def)
  have beg: "begins_waveform env noutput_items s =
      (prefetch_count s < prefetch_count s'
        \<and> \<not> ec_set (driver_prefetch_block_ec env)
        \<and> \<not> ec_set (driver_get_rapid_block_data_ec env))"
    using ret by (simp add: begins_waveform_def)
  let ?ds = "get_block_size_with_downsampling s"
  from work_rapid_block_cases [OF m]
  consider
    (early) "state (d_bstate s) = WAITING \<and> d_bstate mid = d_bstate s
            \<and> prefetch_count mid = prefetch_count s
            \<and> d_was_triggered_once mid = d_was_triggered_once s \<and> (r = - 1 \<or> r = 0)"
  | (part1) b1 where "(b1 = d_bstate s \<and> state b1 = READING_PART1
                 \<or> state (d_bstate s) = WAITING
                   \<and> \<not> (d_trigger_once s \<and> d_was_triggered_once s)
                   \<and> b1 = initialize_bstate (d_nr_captures s) (d_bstate s))
              \<and> d_was_triggered_once mid \<and> prefetch_count mid = Suc (prefetch_count s)
              \<and> (if ec_set (driver_prefetch_block_ec env)
                  then d_bstate mid = b1 \<and> r = - 1
                  else if ec_set (driver_get_rapid_block_data_ec env)
                  then d_bstate mid = set_waveform_params 0 (get_block_size_with_downsampling s) b1
                     \<and> r = - 1
                  else d_bstate mid =
                         update_state (int_min noutput_items (get_block_size_with_downsampling s))
                           (set_waveform_params 0 (get_block_size_with_downsampling s) b1)
                     \<and> r = int_min noutput_items (get_block_size_with_downsampling s))"
  | (rest) "state (d_bstate s) = READING_THE_REST
            \<and> d_was_triggered_once mid = d_was_triggered_once s
            \<and> prefetch_count mid = prefetch_count s
            \<and> (if ec_set (driver_get_rapid_block_data_ec env)
                then d_bstate mid = d_bstate s \<and> r = - 1
                else d_bstate mid =
                       update_state (int_min noutput_items (samples_left (d_bstate s))) (d_bstate s)
                   \<and> r = int_min noutput_items (samples_left (d_bstate s)))"
    by blast
  then show ?thesis
  proof cases
    case early
    with b pc wt cfg' beg show ?thesis
      by (auto simp: capture_invariant_def waveforms_left_def)
  next
    case p: part1
    from p have part1:
      "b1 = d_bstate s \<and> state b1 = READING_PART1
                 \<or> state (d_bstate s) = WAITING
                   \<and> \<not> (d_trigger_once s \<and> d_was_triggered_once s)
                   \<and> b1 = initialize_bstate (d_nr_captures s) (d_bstate s)"
      "d_was_triggered_once mid" "prefetch_count mid = Suc (prefetch_count s)"
      "if ec_set (driver_prefetch_block_ec env)
                  then d_bstate mid = b1
                  else if ec_set (driver_get_rapid_block_data_ec env)
                  then d_bstate mid = set_waveform_params 0 ?ds b1
                  else d_bstate mid =
                         update_state (int_min noutput_items ?ds) (set_waveform_params 0 ?ds b1)"
      by (simp_all split: if_splits)
    have b1: "state b1 = READING_PART1 \<and> waveform_count b1 = N
        \<and> 0 \<le> sint (waveform_idx b1) \<and> sint (waveform_idx b1) < sint N
        \<and> waveforms_left N s = nat (sint N - sint (waveform_idx b1))"
      using part1(1)
    proof (elim disjE conjE)
      assume "b1 = d_bstate s" "state b1 = READING_PART1"
      with run show ?thesis
        by (simp add: waveforms_left_def)
    next
      assume "state (d_bstate s) = WAITING" "\<not> (d_trigger_once s \<and> d_was_triggered_once s)"
        "b1 = initialize_bstate (d_nr_captures s) (d_bstate s)"
      with once nr N1 show ?thesis
        by (simp add: waveforms_left_def initialize_bstate_def)
    qed
    let ?b2 = "set_waveform_params 0 ?ds b1"
    have b2: "state ?b2 = READING_PART1" "waveform_count ?b2 = N"
      "waveform_idx ?b2 = waveform_idx b1"
      using b1 by (simp_all add: set_waveform_params_def)
    show ?thesis
    proof (cases "ec_set (driver_prefetch_block_ec env)
        \<or> ec_set (driver_get_rapid_block_data_ec env)")
      case True
      with part1(4) have "d_bstate mid = b1 \<or> d_bstate mid = ?b2"
        by (auto split: if_splits)
      with b1 b2 have "state (d_bstate s') = READING_PART1" "waveform_count (d_bstate s') = N"
        "waveform_idx (d_bstate s') = waveform_idx b1"
        using b by auto
      with b1 part1(2) wt cfg' beg True show ?thesis
        by (auto simp: capture_invariant_def waveforms_left_def)
    next
      case False
      let ?b3 = "update_state (int_min noutput_items ?ds) ?b2"
      from False part1(4) b have bs': "d_bstate s' = ?b3"
        by simp
      from False beg part1(3) pc have begins: "begins_waveform env noutput_items s"
        by simp
      have idx: "sint (waveform_idx b1 + 1) = sint (waveform_idx b1) + 1"
        using b1 by (intro sint_succ [of _ N]) simp
      from update_state_cases [of "int_min noutput_items ?ds" ?b2] b2
      consider (continue) "state ?b3 = READING_THE_REST" "waveform_idx ?b3 = waveform_idx b1"
          "waveform_count ?b3 = N"
        | (finished) "state ?b3 = WAITING" "sint N \<le> sint (waveform_idx b1 + 1)"
        | (advance) "state ?b3 = READING_PART1" "waveform_idx ?b3 = waveform_idx b1 + 1"
          "waveform_count ?b3 = N" "sint (waveform_idx b1 + 1) < sint N"
        by (auto split: if_splits)
      then show ?thesis
      proof cases
        case continue
        with bs' b1 part1(2) wt cfg' begins show ?thesis
          by (auto simp: capture_invariant_def waveforms_left_def)
      next
        case finished
        with bs' b1 part1(2) wt cfg' begins idx show ?thesis
          by (auto simp: capture_invariant_def waveforms_left_def)
      next
        case advance
        with bs' b1 part1(2) wt cfg' begins idx show ?thesis
          by (auto simp: capture_invariant_def waveforms_left_def)
      qed
    qed
  next
    case q: rest
    from q have rest: "state (d_bstate s) = READING_THE_REST"
      "d_was_triggered_once mid = d_was_triggered_once s" "prefetch_count mid = prefetch_count s"
      "if ec_set (driver_get_rapid_block_data_ec env)
                then d_bstate mid = d_bstate s
                else d_bstate mid =
                       update_state (int_min noutput_items (samples_left (d_bstate s))) (d_bstate s)"
      by (simp_all split: if_splits)
    from run rest(1) have r0: "waveform_count (d_bstate s) = N" "0 \<le> sint (waveform_idx (d_bstate s))"
      "sint (waveform_idx (d_bstate s)) < sint N" "d_was_triggered_once s"
      by simp_all
    from rest(3) pc beg have nb: "\<not> begins_waveform env noutput_items s"
      by simp
    have idx: "sint (waveform_idx (d_bstate s) + 1) = sint (waveform_idx (d_bstate s)) + 1"
      using r0 by (intro sint_succ [of _ N]) simp
    show ?thesis
    proof (cases "ec_set (driver_get_rapid_block_data_ec env)")
      case True
      with rest(4) b have "d_bstate s' = d_bstate s"
        by simp
      with rest(1,2) r0 wt cfg' nb show ?thesis
        by (auto simp: capture_invariant_def waveforms_left_def)
    next
      case False
      let ?b3 = "update_state (int_min noutput_items (samples_left (d_bstate s))) (d_bstate s)"
      from False rest(4) b have bs': "d_bstate s' = ?b3"
        by simp
      from update_state_cases [of "int_min noutput_items (samples_left (d_bstate s))" "d_bstate s"] r0
      consider (continue) "state ?b3 = READING_THE_REST" "waveform_idx ?b3 = waveform_idx (d_bstate s)"
          "waveform_count ?b3 = N"
        | (finished) "state ?b3 = WAITING" "sint N \<le> sint (waveform_idx (d_bstate s) + 1)"
        | (advance) "state ?b3 = READING_PART1" "waveform_idx ?b3 = waveform_idx (d_bstate s) + 1"
          "waveform_count ?b3 = N" "sint (waveform_idx (d_bstate s) + 1) < sint N"
        by (auto split: if_splits)
      then show ?thesis
      proof cases
        case continue
        with bs' rest(1,2) r0 wt cfg' nb show ?thesis
          by (auto simp: capture_invariant_def waveforms_left_def)
      next
        case finished
        with bs' rest(1,2) r0 wt cfg' nb idx show ?thesis
          by (auto simp: capture_invariant_def waveforms_left_def)
      next
        case advance
        with bs' rest(1,2) r0 wt cfg' nb idx show ?thesis
          by (auto simp: capture_invariant_def waveforms_left_def)
      qed
    qed
  qed
qed

lemma waveforms_begun_bound:
  "capture_invariant N s \<Longrightarrow> waveforms_begun cs s \<le> waveforms_left N s"
proof (induction cs arbitrary: s)
  case Nil
  then show ?case by simp
next
  case (Cons c cs)
  show ?case
  proof (cases "work (fst c) (snd c) s")
    case (Return r s')
    from capture_step [OF Cons.prems Return] have inv: "capture_invariant N s'"
      and le: "(if begins_waveform (fst c) (snd c) s then 1 else 0) + waveforms_left N s'
           = waveforms_left N s"
      by simp_all
    from Cons.IH [OF inv] le Return show ?thesis
      by simp
  next
    case (Throw e s')
    then show ?thesis by simp
  qed
qed

lemma work_end_of_stream:
  assumes "d_acquisition_mode s = RAPID_BLOCK" and "d_trigger_once s"
    and "state (d_bstate s) = WAITING" and "d_was_triggered_once s"
  shows "work env noutput_items s = Return (- 1) s"
  using assms by (simp add: work_def work_rapid_block_def rapid_block_waiting_def)

lemma work_calls_end_of_stream:
  assumes "d_acquisition_mode s = RAPID_BLOCK" and "d_trigger_once s"
    and "state (d_bstate s) = WAITING" and "d_was_triggered_once s"
  shows "work_calls cs s = Return (replicate (length cs) (- 1)) s"
proof (induction cs)
  case Nil
  show ?case by simp
next
  case (Cons c cs)
  from work_end_of_stream [OF assms, of "fst c" "snd c"] Cons.IH show ?case
    by simp
qed

lemma work_rapid_triggered:
  assumes "d_acquisition_mode s = RAPID_BLOCK" and "work env noutput_items s = Return r s'"
  shows "(d_was_triggered_once s \<longrightarrow> d_was_triggered_once s')
       \<and> (prefetch_count s < prefetch_count s' \<longrightarrow> d_was_triggered_once s')
       \<and> d_trigger_once s' = d_trigger_once s \<and> d_acquisition_mode s' = RAPID_BLOCK"
proof -
  from work_rapid_mid [OF assms] obtain mid where
    m: "work_rapid_block env noutput_items s = Return r mid" and ws: "worker_step s mid"
    and pc: "prefetch_count s' = prefetch_count mid"
    and wt: "d_was_triggered_once s' = d_was_triggered_once mid" and cfg: "same_config s s'"
    by blast
  from ws wt have keep: "d_was_triggered_once s \<longrightarrow> d_was_triggered_once s'"
    by (simp add: worker_step_def)
  from work_rapid_block_cases [OF m]
  have "prefetch_count mid = prefetch_count s \<or> d_was_triggered_once mid"
    by blast
  with pc wt have "prefetch_count s < prefetch_count s' \<longrightarrow> d_was_triggered_once s'"
    by auto
  with keep cfg assms(1) show ?thesis
    by (simp add: same_config_def)
qed

lemma arm_Throw_error:
  "arm env s = Throw e s' \<Longrightarrow> \<not> ec_set (driver_arm_ec env) \<Longrightarrow> e = Undefined_behaviour"
  by (auto simp: arm_def Let_def split: if_splits)

lemma rapid_block_waiting_error_free:
  assumes ret: "rapid_block_waiting env s = Return early t"
    and nt: "\<not> (d_trigger_once s \<and> d_was_triggered_once s)"
    and wait: "\<not> ec_set (wait_data_ready_ec env)" and armok: "\<not> ec_set (driver_arm_ec env)"
  shows "early = None"
proof -
  let ?armed = "if d_auto_arm s
           then bind_outcome (disarm env s) (\<lambda>_ s.
                  case arm env s of
                    Return _ s' \<Rightarrow> Return None s'
                  | Throw e s' \<Rightarrow>
                      if e = Assertion_failed \<or> e = Undefined_behaviour then Throw e s'
                      else Return (Some (- 1)) s')
           else Return (None :: int32_t option) s"
  from ret nt obtain e1 u where
    a: "?armed = Return e1 u"
    and rest: "(case e1 of
               Some r \<Rightarrow> Return (Some r) u
             | None \<Rightarrow>
                 let ec = wait_data_ready_ec env;
                     s1 = clear_data_ready u
                 in if ec = Block_errc Stopped then Return (Some (- 1)) s1
                    else if ec_set ec then Return (Some 0) s1
                    else Return None
                           (s1\<lparr>d_bstate := initialize_bstate (d_nr_captures s1) (d_bstate s1)\<rparr>))
            = Return early t"
    unfolding rapid_block_waiting_def by (auto dest!: bind_outcome_Return)
  have e1: "e1 = None"
  proof (cases "d_auto_arm s")
    case True
    obtain d where d: "disarm env s = Return () d"
      using disarm_Return by blast
    show ?thesis
    proof (cases "arm env d")
      case (Return x y)
      with a True d show ?thesis by simp
    next
      case (Throw e y)
      from arm_Throw_error [OF this armok] have "e = Undefined_behaviour" .
      with a True d Throw show ?thesis by simp
    qed
  next
    case False
    with a show ?thesis by simp
  qed
  from wait have "wait_data_ready_ec env \<noteq> Block_errc Stopped"
    by (auto simp: ec_set_def)
  with rest e1 wait show ?thesis
    by (simp add: Let_def)
qed

lemma work_rapid_block_waiting_prefetches:
  assumes ret: "work_rapid_block env noutput_items s = Return r mid"
    and w: "state (d_bstate s) = WAITING"
    and nt: "\<not> (d_trigger_once s \<and> d_was_triggered_once s)"
    and wait: "\<not> ec_set (wait_data_ready_ec env)" and armok: "\<not> ec_set (driver_arm_ec env)"
  shows "prefetch_count mid = Suc (prefetch_count s)"
proof -
  from ret w obtain early t where
    wr: "rapid_block_waiting env s = Return early t"
    and rest: "(case early of
            Some r \<Rightarrow> Return r t
          | None \<Rightarrow>
              if state (d_bstate t) = READING_PART1 then rapid_block_part1 env noutput_items t
              else if state (d_bstate t) = READING_THE_REST
              then rapid_block_the_rest env noutput_items t
              else Return (- 1) t) = Return r mid"
    unfolding work_rapid_block_def by (auto dest!: bind_outcome_Return)
  from rapid_block_waiting_error_free [OF wr nt wait armok] have e: "early = None" .
  with rapid_block_waiting_fields [OF wr]
  have b: "d_bstate t = initialize_bstate (d_nr_captures s) (d_bstate s)"
    and pc: "prefetch_count t = prefetch_count s"
    by simp_all
  then have "state (d_bstate t) = READING_PART1"
    by (simp add: initialize_bstate_def)
  with rest e have "rapid_block_part1 env noutput_items t = Return r mid"
    by simp
  from rapid_block_part1_Return [OF this] pc show ?thesis
    by simp
qed

lemma sint_diff_nonneg:
  fixes a b :: "32 word"
  assumes "0 \<le> sint b" and "sint b \<le> sint a"
  shows "sint (a - b) = sint a - sint b"
proof -
  have "sint a < 2 ^ 31" using sint_lt [of a] by simp
  with assms have up: "sint a - sint b < 2 ^ 31" by simp
  from assms have lo: "- (2 ^ 31) \<le> sint a - sint b" by simp
  have "sint (a - b) = signed_take_bit 31 (sint a - sint b)"
    by (simp add: sint_word_ariths)
  also have "\<dots> = sint a - sint b"
    using up lo by (simp add: signed_take_bit_int_eq_self)
  finally show ?thesis .
qed

lemma int_min_bounds:
  assumes "1 \<le> sint n" and "0 < sint l"
  shows "1 \<le> sint (int_min n l)" and "sint (int_min n l) \<le> sint l"
  using assms by (simp_all add: int_min_def)

lemma int_min_nonpos:
  assumes "1 \<le> sint n" and "sint l \<le> 0"
  shows "int_min n l = l"
  using assms by (simp add: int_min_def)

text \<open>One batch read from a waveform of which \<open>l > 0\<close> samples are left.\<close>

lemma update_state_batch:
  assumes n: "1 \<le> sint n" and l: "0 < sint (samples_left b)"
  shows "waveform_count (update_state (int_min n (samples_left b)) b) = waveform_count b"
    and "state (update_state (int_min n (samples_left b)) b) = READING_THE_REST \<longrightarrow>
           waveform_idx (update_state (int_min n (samples_left b)) b) = waveform_idx b
         \<and> 0 < sint (samples_left (update_state (int_min n (samples_left b)) b))
         \<and> sint (samples_left (update_state (int_min n (samples_left b)) b)) < sint (samples_left b)"
    and "state (update_state (int_min n (samples_left b)) b) \<noteq> READING_THE_REST \<longrightarrow>
           waveform_idx (update_state (int_min n (samples_left b)) b) = waveform_idx b + 1
         \<and> (state (update_state (int_min n (samples_left b)) b) = WAITING
              \<longleftrightarrow> sint (waveform_count b) \<le> sint (waveform_idx b + 1))"
proof -
  let ?m = "int_min n (samples_left b)"
  from int_min_bounds [OF n l] have m: "1 \<le> sint ?m" "sint ?m \<le> sint (samples_left b)" .
  then have d: "sint (samples_left b - ?m) = sint (samples_left b) - sint ?m"
    by (intro sint_diff_nonneg) simp_all
  show "waveform_count (update_state ?m b) = waveform_count b"
    by (simp add: update_state_def Let_def)
  show "state (update_state ?m b) = READING_THE_REST \<longrightarrow>
           waveform_idx (update_state ?m b) = waveform_idx b
         \<and> 0 < sint (samples_left (update_state ?m b))
         \<and> sint (samples_left (update_state ?m b)) < sint (samples_left b)"
    using d m by (simp add: update_state_def Let_def)
  show "state (update_state ?m b) \<noteq> READING_THE_REST \<longrightarrow>
           waveform_idx (update_state ?m b) = waveform_idx b + 1
         \<and> (state (update_state ?m b) = WAITING
              \<longleftrightarrow> sint (waveform_count b) \<le> sint (waveform_idx b + 1))"
    by (simp add: update_state_def Let_def)
qed

text \<open>A waveform without samples (\<open>l \<le> 0\<close>) is over after its first batch.\<close>

lemma update_state_empty:
  assumes n: "1 \<le> sint n" and l: "sint (samples_left b) \<le> 0"
  shows "waveform_count (update_state (int_min n (samples_left b)) b) = waveform_count b"
    and "state (update_state (int_min n (samples_left b)) b) \<noteq> READING_THE_REST"
    and "waveform_idx (update_state (int_min n (samples_left b)) b) = waveform_idx b + 1"
    and "state (update_state (int_min n (samples_left b)) b) = WAITING
              \<longleftrightarrow> sint (waveform_count b) \<le> sint (waveform_idx b + 1)"
  using int_min_nonpos [OF n l] by (simp_all add: update_state_def Let_def)

lemma nat_diff_Suc:
  fixes i n :: int
  assumes "i < n"
  shows "nat (n - i) = Suc (nat (n - i - 1))"
  using assms by simp

lemma next_waveform_progress:
  assumes idx: "0 \<le> sint (waveform_idx b)" "sint (waveform_idx b) < sint N"
    and st: "state b' \<noteq> READING_THE_REST" "waveform_idx b' = waveform_idx b + 1"
      "state b' = WAITING \<longleftrightarrow> sint N \<le> sint (waveform_idx b + 1)"
    and s': "d_bstate s' = b'" "d_was_triggered_once s'"
  shows "samples_pending s'"
    and "calls_left N s' = nat (sint N - sint (waveform_idx b) - 1) * calls_per_waveform s'"
proof -
  have i1: "sint (waveform_idx b + 1) = sint (waveform_idx b) + 1"
    using idx by (intro sint_succ [of _ N]) simp
  show "samples_pending s'"
    using st s' by (simp add: samples_pending_def)
  show "calls_left N s' = nat (sint N - sint (waveform_idx b) - 1) * calls_per_waveform s'"
  proof (cases "state b'")
    case WAITING
    with st i1 idx have "sint N - sint (waveform_idx b) - 1 \<le> 0"
      by simp
    with WAITING s' show ?thesis
      by (simp add: calls_left_def)
  next
    case READING_PART1
    with st s' i1 show ?thesis
      by (simp add: calls_left_def algebra_simps)
  next
    case READING_THE_REST
    with st show ?thesis by simp
  qed
qed

lemma part1_progress:
  assumes n: "1 \<le> sint n"
    and idx: "0 \<le> sint (waveform_idx b)" "sint (waveform_idx b) < sint N"
    and cnt: "waveform_count b = N" and sl: "samples_left b = ds"
    and s': "d_bstate s' = update_state (int_min n ds) b" "d_was_triggered_once s'"
      "calls_per_waveform s' = max 1 (nat (sint ds))"
  shows "samples_pending s'"
    and "calls_left N s' < nat (sint N - sint (waveform_idx b)) * calls_per_waveform s'"
proof -
  let ?b' = "update_state (int_min n (samples_left b)) b"
  let ?k = "nat (sint N - sint (waveform_idx b) - 1)"
  let ?C = "calls_per_waveform s'"
  have k: "nat (sint N - sint (waveform_idx b)) = Suc ?k"
    using idx by (intro nat_diff_Suc) simp
  have C: "1 \<le> ?C"
    using s' by simp
  from s' sl have bs: "d_bstate s' = ?b'"
    by simp
  have "samples_pending s' \<and> calls_left N s' < Suc ?k * ?C"
  proof (cases "0 < sint (samples_left b)")
    case True
    note u = update_state_batch [OF n True]
    show ?thesis
    proof (cases "state ?b' = READING_THE_REST")
      case rest: True
      with u(2) have same: "waveform_idx ?b' = waveform_idx b"
        and l: "0 < sint (samples_left ?b')" "sint (samples_left ?b') < sint (samples_left b)"
        by simp_all
      from True sl s' have "?C = nat (sint (samples_left b))"
        by simp
      with l have "nat (sint (samples_left ?b')) < ?C"
        by simp
      with rest same l bs show ?thesis
        by (simp add: samples_pending_def calls_left_def)
    next
      case False
      with u(3) cnt have st: "state ?b' \<noteq> READING_THE_REST"
        "waveform_idx ?b' = waveform_idx b + 1"
        "state ?b' = WAITING \<longleftrightarrow> sint N \<le> sint (waveform_idx b + 1)"
        by simp_all
      from next_waveform_progress [OF idx st bs s'(2)] C show ?thesis
        by simp
    qed
  next
    case False
    then have l: "sint (samples_left b) \<le> 0" by simp
    note u = update_state_empty [OF n l]
    from u cnt have st: "state ?b' \<noteq> READING_THE_REST"
      "waveform_idx ?b' = waveform_idx b + 1"
      "state ?b' = WAITING \<longleftrightarrow> sint N \<le> sint (waveform_idx b + 1)"
      by simp_all
    from next_waveform_progress [OF idx st bs s'(2)] C show ?thesis
      by simp
  qed
  with k show "samples_pending s'"
    and "calls_left N s' < nat (sint N - sint (waveform_idx b)) * calls_per_waveform s'"
    by simp_all
qed

lemma rest_progress:
  assumes n: "1 \<le> sint n"
    and idx: "0 \<le> sint (waveform_idx b)" "sint (waveform_idx b) < sint N"
    and cnt: "waveform_count b = N" and l: "0 < sint (samples_left b)"
    and s': "d_bstate s' = update_state (int_min n (samples_left b)) b" "d_was_triggered_once s'"
  shows "samples_pending s'"
    and "calls_left N s' < nat (sint N - sint (waveform_idx b) - 1) * calls_per_waveform s'
           + nat (sint (samples_left b))"
proof -
  let ?b' = "update_state (int_min n (samples_left b)) b"
  note u = update_state_batch [OF n l]
  have "samples_pending s' \<and> calls_left N s' < nat (sint N - sint (waveform_idx b) - 1) * calls_per_waveform s'
           + nat (sint (samples_left b))"
  proof (cases "state ?b' = READING_THE_REST")
    case rest: True
    with u(2) have same: "waveform_idx ?b' = waveform_idx b"
      and l': "0 < sint (samples_left ?b')" "sint (samples_left ?b') < sint (samples_left b)"
      by simp_all
    with rest s' show ?thesis
      by (simp add: samples_pending_def calls_left_def)
  next
    case False
    with u(3) cnt have st: "state ?b' \<noteq> READING_THE_REST"
      "waveform_idx ?b' = waveform_idx b + 1"
      "state ?b' = WAITING \<longleftrightarrow> sint N \<le> sint (waveform_idx b + 1)"
      by simp_all
    from next_waveform_progress [OF idx st s'] l show ?thesis
      by simp
  qed
  then show "samples_pending s'"
    and "calls_left N s' < nat (sint N - sint (waveform_idx b) - 1) * calls_per_waveform s'
           + nat (sint (samples_left b))"
    by simp_all
qed

lemma calls_left_zero:
  assumes inv: "capture_invariant N s" and pend: "samples_pending s"
  shows "calls_left N s = 0 \<longleftrightarrow> state (d_bstate s) = WAITING \<and> d_was_triggered_once s"
proof (cases "state (d_bstate s)")
  case WAITING
  from inv have "1 \<le> sint N"
    by (simp add: capture_invariant_def)
  with WAITING show ?thesis
    by (simp add: calls_left_def calls_per_waveform_def)
next
  case READING_PART1
  with inv have "sint (waveform_idx (d_bstate s)) < sint N"
    by (simp add: capture_invariant_def)
  with READING_PART1 show ?thesis
    by (simp add: calls_left_def calls_per_waveform_def)
next
  case READING_THE_REST
  with pend have "0 < sint (samples_left (d_bstate s))"
    by (simp add: samples_pending_def)
  with READING_THE_REST show ?thesis
    by (simp add: calls_left_def)
qed

lemma progress_step:
  assumes inv: "capture_invariant N s" and pend: "samples_pending s"
    and ef: "error_free_call (env, noutput_items)"
    and ret: "work env noutput_items s = Return r s'"
  shows "samples_pending s'
       \<and> (calls_left N s' < calls_left N s \<or> calls_left N s = 0 \<and> calls_left N s' = 0)"
proof -
  from inv have mode: "d_acquisition_mode s = RAPID_BLOCK" and once: "d_trigger_once s"
    and nr: "d_nr_captures s = N" and N1: "1 \<le> sint N"
    and run: "state (d_bstate s) \<noteq> WAITING \<Longrightarrow>
           waveform_count (d_bstate s) = N \<and> 0 \<le> sint (waveform_idx (d_bstate s))
         \<and> sint (waveform_idx (d_bstate s)) < sint N \<and> d_was_triggered_once s"
    by (simp_all add: capture_invariant_def)
  from ef have ok: "\<not> ec_set (wait_data_ready_ec env)" "\<not> ec_set (driver_arm_ec env)"
    "\<not> ec_set (driver_prefetch_block_ec env)" "\<not> ec_set (driver_get_rapid_block_data_ec env)"
    and n: "1 \<le> sint noutput_items"
    by (simp_all add: error_free_call_def)
  from work_rapid_mid [OF mode ret] obtain mid where
    m: "work_rapid_block env noutput_items s = Return r mid"
    and b: "d_bstate s' = d_bstate mid"
    and wt: "d_was_triggered_once s' = d_was_triggered_once mid" and cfg: "same_config s s'"
    by blast
  let ?ds = "get_block_size_with_downsampling s"
  from same_config_block_size [OF cfg] have cpw: "calls_per_waveform s' = calls_per_waveform s"
    and cpw': "calls_per_waveform s' = max 1 (nat (sint ?ds))"
    by (simp_all add: calls_per_waveform_def)
  show ?thesis
  proof (cases "state (d_bstate s) = WAITING \<and> d_was_triggered_once s")
    case True
    with work_end_of_stream [OF mode once, of env noutput_items] ret have "s' = s"
      by simp
    with True pend show ?thesis
      by (simp add: calls_left_def)
  next
    case False
    from work_rapid_block_cases [OF m] ok(3,4)
    have "(state (d_bstate s) = WAITING \<and> prefetch_count mid = prefetch_count s)
        \<or> (\<exists>b1. (b1 = d_bstate s \<and> state b1 = READING_PART1
                 \<or> state (d_bstate s) = WAITING
                   \<and> b1 = initialize_bstate (d_nr_captures s) (d_bstate s))
              \<and> d_was_triggered_once mid
              \<and> d_bstate mid =
                   update_state (int_min noutput_items ?ds) (set_waveform_params 0 ?ds b1))
        \<or> (state (d_bstate s) = READING_THE_REST
              \<and> d_was_triggered_once mid = d_was_triggered_once s
              \<and> d_bstate mid =
                   update_state (int_min noutput_items (samples_left (d_bstate s))) (d_bstate s))"
      by (elim disjE exE conjE) auto
    then consider
      (early) "state (d_bstate s) = WAITING" "prefetch_count mid = prefetch_count s"
    | (part1) b1 where "b1 = d_bstate s \<and> state b1 = READING_PART1
                 \<or> state (d_bstate s) = WAITING
                   \<and> b1 = initialize_bstate (d_nr_captures s) (d_bstate s)"
         "d_was_triggered_once mid"
         "d_bstate mid = update_state (int_min noutput_items ?ds) (set_waveform_params 0 ?ds b1)"
    | (rest) "state (d_bstate s) = READING_THE_REST"
         "d_was_triggered_once mid = d_was_triggered_once s"
         "d_bstate mid = update_state (int_min noutput_items (samples_left (d_bstate s))) (d_bstate s)"
      by blast
    then show ?thesis
    proof cases
      case early
      with False have "\<not> (d_trigger_once s \<and> d_was_triggered_once s)"
        by simp
      from work_rapid_block_waiting_prefetches [OF m early(1) this ok(1,2)] early(2)
      show ?thesis by simp
    next
      case part1
      let ?b2 = "set_waveform_params 0 ?ds b1"
      have b1: "waveform_count b1 = N \<and> 0 \<le> sint (waveform_idx b1)
          \<and> sint (waveform_idx b1) < sint N
          \<and> calls_left N s = nat (sint N - sint (waveform_idx b1)) * calls_per_waveform s"
        using part1(1)
      proof (elim disjE conjE)
        assume "b1 = d_bstate s" "state b1 = READING_PART1"
        with run show ?thesis
          by (simp add: calls_left_def)
      next
        assume w: "state (d_bstate s) = WAITING"
          and i: "b1 = initialize_bstate (d_nr_captures s) (d_bstate s)"
        from w False have "\<not> d_was_triggered_once s" by simp
        with w i nr N1 show ?thesis
          by (simp add: calls_left_def initialize_bstate_def)
      qed
      then have b2: "0 \<le> sint (waveform_idx ?b2)" "sint (waveform_idx ?b2) < sint N"
        "waveform_count ?b2 = N" "samples_left ?b2 = ?ds" "waveform_idx ?b2 = waveform_idx b1"
        by (simp_all add: set_waveform_params_def)
      from part1(3) b have bs: "d_bstate s' = update_state (int_min noutput_items ?ds) ?b2"
        by simp
      from part1(2) wt have tr: "d_was_triggered_once s'"
        by simp
      from part1_progress [OF n b2(1,2,3,4) bs tr cpw'] b2(5) b1 cpw show ?thesis
        by simp
    next
      case rest
      from run rest(1) have r0: "waveform_count (d_bstate s) = N"
        "0 \<le> sint (waveform_idx (d_bstate s))"
        "sint (waveform_idx (d_bstate s)) < sint N" "d_was_triggered_once s"
        by simp_all
      from pend rest(1) have l: "0 < sint (samples_left (d_bstate s))"
        by (simp add: samples_pending_def)
      from rest(3) b have bs: "d_bstate s' =
          update_state (int_min noutput_items (samples_left (d_bstate s))) (d_bstate s)"
        by simp
      from rest(2) r0(4) wt have tr: "d_was_triggered_once s'"
        by simp
      from rest_progress [OF n r0(2,3,1) l bs tr] rest(1) cpw show ?thesis
        by (simp add: calls_left_def)
    qed
  qed
qed

lemma run_reaches_end:
  assumes "capture_invariant N s" and "samples_pending s"
    and "\<forall>c \<in> set cs. error_free_call c"
    and "work_calls cs s = Return rs s'"
    and "calls_left N s \<le> length cs"
  shows "state (d_bstate s') = WAITING \<and> d_was_triggered_once s'"
  using assms
proof (induction cs arbitrary: s rs)
  case Nil
  then have "s' = s" and "calls_left N s = 0"
    by simp_all
  with calls_left_zero [OF Nil.prems(1,2)] show ?case
    by simp
next
  case (Cons c cs)
  from Cons.prems(4) obtain r s1 rs1 where
    w: "work (fst c) (snd c) s = Return r s1" and tl: "work_calls cs s1 = Return rs1 s'"
    by (auto dest!: bind_outcome_Return)
  from Cons.prems(3) have ef: "error_free_call (fst c, snd c)" and efs: "\<forall>c \<in> set cs. error_free_call c"
    by simp_all
  from capture_step [OF Cons.prems(1) w] have inv1: "capture_invariant N s1"
    by simp
  from progress_step [OF Cons.prems(1,2) ef w] have pend1: "samples_pending s1"
    and less: "calls_left N s1 < calls_left N s \<or> calls_left N s = 0 \<and> calls_left N s1 = 0"
    by simp_all
  from less Cons.prems(5) have "calls_left N s1 \<le> length cs"
    by auto
  from Cons.IH [OF inv1 pend1 efs tl this] show ?case .
qed

lemma waveforms_begun_conserved:
  assumes "capture_invariant N s" and "work_calls cs s = Return rs s'"
  shows "capture_invariant N s' \<and> waveforms_begun cs s + waveforms_left N s' = waveforms_left N s"
  using assms
proof (induction cs arbitrary: s rs)
  case Nil
  then show ?case by simp
next
  case (Cons c cs)
  from Cons.prems(2) obtain r s1 rs1 where
    w: "work (fst c) (snd c) s = Return r s1" and tl: "work_calls cs s1 = Return rs1 s'"
    by (auto dest!: bind_outcome_Return)
  from capture_step [OF Cons.prems(1) w] have inv1: "capture_invariant N s1"
    and eq: "(if begins_waveform (fst c) (snd c) s then 1 else 0) + waveforms_left N s1
           = waveforms_left N s"
    by simp_all
  from Cons.IH [OF inv1 tl] eq w show ?case
    by simp
qed

lemma same_config_channels_fit: "same_config s t \<Longrightarrow> channels_fit t = channels_fit s"
  by (simp add: same_config_def channels_fit_def)

lemma rapid_channel_tags_returns:
  assumes "\<forall>i \<in> set is. i < length (d_channel_settings s) \<and> i < length (d_status s)"
  shows "\<exists>v s'. rapid_channel_tags env ttag is vec_idx s = Return v s'"
  using assms
proof (induction "is" arbitrary: vec_idx s)
  case Nil
  show ?case by simp
next
  case (Cons i "is")
  from Cons.prems have i: "i < length (d_channel_settings s)" "i < length (d_status s)"
    and rest: "\<forall>i \<in> set is. i < length (d_channel_settings s) \<and> i < length (d_status s)"
    by simp_all
  let ?t = "add_item_tag vec_idx ttag
              (add_item_tag vec_idx (rapid_trigger_tag env s (d_status s ! i) i) s)"
  have "\<forall>i \<in> set is. i < length (d_channel_settings ?t) \<and> i < length (d_status ?t)"
    using rest by (simp add: add_item_tag_def)
  from Cons.IH [OF this] Cons.IH [OF rest] i show ?case
    by simp
qed

lemma rapid_port_tags_returns:
  assumes "\<forall>i \<in> set is. i < length (d_port_settings s)"
  shows "\<exists>v s'. rapid_port_tags env trigger_tag ttag is vec_idx s = Return v s'"
  using assms
proof (induction "is" arbitrary: vec_idx s)
  case Nil
  show ?case by simp
next
  case (Cons i "is")
  from Cons.prems have i: "i < length (d_port_settings s)"
    and rest: "\<forall>i \<in> set is. i < length (d_port_settings s)"
    by simp_all
  let ?t = "add_item_tag vec_idx ttag (add_item_tag vec_idx trigger_tag s)"
  have "\<forall>i \<in> set is. i < length (d_port_settings ?t)"
    using rest by (simp add: add_item_tag_def)
  from Cons.IH [OF this] Cons.IH [OF rest] i show ?case
    by simp
qed

lemma arm_returns:
  assumes "\<not> ec_set (driver_arm_ec env)" and "channels_fit s"
  shows "\<exists>s'. arm env s = Return () s'"
  using assms
  by (simp add: arm_def Let_def channels_fit_def transit_poll_thread_to_running_def)

lemma rapid_block_waiting_returns:
  assumes armok: "\<not> ec_set (driver_arm_ec env)" and fit: "channels_fit s"
  shows "\<exists>early t. rapid_block_waiting env s = Return early t"
proof (cases "d_auto_arm s \<and> \<not> (d_trigger_once s \<and> d_was_triggered_once s)")
  case True
  obtain d where d: "disarm env s = Return () d"
    using disarm_Return by blast
  from disarm_worker_step [of s env] d have "same_config s d"
    by (simp add: worker_step_def)
  with fit have "channels_fit d"
    by (simp add: same_config_channels_fit)
  from arm_returns [OF armok this] obtain a where a: "arm env d = Return () a"
    by blast
  with True d show ?thesis
    by (simp add: rapid_block_waiting_def Let_def)
next
  case False
  then show ?thesis
    by (auto simp: rapid_block_waiting_def Let_def)
qed

lemma rapid_tags_return:
  assumes fit: "channels_fit t" and st: "nat (d_ai_channels t) \<le> length (d_status t)"
    and nt: "\<not> is_timebase_tag (0, ttag)"
  shows "\<exists>r s'. bind_outcome
                     (rapid_channel_tags env ttag [0..<nat (d_ai_channels t)] 0 t)
                     (\<lambda>vec_idx s.
                        bind_outcome
                          (rapid_port_tags env
                             (rapid_trigger_tag env s 0 (nat (d_ai_channels s))) ttag
                             [0..<nat (d_ports s)] vec_idx s)
                          (\<lambda>_ s. Return n (s\<lparr>d_bstate := update_state n (d_bstate s)\<rparr>)))
                 = Return r s'"
proof -
  from fit st
  have "\<forall>i \<in> set [0..<nat (d_ai_channels t)].
          i < length (d_channel_settings t) \<and> i < length (d_status t)"
    by (auto simp: channels_fit_def)
  from rapid_channel_tags_returns [OF this, of env ttag 0] obtain v s5 where
    c: "rapid_channel_tags env ttag [0..<nat (d_ai_channels t)] 0 t = Return v s5"
    by blast
  from rapid_channel_tags_tags_only [OF c nt] have "tags_only t s5" .
  from tags_only_fields(2,4) [OF this] fit
  have "\<forall>i \<in> set [0..<nat (d_ports s5)]. i < length (d_port_settings s5)"
    by (auto simp: channels_fit_def)
  from rapid_port_tags_returns [OF this, of env
      "rapid_trigger_tag env s5 0 (nat (d_ai_channels s5))" ttag v]
  obtain v' s6 where
    p: "rapid_port_tags env (rapid_trigger_tag env s5 0 (nat (d_ai_channels s5))) ttag
          [0..<nat (d_ports s5)] v s5 = Return v' s6"
    by blast
  from c p show ?thesis
    by simp
qed

lemma rapid_block_part1_returns:
  assumes fit: "channels_fit s" and st: "nat (d_ai_channels s) \<le> length (driver_status env)"
  shows "\<exists>r s'. rapid_block_part1 env noutput_items s = Return r s'"
proof (cases "ec_set (driver_prefetch_block_ec env)")
  case True
  then show ?thesis
    by (simp add: rapid_block_part1_def Let_def)
next
  case pre: False
  show ?thesis
  proof (cases "ec_set (driver_get_rapid_block_data_ec env)")
    case True
    with pre show ?thesis
      by (simp add: rapid_block_part1_def Let_def)
  next
    case False
    have nt: "\<not> is_timebase_tag (0, make_trigger_tag\<lparr>tag_offset := off\<rparr>)" for off
      by (simp add: is_timebase_tag_def make_trigger_tag_def)
    have f: "channels_fit (driver_get_rapid_block_data env n
                (s\<lparr>d_was_triggered_once := True, driver_trace := tr, d_bstate := b\<rparr>))"
      "nat (d_ai_channels (driver_get_rapid_block_data env n
                (s\<lparr>d_was_triggered_once := True, driver_trace := tr, d_bstate := b\<rparr>)))
         \<le> length (d_status (driver_get_rapid_block_data env n
                (s\<lparr>d_was_triggered_once := True, driver_trace := tr, d_bstate := b\<rparr>)))"
      for n tr b
      using fit st by (simp_all add: channels_fit_def driver_get_rapid_block_data_def)
    from pre False show ?thesis
      unfolding rapid_block_part1_def Let_def
      by (simp add: rapid_tags_return [OF f nt])
  qed
qed

lemma work_rapid_block_returns:
  assumes armok: "\<not> ec_set (driver_arm_ec env)" and fit: "channels_fit s"
    and st: "nat (d_ai_channels s) \<le> length (driver_status env)"
  shows "\<exists>r s'. work_rapid_block env noutput_items s = Return r s'"
proof -
  have after: "\<exists>r s'. (case early of
            Some r \<Rightarrow> Return r t
          | None \<Rightarrow>
              if state (d_bstate t) = READING_PART1 then rapid_block_part1 env noutput_items t
              else if state (d_bstate t) = READING_THE_REST
              then rapid_block_the_rest env noutput_items t
              else Return (- 1) t) = Return r s'"
    if "same_config s t" for early t
  proof -
    from same_config_channels_fit [OF that] fit have "channels_fit t"
      by simp
    moreover from that st have "nat (d_ai_channels t) \<le> length (driver_status env)"
      by (simp add: same_config_def)
    ultimately have "\<exists>r s'. rapid_block_part1 env noutput_items t = Return r s'"
      by (rule rapid_block_part1_returns)
    then show ?thesis
      by (cases early) (auto simp: rapid_block_the_rest_def Let_def)
  qed
  show ?thesis
  proof (cases "state (d_bstate s) = WAITING")
    case True
    from rapid_block_waiting_returns [OF armok fit] obtain early t where
      w: "rapid_block_waiting env s = Return early t"
      by blast
    from rapid_block_waiting_step [OF w] have "same_config s t"
      by (simp add: worker_step_def)
    from after [OF this, of early] True w show ?thesis
      by (simp add: work_rapid_block_def)
  next
    case False
    from after [OF same_config_refl, of None] False show ?thesis
      by (simp add: work_rapid_block_def)
  qed
qed

lemma work_rapid_returns:
  assumes mode: "d_acquisition_mode s = RAPID_BLOCK"
    and armok: "\<not> ec_set (driver_arm_ec env)" and fit: "channels_fit s"
    and st: "nat (d_ai_channels s) \<le> length (driver_status env)"
  shows "\<exists>r s'. work env noutput_items s = Return r s'"
proof -
  from work_rapid_block_returns [OF armok fit st, of noutput_items] obtain r mid where
    "work_rapid_block env noutput_items s = Return r mid"
    by blast
  with mode show ?thesis
    by (simp add: work_def)
qed

lemma work_calls_rapid_return:
  assumes "d_acquisition_mode s = RAPID_BLOCK" and "channels_fit s"
    and "\<forall>c \<in> set cs. error_free_call c \<and> nat (d_ai_channels s) \<le> length (driver_status (fst c))"
  shows "\<exists>rs s'. work_calls cs s = Return rs s'"
  using assms
proof (induction cs arbitrary: s)
  case Nil
  show ?case by simp
next
  case (Cons c cs)
  from Cons.prems(3) have armok: "\<not> ec_set (driver_arm_ec (fst c))"
    and st: "nat (d_ai_channels s) \<le> length (driver_status (fst c))"
    and rest: "\<forall>c \<in> set cs. error_free_call c
                  \<and> nat (d_ai_channels s) \<le> length (driver_status (fst c))"
    by (simp_all add: error_free_call_def)
  from work_rapid_returns [OF Cons.prems(1) armok Cons.prems(2) st, of "snd c"]
  obtain r s1 where w: "work (fst c) (snd c) s = Return r s1"
    by blast
  from work_rapid_mid [OF Cons.prems(1) w] have cfg: "same_config s s1"
    by blast
  then have mode1: "d_acquisition_mode s1 = RAPID_BLOCK"
    and ch: "d_ai_channels s1 = d_ai_channels s"
    using Cons.prems(1) by (simp_all add: same_config_def)
  from same_config_channels_fit [OF cfg] Cons.prems(2) have fit1: "channels_fit s1"
    by simp
  from rest ch have "\<forall>c \<in> set cs. error_free_call c
                  \<and> nat (d_ai_channels s1) \<le> length (driver_status (fst c))"
    by simp
  from Cons.IH [OF mode1 fit1 this] obtain rs s' where "work_calls cs s1 = Return rs s'"
    by blast
  with w show ?case
    by simp
qed

text \<open>
  C3, amended. In RAPID_BLOCK mode with \<open>trigger_once\<close> set: a call of \<^verbatim>\<open>work\<close> that
  finds the state WAITING after a waveform has been read (\<open>d_was_triggered_once\<close>) returns
  -1 and changes nothing, so every later call does the same. A call that prefetches a
  waveform sets \<open>d_was_triggered_once\<close>, no call clears it, and mode and \<open>trigger_once\<close>
  stay as they are. Over a sequence of calls that starts in WAITING with no waveform
  read yet and \<open>nr_captures \<ge> 1\<close>: never more than \<open>nr_captures\<close> waveforms are begun;
  when the sequence has reached that end of the stream (WAITING with
  \<open>d_was_triggered_once\<close>), exactly \<open>nr_captures\<close> waveforms have been begun, one capture
  sequence and not one waveform; and a sequence of calls free of errors, at least
  \<open>nr_captures * max 1 block_size\<close> of them, returns and reaches that end.
\<close>

theorem trigger_once_one_capture_sequence:
  assumes "d_acquisition_mode s = RAPID_BLOCK" and "d_trigger_once s"
  shows "(state (d_bstate s) = WAITING \<and> d_was_triggered_once s \<longrightarrow>
            work env noutput_items s = Return (- 1) s
          \<and> work_calls cs s = Return (replicate (length cs) (- 1)) s)
       \<and> (\<forall>r s'. work env noutput_items s = Return r s' \<longrightarrow>
            (d_was_triggered_once s \<longrightarrow> d_was_triggered_once s')
          \<and> (prefetch_count s < prefetch_count s' \<longrightarrow> d_was_triggered_once s')
          \<and> d_trigger_once s' \<and> d_acquisition_mode s' = RAPID_BLOCK)
       \<and> (state (d_bstate s) = WAITING \<and> \<not> d_was_triggered_once s
             \<and> 1 \<le> sint (d_nr_captures s) \<longrightarrow>
            waveforms_begun cs s \<le> nat (sint (d_nr_captures s))
          \<and> (\<forall>rs s'. work_calls cs s = Return rs s'
                  \<and> state (d_bstate s') = WAITING \<and> d_was_triggered_once s' \<longrightarrow>
                waveforms_begun cs s = nat (sint (d_nr_captures s)))
          \<and> (channels_fit s
                \<and> (\<forall>c \<in> set cs. error_free_call c
                       \<and> nat (d_ai_channels s) \<le> length (driver_status (fst c)))
                \<and> nat (sint (d_nr_captures s)) * calls_per_waveform s \<le> length cs \<longrightarrow>
              (\<exists>rs s'. work_calls cs s = Return rs s'
                  \<and> state (d_bstate s') = WAITING \<and> d_was_triggered_once s'
                  \<and> waveforms_begun cs s = nat (sint (d_nr_captures s)))))"
proof (intro conjI impI allI)
  assume w: "state (d_bstate s) = WAITING \<and> d_was_triggered_once s"
  then have w1: "state (d_bstate s) = WAITING" and w2: "d_was_triggered_once s"
    by simp_all
  from work_end_of_stream [OF assms w1 w2]
  show "work env noutput_items s = Return (- 1) s" .
  from work_calls_end_of_stream [OF assms w1 w2]
  show "work_calls cs s = Return (replicate (length cs) (- 1)) s" .
next
  fix r s'
  assume ret: "work env noutput_items s = Return r s'"
  from work_rapid_triggered [OF assms(1) ret] assms(2)
  show "d_trigger_once s'" and "d_acquisition_mode s' = RAPID_BLOCK"
    by simp_all
  {
    assume "d_was_triggered_once s"
    with work_rapid_triggered [OF assms(1) ret] show "d_was_triggered_once s'"
      by simp
  }
  {
    assume "prefetch_count s < prefetch_count s'"
    with work_rapid_triggered [OF assms(1) ret] show "d_was_triggered_once s'"
      by simp
  }
next
  assume f: "state (d_bstate s) = WAITING \<and> \<not> d_was_triggered_once s
             \<and> 1 \<le> sint (d_nr_captures s)"
  with assms have inv: "capture_invariant (d_nr_captures s) s"
    by (simp add: capture_invariant_def)
  from f have left: "waveforms_left (d_nr_captures s) s = nat (sint (d_nr_captures s))"
    by (simp add: waveforms_left_def)
  from f have pend: "samples_pending s"
    by (simp add: samples_pending_def)
  from f have calls: "calls_left (d_nr_captures s) s
      = nat (sint (d_nr_captures s)) * calls_per_waveform s"
    by (simp add: calls_left_def)
  from waveforms_begun_bound [OF inv, of cs] left
  show "waveforms_begun cs s \<le> nat (sint (d_nr_captures s))"
    by simp
  have exact: "waveforms_begun cs s = nat (sint (d_nr_captures s))"
    if "work_calls cs s = Return rs s'" and "state (d_bstate s') = WAITING"
      and "d_was_triggered_once s'" for rs s'
  proof -
    from waveforms_begun_conserved [OF inv that(1)]
    have "waveforms_begun cs s + waveforms_left (d_nr_captures s) s'
        = waveforms_left (d_nr_captures s) s"
      by simp
    moreover from that(2,3) have "waveforms_left (d_nr_captures s) s' = 0"
      by (simp add: waveforms_left_def)
    ultimately show ?thesis
      using left by simp
  qed
  {
    fix rs s'
    assume "work_calls cs s = Return rs s'
                  \<and> state (d_bstate s') = WAITING \<and> d_was_triggered_once s'"
    with exact show "waveforms_begun cs s = nat (sint (d_nr_captures s))"
      by blast
  }
  {
    assume h: "channels_fit s
                \<and> (\<forall>c \<in> set cs. error_free_call c
                       \<and> nat (d_ai_channels s) \<le> length (driver_status (fst c)))
                \<and> nat (sint (d_nr_captures s)) * calls_per_waveform s \<le> length cs"
    then have fit: "channels_fit s"
      and ok: "\<forall>c \<in> set cs. error_free_call c
                       \<and> nat (d_ai_channels s) \<le> length (driver_status (fst c))"
      and ef: "\<forall>c \<in> set cs. error_free_call c"
      and len: "calls_left (d_nr_captures s) s \<le> length cs"
      using calls by simp_all
    from work_calls_rapid_return [OF assms(1) fit ok] obtain rs s' where
      run: "work_calls cs s = Return rs s'"
      by blast
    from run_reaches_end [OF inv pend ef run len]
    have e: "state (d_bstate s') = WAITING" "d_was_triggered_once s'"
      by simp_all
    from exact [OF run e] run e
    show "\<exists>rs s'. work_calls cs s = Return rs s'
                  \<and> state (d_bstate s') = WAITING \<and> d_was_triggered_once s'
                  \<and> waveforms_begun cs s = nat (sint (d_nr_captures s))"
      by blast
  }
qed

lemma rapid_test_block_eq:
  "rapid_test_block =
     test_block\<lparr>d_acquisition_mode := RAPID_BLOCK, d_nr_captures := 2, d_samples := 1,
                d_pre_samples := 0, d_buffer_size := 1, d_trigger_once := True\<rparr>"
  by (simp add: rapid_test_block_def set_rapid_block_def set_samples_def set_trigger_once_def)

lemma rapid_test_block_fields:
  "d_acquisition_mode rapid_test_block = RAPID_BLOCK" "d_trigger_once rapid_test_block"
  "state (d_bstate rapid_test_block) = WAITING" "\<not> d_was_triggered_once rapid_test_block"
  "d_nr_captures rapid_test_block = 2"
  by (simp_all add: rapid_test_block_eq test_block_def digitizer_block_impl_def initial_bstate_def)

lemma rapid_long_block_eq:
  "rapid_long_block =
     test_block\<lparr>d_acquisition_mode := RAPID_BLOCK, d_nr_captures := 2, d_samples := 2,
                d_pre_samples := 1, d_buffer_size := 3, d_trigger_once := True\<rparr>"
  by (simp add: rapid_long_block_def set_rapid_block_def set_samples_def set_trigger_once_def)

lemma rapid_long_block_fields:
  "d_acquisition_mode rapid_long_block = RAPID_BLOCK" "d_trigger_once rapid_long_block"
  "state (d_bstate rapid_long_block) = WAITING" "\<not> d_was_triggered_once rapid_long_block"
  "d_nr_captures rapid_long_block = 2" "channels_fit rapid_long_block"
  "calls_per_waveform rapid_long_block = 3" "nat (d_ai_channels rapid_long_block) = 4"
  by (simp_all add: rapid_long_block_eq test_block_def digitizer_block_impl_def initial_bstate_def
      channels_fit_def calls_per_waveform_def get_block_size_with_downsampling_def
      get_pre_trigger_samples_with_downsampling_def get_post_trigger_samples_with_downsampling_def)

lemma rapid_test_block_fit:
  "channels_fit rapid_test_block" "calls_per_waveform rapid_test_block = 1"
  "nat (d_ai_channels rapid_test_block) = 4"
  by (simp_all add: rapid_test_block_eq test_block_def digitizer_block_impl_def
      channels_fit_def calls_per_waveform_def get_block_size_with_downsampling_def
      get_pre_trigger_samples_with_downsampling_def get_post_trigger_samples_with_downsampling_def)

lemma test_env_error_free:
  "error_free_call (test_env, 1)" "error_free_call (test_env, 2)"
  "length (driver_status test_env) = 4"
  by (simp_all add: error_free_call_def test_env_def ec_set_def)

lemmas rapid_eval_defs =
  work_def work_rapid_block_def rapid_block_waiting_def rapid_block_part1_def
  rapid_block_the_rest_def driver_get_rapid_block_data_def clear_data_ready_def
  initialize_bstate_def set_waveform_params_def update_state_def int_min_def
  get_block_size_def get_block_size_with_downsampling_def
  get_pre_trigger_samples_with_downsampling_def get_post_trigger_samples_with_downsampling_def
  get_timebase_with_downsampling_def publish_timebase_eq make_trigger_tag_def
  rapid_trigger_tag_def make_trigger_tag_info_def ec_set_def Let_def
  test_env_def test_block_def digitizer_block_impl_def initial_bstate_def
  default_channel_setting_def default_port_setting_def default_trigger_setting_def upt_4

lemma rapid_first_call: "work test_env 1 rapid_test_block = Return 1 rapid_after_first"
  by (simp add: rapid_after_first_def rapid_test_block_eq rapid_eval_defs)

lemma rapid_second_call: "work test_env 1 rapid_after_first = Return 1 rapid_after_second"
  by (simp add: rapid_after_second_def rapid_after_first_def rapid_test_block_eq rapid_eval_defs)

lemma rapid_third_call: "work test_env 1 rapid_after_second = Return (- 1) rapid_after_second"
  by (simp add: rapid_after_second_def rapid_after_first_def rapid_test_block_eq rapid_eval_defs)

lemma rapid_prefetch_counts:
  "prefetch_count rapid_test_block = 0" "prefetch_count rapid_after_first = 1"
  "prefetch_count rapid_after_second = 2"
  by (simp_all add: prefetch_count_def rapid_after_second_def rapid_after_first_def
      rapid_test_block_eq test_block_def digitizer_block_impl_def)

theorem trigger_once_one_capture_sequence_witness:
  "d_acquisition_mode rapid_test_block = RAPID_BLOCK
   \<and> d_trigger_once rapid_test_block
   \<and> state (d_bstate rapid_test_block) = WAITING
   \<and> \<not> d_was_triggered_once rapid_test_block
   \<and> d_nr_captures rapid_test_block = 2
   \<and> waveforms_begun [(test_env, 1), (test_env, 1)] rapid_test_block = 2
   \<and> d_nr_captures rapid_long_block = 2
   \<and> waveforms_begun [(test_env, 2), (test_env, 2), (test_env, 2), (test_env, 2),
                       (test_env, 2), (test_env, 2)] rapid_long_block = 2
   \<and> work test_env 1 rapid_test_block = Return 1 rapid_after_first
   \<and> d_was_triggered_once rapid_after_first
   \<and> state (d_bstate rapid_after_second) = WAITING
   \<and> d_was_triggered_once rapid_after_second
   \<and> work test_env 1 rapid_after_second = Return (- 1) rapid_after_second"
proof -
  have pos: "1 \<le> sint (2 :: 32 word)"
    by simp
  from trigger_once_one_capture_sequence [OF rapid_test_block_fields(1,2),
      of test_env 1 "[]"] rapid_first_call rapid_prefetch_counts(1,2)
  have first: "d_was_triggered_once rapid_after_first"
    by simp
  from trigger_once_one_capture_sequence [OF rapid_test_block_fields(1,2),
      of test_env 1 "[(test_env, 1), (test_env, 1)]"]
    rapid_test_block_fields rapid_test_block_fit test_env_error_free pos
  have "\<exists>rs s'. work_calls [(test_env, 1), (test_env, 1)] rapid_test_block = Return rs s'
            \<and> state (d_bstate s') = WAITING \<and> d_was_triggered_once s'
            \<and> waveforms_begun [(test_env, 1), (test_env, 1)] rapid_test_block = 2"
    by (simp del: waveforms_begun.simps work_calls.simps)
  then have short: "waveforms_begun [(test_env, 1), (test_env, 1)] rapid_test_block = 2"
    by blast
  from trigger_once_one_capture_sequence [OF rapid_long_block_fields(1,2),
      of test_env 2 "[(test_env, 2), (test_env, 2), (test_env, 2), (test_env, 2),
                       (test_env, 2), (test_env, 2)]"]
    rapid_long_block_fields test_env_error_free pos
  have "\<exists>rs s'. work_calls [(test_env, 2), (test_env, 2), (test_env, 2), (test_env, 2),
                       (test_env, 2), (test_env, 2)] rapid_long_block = Return rs s'
            \<and> state (d_bstate s') = WAITING \<and> d_was_triggered_once s'
            \<and> waveforms_begun [(test_env, 2), (test_env, 2), (test_env, 2), (test_env, 2),
                       (test_env, 2), (test_env, 2)] rapid_long_block = 2"
    by (simp del: waveforms_begun.simps work_calls.simps)
  then have long: "waveforms_begun [(test_env, 2), (test_env, 2), (test_env, 2), (test_env, 2),
                       (test_env, 2), (test_env, 2)] rapid_long_block = 2"
    by blast
  have fin: "d_acquisition_mode rapid_after_second = RAPID_BLOCK"
    "d_trigger_once rapid_after_second"
    "state (d_bstate rapid_after_second) = WAITING" "d_was_triggered_once rapid_after_second"
    by (simp_all add: rapid_after_second_def rapid_after_first_def rapid_test_block_eq)
  from trigger_once_one_capture_sequence [OF fin(1,2), of test_env 1 "[]"] fin(3,4)
  have eos: "work test_env 1 rapid_after_second = Return (- 1) rapid_after_second"
    by simp
  from short long eos fin(3,4) first rapid_first_call rapid_test_block_fields
    rapid_long_block_fields(5)
  show ?thesis
    by simp
qed

text \<open>
  C3 as stated does not hold: with \<open>trigger_once\<close> set and \<open>nr_captures = 2\<close> the first
  two calls each read a waveform (indices 0 and 1) and return one sample; only the third
  call returns -1.
\<close>

theorem trigger_once_two_waveforms_counterexample:
  "d_acquisition_mode rapid_test_block = RAPID_BLOCK
   \<and> d_trigger_once rapid_test_block
   \<and> d_nr_captures rapid_test_block = 2
   \<and> work_calls [(test_env, 1), (test_env, 1), (test_env, 1)] rapid_test_block
       = Return [1, 1, - 1] rapid_after_second
   \<and> driver_trace rapid_after_second
       = [Driver_prefetch_block 1 0, Driver_get_rapid_block_data 0 1 0,
          Driver_prefetch_block 1 1, Driver_get_rapid_block_data 0 1 1]
   \<and> waveforms_begun [(test_env, 1), (test_env, 1), (test_env, 1)] rapid_test_block = 2"
proof -
  have calls: "work_calls [(test_env, 1), (test_env, 1), (test_env, 1)] rapid_test_block
       = Return [1, 1, - 1] rapid_after_second"
    by (simp add: rapid_first_call rapid_second_call rapid_third_call)
  have ok: "\<not> ec_set (driver_prefetch_block_ec test_env)"
    "\<not> ec_set (driver_get_rapid_block_data_ec test_env)"
    by (simp_all add: test_env_def ec_set_def)
  have begun: "waveforms_begun [(test_env, 1), (test_env, 1), (test_env, 1)] rapid_test_block = 2"
    by (simp add: begins_waveform_def rapid_first_call rapid_second_call rapid_third_call
        rapid_prefetch_counts ok)
  have trace: "driver_trace rapid_after_second
       = [Driver_prefetch_block 1 0, Driver_get_rapid_block_data 0 1 0,
          Driver_prefetch_block 1 1, Driver_get_rapid_block_data 0 1 1]"
    by (simp add: rapid_after_second_def)
  from calls begun trace rapid_test_block_fields show ?thesis
    by simp
qed

end
